(* ===== verification/Proxy_Prelude.thy ===== *)
theory Proxy_Prelude
  imports Main "HOL-Library.Word" "HOL-Library.Finite_Map" "HOL-Library.Multiset"
begin

text \<open>
  What every component of the proxy shares: the machine integers and byte
  strings of the Rust sources, the part of the Rust standard library that the
  sources call on slices and strings (\<open>position\<close>, \<open>split_once\<close>,
  \<open>strip_prefix\<close>, \<open>trim_end_matches\<close>, \<dots>), and the generic lemmas about them.

  A Rust \<open>str\<close> is its UTF-8 bytes, so it is a \<^typ>\<open>string\<close> whose characters are
  bytes; \<open>as_bytes\<close> reads it as a list of \<open>u8\<close>. \<open>Result<T, E>\<close> is the sum
  \<open>E + T\<close>: \<open>Inl\<close> is \<open>Err\<close>, \<open>Inr\<close> is \<open>Ok\<close>.
\<close>

unbundle bit_operations_syntax

section \<open>Types of the model\<close>

type_synonym u8 = "8 word"
type_synonym u16 = "16 word"
type_synonym u32 = "32 word"
type_synonym i32 = "32 word"
type_synonym u64 = "64 word"
type_synonym i64 = "64 word"
type_synonym usize = "64 word"
type_synonym bytes = "u8 list"

text \<open>A 32-byte hash of the \<open>bitcoin\<close> crate (\<open>BlockHash\<close>, \<open>Txid\<close>, \<dots>), as its bytes.\<close>

type_synonym hash = bytes
type_synonym blockhash = hash
type_synonym txid = hash

text \<open>
  Collections of simplification rules: \<open>proxy_defs\<close> holds the definitions of
  small accessors that every proof about a component unfolds, \<open>std_simps\<close> the
  characteristic equations of the standard library's operations.
\<close>

named_theorems proxy_defs
named_theorems std_simps

section \<open>Slices and iterators\<close>

text \<open>\<open>iter().position(p)\<close>: the index of the first element that satisfies \<open>p\<close>.\<close>

fun position :: "('a \<Rightarrow> bool) \<Rightarrow> 'a list \<Rightarrow> nat option" where
  "position p [] = None"
| "position p (x # xs) = (if p x then Some 0 else map_option Suc (position p xs))"

text \<open>\<open>iter().rposition(p)\<close>: the index of the last element that satisfies \<open>p\<close>.\<close>

definition rposition :: "('a \<Rightarrow> bool) \<Rightarrow> 'a list \<Rightarrow> nat option" where
  "rposition p xs = map_option (\<lambda>i. length xs - 1 - i) (position p (rev xs))"

text \<open>\<open>VecDeque::remove(i)\<close>: the queue without its element at \<open>i\<close>.\<close>

definition remove_nth :: "nat \<Rightarrow> 'a list \<Rightarrow> 'a list" where
  "remove_nth i xs = take i xs @ drop (Suc i) xs"

section \<open>Results\<close>

text \<open>\<open>Result::and_then\<close>, and the \<open>?\<close> operator where no error conversion is involved.\<close>

fun and_then :: "'e + 'a \<Rightarrow> ('a \<Rightarrow> 'e + 'b) \<Rightarrow> 'e + 'b" where
  "and_then (Inl e) f = Inl e"
| "and_then (Inr x) f = f x"

text \<open>
  The \<open>?\<close> operator where a state is threaded through: an operation takes the state and
  returns a result with the new one. \<open>map_err\<close> converts the error.
\<close>

definition bind_res :: "('s \<Rightarrow> ('e + 'a) \<times> 's) \<Rightarrow> ('a \<Rightarrow> 's \<Rightarrow> ('e + 'b) \<times> 's) \<Rightarrow> 's \<Rightarrow> ('e + 'b) \<times> 's" where
  "bind_res m f s = (case m s of (Inl e, s1) \<Rightarrow> (Inl e, s1) | (Inr x, s1) \<Rightarrow> f x s1)"

definition map_err :: "('e \<Rightarrow> 'f) \<Rightarrow> ('s \<Rightarrow> ('e + 'a) \<times> 's) \<Rightarrow> 's \<Rightarrow> ('f + 'a) \<times> 's" where
  "map_err f m s = apfst (map_sum f id) (m s)"

definition return_ok :: "'a \<Rightarrow> 's \<Rightarrow> ('e + 'a) \<times> 's" where
  "return_ok x s = (Inr x, s)"

definition return_err :: "'e \<Rightarrow> 's \<Rightarrow> ('e + 'a) \<times> 's" where
  "return_err e s = (Inl e, s)"

text \<open>The panics the sources can reach: \<open>x % 0\<close>, and an index past the end of a slice.\<close>

datatype panic = RemainderByZero | IndexOutOfBounds

section \<open>Strings\<close>

definition as_bytes :: "string \<Rightarrow> bytes" where
  "as_bytes s = map of_char s"

text \<open>\<open>str::strip_prefix\<close>.\<close>

fun strip_prefix :: "'a list \<Rightarrow> 'a list \<Rightarrow> 'a list option" where
  "strip_prefix [] s = Some s"
| "strip_prefix (p # ps) [] = None"
| "strip_prefix (p # ps) (c # cs) = (if p = c then strip_prefix ps cs else None)"

text \<open>\<open>str::split_once\<close> at a one-byte separator: before and after its first occurrence.\<close>

fun split_once :: "'a \<Rightarrow> 'a list \<Rightarrow> ('a list \<times> 'a list) option" where
  "split_once sep [] = None"
| "split_once sep (c # cs) =
     (if c = sep then Some ([], cs)
      else map_option (\<lambda>(l, r). (c # l, r)) (split_once sep cs))"

text \<open>\<open>str::rsplit_once\<close> at a one-byte separator: before and after its last occurrence.\<close>

definition rsplit_once :: "'a \<Rightarrow> 'a list \<Rightarrow> ('a list \<times> 'a list) option" where
  "rsplit_once sep s = map_option (\<lambda>(r, l). (rev l, rev r)) (split_once sep (rev s))"

definition starts_with :: "'a list \<Rightarrow> 'a list \<Rightarrow> bool" where
  "starts_with p s \<longleftrightarrow> strip_prefix p s \<noteq> None"

definition ends_with :: "'a list \<Rightarrow> 'a list \<Rightarrow> bool" where
  "ends_with p s \<longleftrightarrow> starts_with (rev p) (rev s)"

text \<open>\<open>str::trim_end_matches(c)\<close>: every trailing \<open>c\<close> removed.\<close>

definition trim_end_matches :: "'a \<Rightarrow> 'a list \<Rightarrow> 'a list" where
  "trim_end_matches c s = rev (dropWhile (\<lambda>x. x = c) (rev s))"

text \<open>
  \<open>std::str::from_utf8\<close>: the well-formed byte sequences of the Unicode standard (no
  overlong forms, no surrogates, nothing above U+10FFFF).
\<close>

definition utf8_cont :: "u8 \<Rightarrow> bool" where
  "utf8_cont b \<longleftrightarrow> 0x80 \<le> b \<and> b \<le> 0xBF"

fun utf8_valid :: "bytes \<Rightarrow> bool" where
  "utf8_valid [] \<longleftrightarrow> True"
| "utf8_valid (b # bs) \<longleftrightarrow>
     (if b \<le> 0x7F then utf8_valid bs
      else if 0xC2 \<le> b \<and> b \<le> 0xDF then
        (case bs of c1 # r \<Rightarrow> utf8_cont c1 \<and> utf8_valid r | _ \<Rightarrow> False)
      else if 0xE0 \<le> b \<and> b \<le> 0xEF then
        (case bs of c1 # c2 # r \<Rightarrow>
           utf8_cont c1 \<and> (b = 0xE0 \<longrightarrow> 0xA0 \<le> c1) \<and> (b = 0xED \<longrightarrow> c1 \<le> 0x9F) \<and>
           utf8_cont c2 \<and> utf8_valid r | _ \<Rightarrow> False)
      else if 0xF0 \<le> b \<and> b \<le> 0xF4 then
        (case bs of c1 # c2 # c3 # r \<Rightarrow>
           utf8_cont c1 \<and> (b = 0xF0 \<longrightarrow> 0x90 \<le> c1) \<and> (b = 0xF4 \<longrightarrow> c1 \<le> 0x8F) \<and>
           utf8_cont c2 \<and> utf8_cont c3 \<and> utf8_valid r | _ \<Rightarrow> False)
      else False)"

definition from_utf8 :: "bytes \<Rightarrow> string option" where
  "from_utf8 bs = (if utf8_valid bs then Some (map (\<lambda>b. char_of (unat b)) bs) else None)"

section \<open>Lemmas on the standard library\<close>

lemma position_None_iff [std_simps]: "position p xs = None \<longleftrightarrow> (\<forall>x\<in>set xs. \<not> p x)"
  by (induction xs) auto

lemma position_SomeD:
  "position p xs = Some i \<Longrightarrow> i < length xs \<and> p (xs ! i) \<and> (\<forall>j<i. \<not> p (xs ! j))"
proof (induction xs arbitrary: i)
  case (Cons x xs)
  then show ?case
    by (cases i) (auto split: if_splits simp: less_Suc_eq_0_disj)
qed simp

lemma rposition_None_iff [std_simps]: "rposition p xs = None \<longleftrightarrow> (\<forall>x\<in>set xs. \<not> p x)"
  by (simp add: rposition_def position_None_iff)

lemma rposition_SomeD:
  assumes "rposition p xs = Some i"
  shows "i < length xs \<and> p (xs ! i) \<and> (\<forall>j. i < j \<longrightarrow> j < length xs \<longrightarrow> \<not> p (xs ! j))"
proof -
  from assms obtain k where k: "position p (rev xs) = Some k" "i = length xs - 1 - k"
    by (auto simp: rposition_def)
  note pos = position_SomeD [OF k(1)]
  have "\<not> p (xs ! j)" if "i < j" "j < length xs" for j
  proof -
    have "length xs - 1 - j < k" using that pos k(2) by simp
    then have "\<not> p (rev xs ! (length xs - 1 - j))" using pos by blast
    then show ?thesis using that by (simp add: rev_nth)
  qed
  then show ?thesis using pos k(2) by (auto simp: rev_nth)
qed

lemma remove_nth_position:
  "position (\<lambda>h. h = k) xs = Some i \<Longrightarrow> remove_nth i xs = remove1 k xs"
proof (induction xs arbitrary: i)
  case (Cons x xs)
  then show ?case
    by (cases i) (auto simp: remove_nth_def split: if_splits)
qed simp

lemma position_eq_cases [case_names absent present]:
  assumes "k \<notin> set xs \<Longrightarrow> position (\<lambda>h. h = k) xs = None \<Longrightarrow> P"
    and "\<And>i. k \<in> set xs \<Longrightarrow> position (\<lambda>h. h = k) xs = Some i \<Longrightarrow>
              remove_nth i xs = remove1 k xs \<Longrightarrow> P"
  shows P
proof (cases "position (\<lambda>h. h = k) xs")
  case None
  then show ?thesis using assms(1) by (auto simp: position_None_iff)
next
  case (Some i)
  then have "k \<in> set xs" using position_SomeD [OF Some] by auto
  then show ?thesis using assms(2) Some remove_nth_position [OF Some] by blast
qed

lemma and_then_Inr_iff [simp]: "and_then r f = Inr y \<longleftrightarrow> (\<exists>x. r = Inr x \<and> f x = Inr y)"
  by (cases r) auto

lemma bind_res_Inr_iff:
  "bind_res m f s = (Inr y, s2) \<longleftrightarrow> (\<exists>x s1. m s = (Inr x, s1) \<and> f x s1 = (Inr y, s2))"
  by (auto simp: bind_res_def split: prod.splits sum.splits)

lemma bind_res_Inl_iff:
  "bind_res m f s = (Inl e, s2) \<longleftrightarrow> m s = (Inl e, s2) \<or> (\<exists>x s1. m s = (Inr x, s1) \<and> f x s1 = (Inl e, s2))"
  by (auto simp: bind_res_def split: prod.splits sum.splits)

lemma map_err_Inr_iff [simp]: "map_err f m s = (Inr y, s1) \<longleftrightarrow> m s = (Inr y, s1)"
  by (cases "m s"; cases "fst (m s)") (auto simp: map_err_def)

lemma return_simps [simp]:
  "return_ok x s = (Inr y, s1) \<longleftrightarrow> x = y \<and> s = s1" "return_ok x s \<noteq> (Inl e, s1)"
  "return_err e s \<noteq> (Inr y, s1)" "return_err e s = (Inl e', s1) \<longleftrightarrow> e = e' \<and> s = s1"
  by (auto simp: return_ok_def return_err_def)

text \<open>An operation that takes every state to a related one; a preorder is kept by sequencing.\<close>

definition stays_in :: "('s \<Rightarrow> 's \<Rightarrow> bool) \<Rightarrow> ('s \<Rightarrow> 'r \<times> 's) \<Rightarrow> bool" where
  "stays_in R m \<longleftrightarrow> (\<forall>s. R s (snd (m s)))"

lemma stays_inD: "stays_in R m \<Longrightarrow> m s = (r, s1) \<Longrightarrow> R s s1"
  by (metis stays_in_def snd_conv)

lemma stays_in_bind_res:
  assumes "transp R" and "stays_in R m" and "\<And>x. stays_in R (f x)"
  shows "stays_in R (bind_res m f)"
  unfolding stays_in_def
proof
  fix s
  obtain r s1 where m: "m s = (r, s1)" by fastforce
  have "R s s1" using assms(2) m by (rule stays_inD)
  moreover have "R s1 (snd (f x s1))" for x using assms(3) by (simp add: stays_in_def)
  ultimately show "R s (snd (bind_res m f s))"
    using assms(1) m by (cases r) (auto simp: bind_res_def dest: transpD)
qed

lemma stays_in_simple:
  "reflp R \<Longrightarrow> stays_in R (return_ok x)" "reflp R \<Longrightarrow> stays_in R (return_err e)"
  "stays_in R m \<Longrightarrow> stays_in R (map_err f m)"
  by (auto simp: stays_in_def return_ok_def return_err_def map_err_def reflp_def)

lemma strip_prefix_Some [std_simps]: "strip_prefix p s = Some r \<longleftrightarrow> s = p @ r"
  by (induction p s rule: strip_prefix.induct) auto

lemma starts_with_iff [std_simps]: "starts_with p s \<longleftrightarrow> (\<exists>r. s = p @ r)"
  by (auto simp: starts_with_def strip_prefix_Some)

lemma ends_with_iff [std_simps]: "ends_with p s \<longleftrightarrow> (\<exists>r. s = r @ p)"
  by (metis ends_with_def rev_append rev_rev_ident starts_with_iff)

lemma split_once_None [std_simps]: "split_once c s = None \<longleftrightarrow> c \<notin> set s"
  by (induction s) auto

lemma split_once_Some [std_simps]:
  "split_once c s = Some (l, r) \<longleftrightarrow> s = l @ c # r \<and> c \<notin> set l"
proof (induction s arbitrary: l)
  case (Cons a s)
  then show ?case by (cases l) auto
qed simp

lemma rsplit_once_Some [std_simps]:
  "rsplit_once c s = Some (l, r) \<longleftrightarrow> s = l @ c # r \<and> c \<notin> set r"
proof -
  have "rsplit_once c s = Some (l, r) \<longleftrightarrow> split_once c (rev s) = Some (rev r, rev l)"
    by (auto simp: rsplit_once_def)
  also have "\<dots> \<longleftrightarrow> s = l @ c # r \<and> c \<notin> set r"
    by (auto simp: split_once_Some rev_eq_append_conv)
  finally show ?thesis .
qed

lemma unat_less64: "unat (w :: 64 word) < 2 ^ 64"
  using unsigned_less [where w = w and 'a = nat] by simp

lemma as_bytes_Nil [simp]: "as_bytes [] = []"
  by (simp add: as_bytes_def)

lemma length_as_bytes [simp]: "length (as_bytes s) = length s"
  by (simp add: as_bytes_def)

lemma unat_of_char_u8 [simp]: "unat (of_char c :: u8) = of_char c"
proof -
  have "(of_char c :: u8) = of_nat (of_char c)" by (simp add: of_nat_of_char)
  moreover have "(of_char c :: nat) < 2 ^ LENGTH(8)" by (simp add: nat_of_char_less_256)
  ultimately show ?thesis by (simp add: unat_of_nat)
qed

lemma of_char_u8_inject [simp]: "(of_char c :: u8) = of_char d \<longleftrightarrow> c = d"
proof
  assume "(of_char c :: u8) = of_char d"
  then have "unat (of_char c :: u8) = unat (of_char d :: u8)" by simp
  then have "(of_char c :: nat) = of_char d" by (simp only: unat_of_char_u8)
  then show "c = d" by simp
qed simp

lemma from_utf8_as_bytes:
  "from_utf8 (as_bytes s) = (if utf8_valid (as_bytes s) then Some s else None)"
  by (simp add: from_utf8_def as_bytes_def comp_def del: of_char_of)

lemma as_bytes_inject [simp]: "as_bytes s = as_bytes t \<longleftrightarrow> s = t"
  unfolding as_bytes_def by (rule inj_map_eq_map) (simp add: inj_def)

end
