(* ===== verification/Json_Value.thy ===== *)
theory Json_Value
  imports Proxy_Prelude "HOL-Library.List_Lexorder" "HOL-Library.Char_ord"
begin

text \<open>
  The JSON values the sources handle (\<open>serde_json::Value\<close>, its constructors as the
  sources match on them). An object is an association list in document order, so the
  same type also represents what a deserializer walks over, where a key may occur
  twice, and what a derived serializer writes, in the order of the fields; \<open>to_value\<close> is
  what deserializing such a document into a \<open>Value\<close> keeps: the last value of each key, in
  the order of the keys, as in the \<open>BTreeMap\<close> inside. A float is kept as its bit pattern:
  no code of the proxy computes with one.
\<close>

datatype number = PosInt u64 | NegInt i64 | Float u64

datatype json =
    Null
  | Bool bool
  | Number number
  | String string
  | Array "json list"
  | Object "(string \<times> json) list"

type_synonym json_object = "(string \<times> json) list"

fun as_u64 :: "number \<Rightarrow> u64 option" where
  "as_u64 (PosInt n) = Some n"
| "as_u64 (NegInt n) = None"
| "as_u64 (Float n) = None"

fun as_str :: "json \<Rightarrow> string option" where
  "as_str (String s) = Some s"
| "as_str _ = None"

text \<open>The values the sources build: integers of each width, and optional members.\<close>

definition json_u64 :: "u64 \<Rightarrow> json" where
  "json_u64 n = Number (PosInt n)"

definition json_i64 :: "i64 \<Rightarrow> json" where
  "json_i64 n = (if 0 \<le>s n then Number (PosInt n) else Number (NegInt n))"

fun json_option :: "('a \<Rightarrow> json) \<Rightarrow> 'a option \<Rightarrow> json" where
  "json_option f None = Null"
| "json_option f (Some x) = f x"

text \<open>
  \<open>Map::insert\<close>, and the map a deserializer or \<open>json!\<close> builds from the entries it is given.
  The map of \<open>serde_json\<close> is ordered by key (the crate is built without \<open>preserve_order\<close>).
\<close>

fun map_insert :: "string \<Rightarrow> json \<Rightarrow> json_object \<Rightarrow> json_object" where
  "map_insert k v [] = [(k, v)]"
| "map_insert k v ((k1, v1) # m) =
     (if k = k1 then (k, v) # m
      else if k < k1 then (k, v) # (k1, v1) # m
      else (k1, v1) # map_insert k v m)"

definition insert_all :: "json_object \<Rightarrow> json_object" where
  "insert_all es = foldl (\<lambda>m (k, v). map_insert k v m) [] es"

primrec to_value :: "json \<Rightarrow> json" where
  "to_value Null = Null"
| "to_value (Bool b) = Bool b"
| "to_value (Number n) = Number n"
| "to_value (String s) = String s"
| "to_value (Array vs) = Array (map to_value vs)"
| "to_value (Object es) = Object (insert_all (map (map_prod id to_value) es))"

text \<open>A document in which no object has a key twice, and a \<open>Value\<close>, whose objects are ordered.\<close>

primrec json_ok :: "json \<Rightarrow> bool" where
  "json_ok Null \<longleftrightarrow> True"
| "json_ok (Bool b) \<longleftrightarrow> True"
| "json_ok (Number n) \<longleftrightarrow> True"
| "json_ok (String s) \<longleftrightarrow> True"
| "json_ok (Array vs) \<longleftrightarrow> list_all id (map json_ok vs)"
| "json_ok (Object es) \<longleftrightarrow> distinct (map fst es) \<and> list_all snd (map (map_prod id json_ok) es)"

primrec value_ok :: "json \<Rightarrow> bool" where
  "value_ok Null \<longleftrightarrow> True"
| "value_ok (Bool b) \<longleftrightarrow> True"
| "value_ok (Number n) \<longleftrightarrow> True"
| "value_ok (String s) \<longleftrightarrow> True"
| "value_ok (Array vs) \<longleftrightarrow> list_all id (map value_ok vs)"
| "value_ok (Object es) \<longleftrightarrow> sorted_wrt (<) (map fst es) \<and> list_all snd (map (map_prod id value_ok) es)"

definition object_ok :: "json_object \<Rightarrow> bool" where
  "object_ok es \<longleftrightarrow> sorted_wrt (<) (map fst es) \<and> (\<forall>e\<in>set es. value_ok (snd e))"

section \<open>Lemmas\<close>

lemma json_ok_simps [simp]:
  "json_ok (Array vs) \<longleftrightarrow> (\<forall>v\<in>set vs. json_ok v)"
  "json_ok (Object es) \<longleftrightarrow> distinct (map fst es) \<and> (\<forall>e\<in>set es. json_ok (snd e))"
  by (auto simp: list_all_iff)

lemma value_ok_simps [simp]:
  "value_ok (Array vs) \<longleftrightarrow> (\<forall>v\<in>set vs. value_ok v)"
  "value_ok (Object es) \<longleftrightarrow> object_ok es"
  by (auto simp: list_all_iff object_ok_def)

declare json_ok.simps(5,6) [simp del]
declare value_ok.simps(5,6) [simp del]

lemma sorted_keys_distinct: "sorted_wrt (<) (ks :: string list) \<Longrightarrow> distinct ks"
  by (induction ks) auto

lemma value_ok_json_ok: "value_ok v \<Longrightarrow> json_ok v"
  by (induction v) (auto simp: object_ok_def sorted_keys_distinct snds.simps prod_set_defs)

text \<open>Insertion: what is found afterwards, which entries there are, and the order kept.\<close>

lemma map_of_insert [simp]: "map_of (map_insert k v m) = (map_of m)(k \<mapsto> v)"
  by (induction m) auto

lemma keys_map_insert [simp]: "fst ` set (map_insert k v m) = insert k (fst ` set m)"
  by (induction k v m rule: map_insert.induct) (simp_all add: insert_commute)

lemma set_map_insert: "set (map_insert k v m) \<subseteq> insert (k, v) (set m)"
  by (induction k v m rule: map_insert.induct) (auto split: if_splits)

lemma sorted_map_insert: "sorted_wrt (<) (map fst m) \<Longrightarrow> sorted_wrt (<) (map fst (map_insert k v m))"
proof (induction k v m rule: map_insert.induct)
  case (2 k v k1 v1 m)
  have "\<forall>e\<in>set (map_insert k v m). k1 < fst e" if "k \<noteq> k1" "\<not> k < k1"
    using that 2(2) set_map_insert [of k v m] by (auto simp: not_less_iff_gr_or_eq)
  then show ?case using 2 by (auto intro: less_trans)
qed simp

lemma object_ok_insert: "object_ok m \<Longrightarrow> value_ok v \<Longrightarrow> object_ok (map_insert k v m)"
  using set_map_insert [of k v m] by (auto simp: object_ok_def sorted_map_insert)

lemma map_insert_last: "sorted_wrt (<) (map fst (m @ [(k, v)])) \<Longrightarrow> map_insert k v m = m @ [(k, v)]"
  by (induction m) (auto simp: sorted_wrt_append)

lemma insert_all_sorted [simp]:
  assumes "sorted_wrt (<) (map fst es)"
  shows "insert_all es = es"
proof -
  have "sorted_wrt (<) (map fst (m @ es)) \<Longrightarrow> foldl (\<lambda>m (k, v). map_insert k v m) m es = m @ es" for m
  proof (induction es arbitrary: m)
    case (Cons e es)
    obtain k v where e: "e = (k, v)" by fastforce
    have "map_insert k v m = m @ [(k, v)]"
      using Cons.prems by (intro map_insert_last) (simp add: e sorted_wrt_append)
    then show ?case using Cons.IH [of "m @ [(k, v)]"] Cons.prems by (simp add: e)
  qed simp
  from this [of "[]"] show ?thesis using assms by (simp add: insert_all_def)
qed

lemma object_ok_insert_all:
  assumes "\<forall>e\<in>set es. value_ok (snd e)"
  shows "object_ok (insert_all es)"
proof -
  have "object_ok m \<Longrightarrow> object_ok (foldl (\<lambda>m (k, v). map_insert k v m) m es)" for m
    using assms by (induction es arbitrary: m) (auto simp: object_ok_insert)
  from this [of "[]"] show ?thesis by (simp add: insert_all_def object_ok_def)
qed

lemma distinct_insert_all: "distinct (map fst (insert_all es))"
proof -
  have "sorted_wrt (<) (map fst m) \<Longrightarrow> sorted_wrt (<) (map fst (foldl (\<lambda>m (k, v). map_insert k v m) m es))" for m
    by (induction es arbitrary: m) (auto simp: sorted_map_insert)
  from this [of "[]"] show ?thesis by (simp add: insert_all_def sorted_keys_distinct)
qed

lemma map_of_insert_all: "map_of (insert_all es) = map_of (rev es)"
proof -
  have "map_of (foldl (\<lambda>m (k, v). map_insert k v m) m es) = map_of m ++ map_of (rev es)" for m
    by (induction es arbitrary: m) (auto simp: map_add_def fun_eq_iff split: option.splits)
  then show ?thesis by (simp add: insert_all_def)
qed

lemma set_insert_all:
  assumes "distinct (map fst es)"
  shows "set (insert_all es) = set es"
proof -
  have "distinct (map fst (rev es))" using assms by (simp add: rev_map [symmetric])
  then show ?thesis
    using map_of_inject_set [OF distinct_insert_all, of "rev es" es] by (simp add: map_of_insert_all)
qed

lemma to_value_ok [simp]: "value_ok v \<Longrightarrow> to_value v = v"
proof (induction v)
  case (Array vs)
  then show ?case by (simp add: map_idI)
next
  case (Object es)
  have "map (map_prod id to_value) es = es"
  proof (rule map_idI)
    fix e assume e: "e \<in> set es"
    then have "to_value (snd e) = snd e"
      using Object.IH [of e "snd e"] Object.prems by (auto simp: object_ok_def snds.simps prod_set_defs)
    then show "map_prod id to_value e = e" by (cases e) simp
  qed
  with Object.prems show ?case by (simp add: object_ok_def)
qed simp_all

lemma map_to_value_ok:
  assumes "\<forall>e\<in>set es. value_ok (snd e)"
  shows "map (map_prod id to_value) es = es"
proof (rule map_idI)
  fix e assume "e \<in> set es"
  then have "to_value (snd e) = snd e" using assms by simp
  then show "map_prod id to_value e = e" by (cases e) simp
qed

lemma value_ok_to_value [simp]: "value_ok (to_value v)"
proof (induction v)
  case (Object es)
  have "value_ok (snd e)" if "e \<in> set (map (map_prod id to_value) es)" for e
    using that Object.IH by (fastforce simp: prod_set_defs)
  then show ?case by (simp add: object_ok_insert_all)
qed simp_all

end
