(* ===== verification/Rpc_Types.thy ===== *)
theory Rpc_Types
  imports Json_Value
begin

text \<open>
  The data of \<open>src/client.rs\<close>: requests, single or batched, their hand-written
  deserializers and their serializers; errors and responses; the replies the proxy
  writes itself, in the shape and with the HTTP status of the request's JSON-RPC
  version.

  A deserializer is a function of the document it walks over to \<open>serde_error + 'a\<close>.
  The derived ones follow what \<open>serde\<close> documents for the attributes in the source:
  unknown fields are ignored, a repeated field is an error, \<open>default\<close> and
  \<open>deserialize_with\<close> as written. Rendering a document to bytes is the parameter
  \<open>to_vec\<close>, rendering an error to text the parameter \<open>show_serde\<close>.
\<close>

section \<open>Constants\<close>

definition MISC_ERROR_CODE :: i64 where "MISC_ERROR_CODE = -1"
definition METHOD_NOT_ALLOWED_ERROR_CODE :: i64 where "METHOD_NOT_ALLOWED_ERROR_CODE = -32604"
definition PARSE_ERROR_CODE :: i64 where "PARSE_ERROR_CODE = -32700"

definition METHOD_NOT_ALLOWED_ERROR_MESSAGE :: string where
  "METHOD_NOT_ALLOWED_ERROR_MESSAGE = ''Method not allowed''"

definition PRUNE_ERROR_MESSAGE :: string where
  "PRUNE_ERROR_MESSAGE = ''Block not available (pruned data)''"

text \<open>HTTP status codes, by the names of the \<open>http\<close> crate.\<close>

type_synonym status_code = u16

abbreviation OK :: status_code where "OK \<equiv> 200"
abbreviation NO_CONTENT :: status_code where "NO_CONTENT \<equiv> 204"
abbreviation UNAUTHORIZED :: status_code where "UNAUTHORIZED \<equiv> 401"
abbreviation FORBIDDEN :: status_code where "FORBIDDEN \<equiv> 403"
abbreviation NOT_FOUND :: status_code where "NOT_FOUND \<equiv> 404"
abbreviation METHOD_NOT_ALLOWED :: status_code where "METHOD_NOT_ALLOWED \<equiv> 405"
abbreviation INTERNAL_SERVER_ERROR :: status_code where "INTERNAL_SERVER_ERROR \<equiv> 500"

section \<open>Requests\<close>

datatype serde_error =
    MissingField string
  | DuplicateField string
  | InvalidType
  | InvalidLength nat
  | Syntax string

datatype generic_rpc_params = PArray "json list" | PObject json_object

record ('m, 'p) rpc_request =
  jsonrpc :: "json option"
  req_id :: "json option"
  rpc_method :: 'm
  params :: 'p

type_synonym generic_request = "(string, generic_rpc_params) rpc_request"

datatype single_or_batch = Single generic_request | Batch "generic_request list"

definition is_v2 :: "('m, 'p) rpc_request \<Rightarrow> bool" where
  "is_v2 req \<longleftrightarrow> Option.bind (jsonrpc req) as_str = Some ''2.0''"

definition is_notification :: "('m, 'p) rpc_request \<Rightarrow> bool" where
  "is_notification req \<longleftrightarrow> req_id req = None \<and> is_v2 req"

subsection \<open>Serializers\<close>

fun ser_params :: "generic_rpc_params \<Rightarrow> json" where
  "ser_params (PArray s) = Array s"
| "ser_params (PObject b) = Object b"

text \<open>The derived serializer of \<open>RpcRequest\<close>: \<open>jsonrpc\<close> and \<open>id\<close> are skipped when absent.\<close>

definition ser_request_with ::
  "('m \<Rightarrow> json) \<Rightarrow> ('p \<Rightarrow> json) \<Rightarrow> ('m, 'p) rpc_request \<Rightarrow> json" where
  "ser_request_with ser_m ser_p req = Object (
     (case jsonrpc req of None \<Rightarrow> [] | Some v \<Rightarrow> [(''jsonrpc'', v)]) @
     (case req_id req of None \<Rightarrow> [] | Some v \<Rightarrow> [(''id'', v)]) @
     [(''method'', ser_m (rpc_method req)), (''params'', ser_p (params req))])"

definition ser_request :: "generic_request \<Rightarrow> json" where
  "ser_request = ser_request_with String ser_params"

fun ser_single_or_batch :: "single_or_batch \<Rightarrow> json" where
  "ser_single_or_batch (Single s) = ser_request s"
| "ser_single_or_batch (Batch b) = Array (map ser_request b)"

subsection \<open>Deserializers\<close>

fun de_string :: "json \<Rightarrow> serde_error + string" where
  "de_string (String s) = Inr s"
| "de_string _ = Inl InvalidType"

fun de_option :: "(json \<Rightarrow> serde_error + 'a) \<Rightarrow> json \<Rightarrow> serde_error + 'a option" where
  "de_option de v = (if v = Null then Inr None else map_sum id Some (de v))"

definition de_value :: "json \<Rightarrow> serde_error + json" where
  "de_value v = Inr (to_value v)"

text \<open>\<open>present\<close>: a null \<open>id\<close> is kept apart from a missing one.\<close>

definition present :: "json \<Rightarrow> serde_error + json option" where
  "present v = map_sum id Some (de_value v)"

fun de_params :: "json \<Rightarrow> serde_error + generic_rpc_params" where
  "de_params (Array vs) = Inr (PArray (map to_value vs))"
| "de_params (Object es) = Inr (PObject (insert_all (map (map_prod id to_value) es)))"
| "de_params _ = Inl InvalidType"

text \<open>The local variables of \<open>visit_map\<close>, and of the derived deserializer.\<close>

record partial_request =
  p_jsonrpc :: "json option"
  p_id :: "json option"
  p_method :: "string option"
  p_params :: "generic_rpc_params option"

definition partial_empty :: partial_request where
  "partial_empty = \<lparr>p_jsonrpc = None, p_id = None, p_method = None, p_params = None\<rparr>"

definition finish_request :: "partial_request \<Rightarrow> serde_error + generic_request" where
  "finish_request p =
     (case p_method p of
        None \<Rightarrow> Inl (MissingField ''method'')
      | Some m \<Rightarrow>
          (case p_params p of
             None \<Rightarrow> Inl (MissingField ''params'')
           | Some ps \<Rightarrow> Inr \<lparr>jsonrpc = p_jsonrpc p, req_id = p_id p, rpc_method = m, params = ps\<rparr>))"

text \<open>
  The loop of the hand-written \<open>visit_map\<close>: every field may be repeated, and the last
  occurrence is kept; \<open>jsonrpc\<close>, \<open>method\<close> and \<open>params\<close> are read as options, so a null
  is as good as absent.
\<close>

fun visit_map_loop :: "json_object \<Rightarrow> partial_request \<Rightarrow> serde_error + partial_request" where
  "visit_map_loop [] p = Inr p"
| "visit_map_loop ((key, v) # es) p =
     (if key = ''jsonrpc'' then
        (case de_option de_value v of
           Inl e \<Rightarrow> Inl e | Inr x \<Rightarrow> visit_map_loop es (p\<lparr>p_jsonrpc := x\<rparr>))
      else if key = ''id'' then
        (case de_value v of
           Inl e \<Rightarrow> Inl e | Inr x \<Rightarrow> visit_map_loop es (p\<lparr>p_id := Some x\<rparr>))
      else if key = ''method'' then
        (case de_option de_string v of
           Inl e \<Rightarrow> Inl e | Inr x \<Rightarrow> visit_map_loop es (p\<lparr>p_method := x\<rparr>))
      else if key = ''params'' then
        (case de_option de_params v of
           Inl e \<Rightarrow> Inl e | Inr x \<Rightarrow> visit_map_loop es (p\<lparr>p_params := x\<rparr>))
      else visit_map_loop es p)"

definition visit_map :: "json_object \<Rightarrow> serde_error + single_or_batch" where
  "visit_map es =
     (case visit_map_loop es partial_empty of
        Inl e \<Rightarrow> Inl e
      | Inr p \<Rightarrow> map_sum id Single (finish_request p))"

text \<open>
  The derived deserializer of \<open>RpcRequest<GenericRpcMethod>\<close>, used for the elements of
  a batch: a repeated field is an error, \<open>method\<close> and \<open>params\<close> may not be null. The
  set of fields seen is the first argument. A sequence gives the fields by position.
\<close>

fun derived_map_loop ::
  "string list \<Rightarrow> json_object \<Rightarrow> partial_request \<Rightarrow> serde_error + partial_request" where
  "derived_map_loop seen [] p = Inr p"
| "derived_map_loop seen ((key, v) # es) p =
     (if key \<notin> set [''jsonrpc'', ''id'', ''method'', ''params''] then derived_map_loop seen es p
      else if key \<in> set seen then Inl (DuplicateField key)
      else if key = ''jsonrpc'' then
        (case de_option de_value v of
           Inl e \<Rightarrow> Inl e | Inr x \<Rightarrow> derived_map_loop (key # seen) es (p\<lparr>p_jsonrpc := x\<rparr>))
      else if key = ''id'' then
        (case present v of
           Inl e \<Rightarrow> Inl e | Inr x \<Rightarrow> derived_map_loop (key # seen) es (p\<lparr>p_id := x\<rparr>))
      else if key = ''method'' then
        (case de_string v of
           Inl e \<Rightarrow> Inl e | Inr x \<Rightarrow> derived_map_loop (key # seen) es (p\<lparr>p_method := Some x\<rparr>))
      else
        (case de_params v of
           Inl e \<Rightarrow> Inl e | Inr x \<Rightarrow> derived_map_loop (key # seen) es (p\<lparr>p_params := Some x\<rparr>)))"

fun de_request :: "json \<Rightarrow> serde_error + generic_request" where
  "de_request (Object es) =
     (case derived_map_loop [] es partial_empty of Inl e \<Rightarrow> Inl e | Inr p \<Rightarrow> finish_request p)"
| "de_request (Array vs) =
     (case vs of
        j # i # m # rest \<Rightarrow>
          (case de_string m of
             Inl e \<Rightarrow> Inl e
           | Inr m' \<Rightarrow>
               (case rest of
                  [] \<Rightarrow> Inl (InvalidLength 3)
                | p # extra \<Rightarrow>
                    (case de_params p of
                       Inl e \<Rightarrow> Inl e
                     | Inr p' \<Rightarrow>
                         if extra \<noteq> [] then Inl (Syntax ''trailing characters'')
                         else Inr \<lparr>jsonrpc = (if j = Null then None else Some (to_value j)),
                                   req_id = Some (to_value i), rpc_method = m', params = p'\<rparr>)))
      | _ \<Rightarrow> Inl (InvalidLength 2))"
| "de_request _ = Inl InvalidType"

fun visit_seq :: "json list \<Rightarrow> generic_request list \<Rightarrow> serde_error + single_or_batch" where
  "visit_seq [] res = Inr (Batch res)"
| "visit_seq (v # vs) res =
     (case de_request v of Inl e \<Rightarrow> Inl e | Inr elem \<Rightarrow> visit_seq vs (res @ [elem]))"

fun de_single_or_batch :: "json \<Rightarrow> serde_error + single_or_batch" where
  "de_single_or_batch (Array vs) = visit_seq vs []"
| "de_single_or_batch (Object es) = visit_map es"
| "de_single_or_batch _ = Inl InvalidType"

section \<open>Errors and responses\<close>

record rpc_error =
  code :: i64
  message :: string
  status :: "status_code option"

record 'r rpc_response =
  resp_id :: "json option"
  error :: "rpc_error option"
  result :: "'r option"

text \<open>An \<open>anyhow::Error\<close> is what \<open>format!("{:#}", e)\<close> renders of it.\<close>

type_synonym anyhow_error = string

definition rpc_error_of_anyhow :: "anyhow_error \<Rightarrow> rpc_error" where
  "rpc_error_of_anyhow e = \<lparr>code = MISC_ERROR_CODE, message = e, status = None\<rparr>"

definition rpc_error_of_serde :: "(serde_error \<Rightarrow> string) \<Rightarrow> serde_error \<Rightarrow> rpc_error" where
  "rpc_error_of_serde show_serde e = \<lparr>code = PARSE_ERROR_CODE, message = show_serde e, status = None\<rparr>"

definition response_of_error :: "rpc_error \<Rightarrow> 'r rpc_response" where
  "response_of_error e = \<lparr>resp_id = None, error = Some e, result = None\<rparr>"

text \<open>
  \<open>into_result\<close>: with neither an error nor a result, the response type is read from
  \<open>null\<close>; \<open>from_null\<close> is what that reading gives.
\<close>

definition into_result ::
  "(serde_error \<Rightarrow> string) \<Rightarrow> (serde_error + 'r) \<Rightarrow> 'r rpc_response \<Rightarrow> rpc_error + 'r" where
  "into_result show_serde from_null res =
     (case error res of
        Some e \<Rightarrow> Inl e
      | None \<Rightarrow>
          (case result res of
             Some r \<Rightarrow> Inr r
           | None \<Rightarrow> map_sum (\<lambda>e. rpc_error_of_anyhow (show_serde e)) id from_null))"

section \<open>Replies\<close>

datatype header_value = HeaderText string | HeaderLen usize

record http_response =
  resp_status :: status_code
  resp_headers :: "(string \<times> header_value) list"
  resp_body :: bytes

abbreviation CONTENT_LENGTH :: string where "CONTENT_LENGTH \<equiv> ''content-length''"

definition ser_error :: "rpc_error \<Rightarrow> json" where
  "ser_error e = Object [(''code'', json_i64 (code e)), (''message'', String (message e))]"

definition ser_response :: "json rpc_response \<Rightarrow> json" where
  "ser_response res = Object [(''id'', json_option (\<lambda>v. v) (resp_id res)),
     (''error'', json_option ser_error (error res)),
     (''result'', json_option (\<lambda>v. v) (result res))]"

definition json_reply :: "(json \<Rightarrow> serde_error + bytes) \<Rightarrow> (serde_error \<Rightarrow> string) \<Rightarrow>
    status_code \<Rightarrow> json \<Rightarrow> anyhow_error + http_response" where
  "json_reply to_vec show_serde st v =
     (case to_vec v of
        Inl e \<Rightarrow> Inl (show_serde e)
      | Inr body \<Rightarrow> Inr \<lparr>resp_status = st,
          resp_headers = [(CONTENT_LENGTH, HeaderLen (word_of_nat (length body)))],
          resp_body = body\<rparr>)"

definition into_response :: "(json \<Rightarrow> serde_error + bytes) \<Rightarrow> (serde_error \<Rightarrow> string) \<Rightarrow>
    json rpc_response \<Rightarrow> anyhow_error + http_response" where
  "into_response to_vec show_serde res =
     json_reply to_vec show_serde
       (case Option.bind (error res) status of
          Some s \<Rightarrow> s
        | None \<Rightarrow> if error res \<noteq> None then INTERNAL_SERVER_ERROR else OK)
       (ser_response res)"

definition into_reply :: "json rpc_response \<Rightarrow> generic_request \<Rightarrow> json" where
  "into_reply res req =
     (let i = (case req_id req of None \<Rightarrow> Null | Some v \<Rightarrow> v) in
      if \<not> is_v2 req then
        Object (insert_all [(''id'', i), (''error'', json_option ser_error (error res)),
          (''result'', json_option (\<lambda>v. v) (result res))])
      else case error res of
        Some e \<Rightarrow> Object (insert_all [(''jsonrpc'', String ''2.0''), (''error'', ser_error e), (''id'', i)])
      | None \<Rightarrow> Object (insert_all [(''jsonrpc'', String ''2.0''),
          (''result'', json_option (\<lambda>v. v) (result res)), (''id'', i)]))"

definition no_content :: http_response where
  "no_content = \<lparr>resp_status = NO_CONTENT, resp_headers = [], resp_body = []\<rparr>"

definition into_response_to :: "(json \<Rightarrow> serde_error + bytes) \<Rightarrow> (serde_error \<Rightarrow> string) \<Rightarrow>
    json rpc_response \<Rightarrow> generic_request \<Rightarrow> anyhow_error + http_response" where
  "into_response_to to_vec show_serde res req =
     (case Option.bind (error res) status of
        Some s \<Rightarrow> json_reply to_vec show_serde s (into_reply res req)
      | None \<Rightarrow>
          if is_notification req then Inr no_content
          else json_reply to_vec show_serde
            (if error res \<noteq> None \<and> \<not> is_v2 req then INTERNAL_SERVER_ERROR else OK)
            (into_reply res req))"

section \<open>Library lemmas\<close>

text \<open>What every deserialized request satisfies, and what a round trip needs.\<close>

fun params_ok :: "generic_rpc_params \<Rightarrow> bool" where
  "params_ok (PArray vs) \<longleftrightarrow> (\<forall>v\<in>set vs. value_ok v)"
| "params_ok (PObject es) \<longleftrightarrow> object_ok es"

definition request_ok :: "generic_request \<Rightarrow> bool" where
  "request_ok req \<longleftrightarrow> jsonrpc req \<noteq> Some Null \<and> pred_option value_ok (jsonrpc req) \<and>
     pred_option value_ok (req_id req) \<and> params_ok (params req)"

fun requests_ok :: "single_or_batch \<Rightarrow> bool" where
  "requests_ok (Single r) \<longleftrightarrow> request_ok r"
| "requests_ok (Batch rs) \<longleftrightarrow> (\<forall>r\<in>set rs. request_ok r)"

definition partial_ok :: "partial_request \<Rightarrow> bool" where
  "partial_ok p \<longleftrightarrow> p_jsonrpc p \<noteq> Some Null \<and> pred_option value_ok (p_jsonrpc p) \<and>
     pred_option value_ok (p_id p) \<and> pred_option params_ok (p_params p)"

lemma to_value_Null_iff [simp]: "to_value v = Null \<longleftrightarrow> v = Null"
  by (cases v) simp_all

lemma de_params_ok: "de_params v = Inr p \<Longrightarrow> params_ok p"
  using value_ok_to_value [of v] by (cases v) auto

lemma de_ser_params: "params_ok p \<Longrightarrow> de_params (ser_params p) = Inr p"
  by (cases p) (auto simp: map_to_value_ok object_ok_def intro: map_idI)

lemma ser_params_neq_Null [simp]: "ser_params p \<noteq> Null"
  by (cases p) simp_all

lemma finish_request_ok: "partial_ok p \<Longrightarrow> finish_request p = Inr r \<Longrightarrow> request_ok r"
  by (auto simp: partial_ok_def finish_request_def request_ok_def split: option.splits)

lemma visit_map_loop_ok: "visit_map_loop es p = Inr q \<Longrightarrow> partial_ok p \<Longrightarrow> partial_ok q"
  by (induction es p rule: visit_map_loop.induct)
     (auto simp: de_value_def partial_ok_def map_sum_def split: if_splits sum.splits
       dest: de_params_ok)

lemma derived_map_loop_ok: "derived_map_loop seen es p = Inr q \<Longrightarrow> partial_ok p \<Longrightarrow> partial_ok q"
  by (induction seen es p rule: derived_map_loop.induct)
     (auto simp: de_value_def present_def partial_ok_def map_sum_def split: if_splits sum.splits
       dest: de_params_ok)

lemma partial_ok_empty [simp]: "partial_ok partial_empty"
  by (simp add: partial_ok_def partial_empty_def)

lemma de_request_ok: "de_request v = Inr r \<Longrightarrow> request_ok r"
proof (cases v)
  case (Array vs)
  assume "de_request v = Inr r"
  with Array show ?thesis
    by (auto simp: request_ok_def split: list.splits sum.splits if_splits dest: de_params_ok)
qed (auto split: sum.splits dest: derived_map_loop_ok finish_request_ok)

lemma visit_seq_ok:
  "visit_seq vs res = Inr r \<Longrightarrow> \<forall>q\<in>set res. request_ok q \<Longrightarrow> requests_ok r"
proof (induction vs arbitrary: res)
  case (Cons v vs)
  then show ?case by (auto split: sum.splits dest: de_request_ok)
qed auto

lemma de_single_or_batch_ok: "de_single_or_batch v = Inr r \<Longrightarrow> requests_ok r"
proof (cases v)
  case (Object es)
  assume "de_single_or_batch v = Inr r"
  with Object obtain p q where p: "visit_map_loop es partial_empty = Inr p"
    and q: "finish_request p = Inr q" and r: "r = Single q"
    by (auto simp: visit_map_def map_sum_def split: sum.splits)
  from p have "partial_ok p" by (rule visit_map_loop_ok) simp
  then have "request_ok q" using q by (rule finish_request_ok)
  then show ?thesis by (simp add: r)
qed (auto dest: visit_seq_ok)

lemma de_ser_request:
  assumes "request_ok r"
  shows "de_request (ser_request r) = Inr r"
    and "visit_map (case ser_request r of Object es \<Rightarrow> es | _ \<Rightarrow> []) = Inr (Single r)"
proof -
  obtain j i m p where r: "r = \<lparr>jsonrpc = j, req_id = i, rpc_method = m, params = p\<rparr>"
    by (cases r) auto
  show "de_request (ser_request r) = Inr r"
    using assms
    by (cases j; cases i)
       (auto simp: r request_ok_def ser_request_def ser_request_with_def de_ser_params de_value_def
         present_def finish_request_def partial_empty_def)
  show "visit_map (case ser_request r of Object es \<Rightarrow> es | _ \<Rightarrow> []) = Inr (Single r)"
    using assms
    by (cases j; cases i)
       (auto simp: r request_ok_def ser_request_def ser_request_with_def de_ser_params de_value_def
         visit_map_def finish_request_def partial_empty_def)
qed

lemma visit_seq_ser:
  "\<forall>r\<in>set rs. request_ok r \<Longrightarrow> visit_seq (map ser_request rs) res = Inr (Batch (res @ rs))"
  by (induction rs arbitrary: res) (simp_all add: de_ser_request)

lemma de_ser_single_or_batch: "requests_ok r \<Longrightarrow> de_single_or_batch (ser_single_or_batch r) = Inr r"
proof (cases r)
  case (Single q)
  assume "requests_ok r"
  with Single de_ser_request(2) [of q] show ?thesis
    by (simp add: ser_request_def ser_request_with_def)
qed (simp add: visit_seq_ser)

lemma ser_request_json_ok: "request_ok r \<Longrightarrow> json_ok (ser_request r)"
proof -
  have p: "params_ok p \<Longrightarrow> json_ok (ser_params p)" for p
    by (rule value_ok_json_ok) (cases p; simp)
  show "request_ok r \<Longrightarrow> ?thesis"
    using p [of "params r"]
    by (cases "jsonrpc r"; cases "req_id r")
      (auto simp: request_ok_def ser_request_def ser_request_with_def value_ok_json_ok)
qed

section \<open>Properties\<close>

text \<open>
  C24: a request is forwarded as it was understood. Whatever document a client sent,
  single or batched, the document the proxy writes for bitcoind reads back as the very
  same request: the version, a null id kept apart from a missing one, the method and the
  parameters.
\<close>

theorem forwarded_request_reads_back:
  assumes "de_single_or_batch doc = Inr r"
  shows "de_single_or_batch (ser_single_or_batch r) = Inr r"
  using de_single_or_batch_ok [OF assms] by (rule de_ser_single_or_batch)

theorem forwarded_request_reads_back_witness:
  "de_single_or_batch (ser_single_or_batch (Batch [
     \<lparr>jsonrpc = Some (String ''2.0''), req_id = Some Null, rpc_method = ''m'', params = PArray []\<rparr>])) =
   Inr (Batch [
     \<lparr>jsonrpc = Some (String ''2.0''), req_id = Some Null, rpc_method = ''m'', params = PArray []\<rparr>])"
  by (rule forwarded_request_reads_back [where doc = "Array [Object [(''id'', Null),
        (''params'', Array []), (''x'', Bool True), (''method'', String ''m''),
        (''jsonrpc'', String ''2.0'')]]"])
     (simp add: partial_empty_def present_def de_value_def finish_request_def)

text \<open>
  C25: a reply the proxy writes takes the shape of its request. Its members are distinct,
  it echoes the id (null when the request had none), a 2.0 reply carries the version and
  exactly one of \<open>result\<close> and \<open>error\<close>, a 1.0 reply carries both and no version; and on
  the wire a call that failed for a reason of its own is a 200 in 2.0 and a 500 in 1.0, a
  refusal keeps its own status, and an answered notification is an empty 204.
\<close>

theorem reply_follows_version:
  "\<exists>ms. into_reply res req = Object ms \<and> distinct (map fst ms) \<and>
     map_of ms ''id'' = Some (case req_id req of None \<Rightarrow> Null | Some v \<Rightarrow> v) \<and>
     (if is_v2 req
      then map_of ms ''jsonrpc'' = Some (String ''2.0'') \<and>
           map_of ms ''error'' = map_option ser_error (error res) \<and>
           (map_of ms ''result'' = None) \<noteq> (map_of ms ''error'' = None)
      else map_of ms ''jsonrpc'' = None \<and> map_of ms ''error'' \<noteq> None \<and> map_of ms ''result'' \<noteq> None) \<and>
     into_response_to to_vec show_serde res req =
       (if Option.bind (error res) status = None \<and> is_notification req then Inr no_content
        else json_reply to_vec show_serde
          (case Option.bind (error res) status of
             Some s \<Rightarrow> s
           | None \<Rightarrow> if error res = None \<or> is_v2 req then OK else INTERNAL_SERVER_ERROR)
          (Object ms))"
  by (cases "error res")
    (auto simp: into_reply_def into_response_to_def Let_def map_of_insert_all distinct_insert_all split: option.splits)

text \<open>
  C26: what the rest of the proxy may rely on in a request. A document that is accepted, one
  request or a batch, gives requests whose version is never a null, whose id, version and
  parameters are values, every object in them in the order of its keys, and which are written
  back as a document with no key twice: an object of \<open>method\<close> and \<open>params\<close>, with \<open>jsonrpc\<close> and \<open>id\<close> exactly if they were
  given.
\<close>

theorem accepted_requests_are_well_typed:
  assumes "de_single_or_batch doc = Inr r"
  shows "requests_ok r \<and> json_ok (ser_single_or_batch r) \<and>
    (\<forall>q. r = Single q \<or> (\<exists>qs. r = Batch qs \<and> q \<in> set qs) \<longrightarrow>
       (\<exists>es. ser_request q = Object es \<and> map_of es ''method'' = Some (String (rpc_method q)) \<and>
          map_of es ''params'' = Some (ser_params (params q)) \<and> map_of es ''jsonrpc'' = jsonrpc q \<and>
          map_of es ''id'' = req_id q))"
proof -
  have ok: "requests_ok r" using assms by (rule de_single_or_batch_ok)
  moreover have "json_ok (ser_single_or_batch r)"
    using ok ser_request_json_ok by (cases r) auto
  moreover have "\<exists>es. ser_request q = Object es \<and> map_of es ''method'' = Some (String (rpc_method q)) \<and>
      map_of es ''params'' = Some (ser_params (params q)) \<and> map_of es ''jsonrpc'' = jsonrpc q \<and>
      map_of es ''id'' = req_id q" for q
    by (cases "jsonrpc q"; cases "req_id q") (simp_all add: ser_request_def ser_request_with_def)
  ultimately show ?thesis by blast
qed

theorem accepted_requests_are_well_typed_witness:
  "requests_ok (Single \<lparr>jsonrpc = None, req_id = Some Null, rpc_method = ''m'', params = PArray []\<rparr>)"
proof -
  have "de_single_or_batch (Object [(''id'', Null), (''method'', String ''m''), (''params'', Array [])]) =
      Inr (Single \<lparr>jsonrpc = None, req_id = Some Null, rpc_method = ''m'', params = PArray []\<rparr>)"
    by (simp add: visit_map_def partial_empty_def de_value_def finish_request_def)
  from accepted_requests_are_well_typed [OF this] show ?thesis by blast
qed

end
