(* ===== verification/Rpc_Methods.thy ===== *)
theory Rpc_Methods
  imports Rpc_Types
begin

text \<open>
  \<open>src/rpc_methods.rs\<close> and \<open>src/util.rs\<close>: the methods the proxy calls itself, their
  parameters and results, with the serializers and deserializers that \<open>serde\<close> derives
  from the structs and their attributes, and the hand-written ones. Hexadecimal, the text
  form of a hash and the conversion of a JSON number to \<open>f64\<close> are functions of other
  crates: the fields of \<open>text_lib\<close>. An \<open>f64\<close> is its bit pattern.
\<close>

section \<open>Helpers\<close>

record text_lib =
  hex_encode :: "bytes \<Rightarrow> string"
  hex_decode :: "string \<Rightarrow> bytes option"
  show_hash :: "hash \<Rightarrow> string"
  parse_hash :: "string \<Rightarrow> hash option"
  f64_of :: "number \<Rightarrow> u64"

text \<open>
  What the crates document: hexadecimal reads back, a hash that was read has a text form that
  reads back, and a float is itself. Of byte strings at large the second says nothing: only those
  of the length of a hash have such a text form (\<open>hash_text\<close>).
\<close>

definition hash_text :: "text_lib \<Rightarrow> hash \<Rightarrow> bool" where
  "hash_text T h \<longleftrightarrow> parse_hash T (show_hash T h) = Some h"

definition text_lib_ok :: "text_lib \<Rightarrow> bool" where
  "text_lib_ok T \<longleftrightarrow> (\<forall>b. hex_decode T (hex_encode T b) = Some b) \<and>
     (\<forall>s h. parse_hash T s = Some h \<longrightarrow> hash_text T h) \<and> (\<forall>b. f64_of T (Float b) = b)"

subsection \<open>\<open>Either\<close>\<close>

datatype ('l, 'r) either = Left 'l | Right 'r

fun as_left :: "('l, 'r) either \<Rightarrow> 'l option" where
  "as_left (Left a) = Some a"
| "as_left (Right b) = None"

fun as_right :: "('l, 'r) either \<Rightarrow> 'r option" where
  "as_right (Right a) = Some a"
| "as_right (Left b) = None"

fun into_left :: "('l, 'r) either \<Rightarrow> 'l option" where
  "into_left (Left a) = Some a"
| "into_left (Right b) = None"

fun into_right :: "('l, 'r) either \<Rightarrow> 'r option" where
  "into_right (Right a) = Some a"
| "into_right (Left b) = None"

text \<open>The untagged enum: the first variant that reads, and the value bare when written.\<close>

definition de_either :: "(json \<Rightarrow> serde_error + 'l) \<Rightarrow> (json \<Rightarrow> serde_error + 'r) \<Rightarrow>
    json \<Rightarrow> serde_error + ('l, 'r) either" where
  "de_either dl dr v =
     (case dl v of Inr a \<Rightarrow> Inr (Left a) | Inl _ \<Rightarrow> (case dr v of Inr b \<Rightarrow> Inr (Right b) | Inl _ \<Rightarrow> Inl InvalidType))"

fun ser_either :: "('l \<Rightarrow> json) \<Rightarrow> ('r \<Rightarrow> json) \<Rightarrow> ('l, 'r) either \<Rightarrow> json" where
  "ser_either sl sr (Left a) = sl a"
| "ser_either sl sr (Right b) = sr b"

subsection \<open>Scalars\<close>

definition ser_hex :: "text_lib \<Rightarrow> bytes \<Rightarrow> json" where
  "ser_hex T b = String (hex_encode T b)"

definition de_hex :: "text_lib \<Rightarrow> json \<Rightarrow> serde_error + bytes" where
  "de_hex T v = and_then (de_string v)
     (\<lambda>s. case hex_decode T s of Some b \<Rightarrow> Inr b | None \<Rightarrow> Inl InvalidType)"

definition ser_hash :: "text_lib \<Rightarrow> hash \<Rightarrow> json" where
  "ser_hash T h = String (show_hash T h)"

definition de_hash :: "text_lib \<Rightarrow> json \<Rightarrow> serde_error + hash" where
  "de_hash T v = and_then (de_string v)
     (\<lambda>s. case parse_hash T s of Some h \<Rightarrow> Inr h | None \<Rightarrow> Inl InvalidType)"

fun de_bool :: "json \<Rightarrow> serde_error + bool" where
  "de_bool (Bool b) = Inr b"
| "de_bool _ = Inl InvalidType"

fun de_u64 :: "json \<Rightarrow> serde_error + u64" where
  "de_u64 (Number (PosInt n)) = Inr n"
| "de_u64 _ = Inl InvalidType"

fun de_u32 :: "json \<Rightarrow> serde_error + u32" where
  "de_u32 (Number (PosInt n)) = (if n < 2 ^ 32 then Inr (ucast n) else Inl InvalidType)"
| "de_u32 _ = Inl InvalidType"

fun de_i64 :: "json \<Rightarrow> serde_error + i64" where
  "de_i64 (Number (PosInt n)) = (if n < 2 ^ 63 then Inr n else Inl InvalidType)"
| "de_i64 (Number (NegInt n)) = Inr n"
| "de_i64 _ = Inl InvalidType"

fun de_i32 :: "json \<Rightarrow> serde_error + i32" where
  "de_i32 (Number (PosInt n)) = (if n < 2 ^ 31 then Inr (ucast n) else Inl InvalidType)"
| "de_i32 (Number (NegInt n)) = (if - (2 ^ 31) \<le> sint n then Inr (ucast n) else Inl InvalidType)"
| "de_i32 _ = Inl InvalidType"

fun de_f64 :: "text_lib \<Rightarrow> json \<Rightarrow> serde_error + u64" where
  "de_f64 T (Number n) = Inr (f64_of T n)"
| "de_f64 T _ = Inl InvalidType"

definition json_i32 :: "i32 \<Rightarrow> json" where
  "json_i32 n = json_i64 (scast n)"

subsection \<open>Derived struct fields\<close>

definition field :: "string \<Rightarrow> json_object \<Rightarrow> serde_error + json option" where
  "field k es =
     (case filter (\<lambda>e. fst e = k) es of
        [] \<Rightarrow> Inr None
      | [e] \<Rightarrow> Inr (Some (snd e))
      | _ \<Rightarrow> Inl (DuplicateField k))"

definition required :: "(json \<Rightarrow> serde_error + 'a) \<Rightarrow> string \<Rightarrow> json_object \<Rightarrow> serde_error + 'a" where
  "required de k es =
     and_then (field k es) (\<lambda>v. case v of None \<Rightarrow> Inl (MissingField k) | Some v \<Rightarrow> de v)"

definition optional :: "(json \<Rightarrow> serde_error + 'a) \<Rightarrow> string \<Rightarrow> json_object \<Rightarrow> serde_error + 'a option" where
  "optional de k es =
     and_then (field k es) (\<lambda>v. case v of None \<Rightarrow> Inr None | Some v \<Rightarrow> de_option de v)"

text \<open>
  A derived struct also reads from an array, its fields in the order of the declaration
  and all of them present; one with a flattened field reads from an object only.
\<close>

fun de_struct :: "string list \<Rightarrow> (json_object \<Rightarrow> serde_error + 'a) \<Rightarrow> json \<Rightarrow> serde_error + 'a" where
  "de_struct names f (Object es) = f es"
| "de_struct names f (Array vs) =
     (if length vs = length names then f (zip names vs) else Inl (InvalidLength (length vs)))"
| "de_struct names f _ = Inl InvalidType"

fun de_flattened :: "(json_object \<Rightarrow> serde_error + 'a) \<Rightarrow> json \<Rightarrow> serde_error + 'a" where
  "de_flattened f (Object es) = f es"
| "de_flattened f _ = Inl InvalidType"

section \<open>Methods\<close>

datatype own_method =
    GetBlock
  | GetBlockHeader
  | GetPeerInfo
  | GetRawTransaction
  | DecodeRawTransaction
  | GetBlockchainInfo

fun method_str :: "own_method \<Rightarrow> string" where
  "method_str GetBlock = ''getblock''"
| "method_str GetBlockHeader = ''getblockheader''"
| "method_str GetPeerInfo = ''getpeerinfo''"
| "method_str GetRawTransaction = ''getrawtransaction''"
| "method_str DecodeRawTransaction = ''decoderawtransaction''"
| "method_str GetBlockchainInfo = ''getblockchaininfo''"

definition ser_method :: "own_method \<Rightarrow> json" where
  "ser_method m = String (method_str m)"

definition de_method :: "own_method \<Rightarrow> json \<Rightarrow> serde_error + own_method" where
  "de_method m v = and_then (de_string v) (\<lambda>s. if s = method_str m then Inr m else Inl InvalidType)"

text \<open>
  Parameters: a tuple struct is written as an array, without its absent members; a
  one-element tuple is an array of one, and \<open>[(); 0]\<close> the empty array.
\<close>

definition ser_skip :: "('a \<Rightarrow> json) \<Rightarrow> 'a option \<Rightarrow> json list" where
  "ser_skip f x = (case x of None \<Rightarrow> [] | Some y \<Rightarrow> [f y])"

definition get_block_params :: "text_lib \<Rightarrow> blockhash \<Rightarrow> u8 option \<Rightarrow> json" where
  "get_block_params T h verbosity = Array (ser_hash T h # ser_skip (\<lambda>n. json_u64 (ucast n)) verbosity)"

definition get_block_header_params :: "text_lib \<Rightarrow> blockhash \<Rightarrow> bool option \<Rightarrow> json" where
  "get_block_header_params T h verbose = Array (ser_hash T h # ser_skip Bool verbose)"

definition get_raw_transaction_params :: "text_lib \<Rightarrow> txid \<Rightarrow> json option \<Rightarrow> blockhash option \<Rightarrow> json" where
  "get_raw_transaction_params T t verbose h =
     Array (ser_hash T t # ser_skip (\<lambda>v. v) verbose @ ser_skip (ser_hash T) h)"

definition decode_raw_transaction_params :: "string \<Rightarrow> json" where
  "decode_raw_transaction_params hex = Array [String hex]"

definition no_params :: json where
  "no_params = Array []"

text \<open>The requests the proxy builds for itself carry neither version nor id.\<close>

definition own_request :: "own_method \<Rightarrow> json \<Rightarrow> json" where
  "own_request m ps =
     ser_request_with ser_method (\<lambda>v. v) \<lparr>jsonrpc = None, req_id = None, rpc_method = m, params = ps\<rparr>"

section \<open>Results\<close>

record block_header_result =
  bh_hash :: hash
  confirmations :: i32
  height :: usize
  version :: i32
  version_hex :: "bytes option"
  merkleroot :: hash
  time :: usize
  mediantime :: "usize option"
  nonce :: u32
  bits :: string
  difficulty :: u64
  chainwork :: bytes
  n_tx :: usize
  previousblockhash :: "hash option"
  nextblockhash :: "hash option"

record get_block_result =
  gb_header :: block_header_result
  gb_size :: usize
  gb_strippedsize :: "usize option"
  gb_weight :: usize
  gb_tx :: "txid list"

definition header_members :: "text_lib \<Rightarrow> block_header_result \<Rightarrow> json_object" where
  "header_members T h =
     [(''hash'', ser_hash T (bh_hash h)),
      (''confirmations'', json_i32 (confirmations h)),
      (''height'', json_u64 (height h)),
      (''version'', json_i32 (version h)),
      (''versionHex'', json_option (ser_hex T) (version_hex h)),
      (''merkleroot'', ser_hash T (merkleroot h)),
      (''time'', json_u64 (time h)),
      (''mediantime'', json_option json_u64 (mediantime h)),
      (''nonce'', json_u64 (ucast (nonce h))),
      (''bits'', String (bits h)),
      (''difficulty'', Number (Float (difficulty h))),
      (''chainwork'', ser_hex T (chainwork h)),
      (''nTx'', json_u64 (n_tx h)),
      (''previousblockhash'', json_option (ser_hash T) (previousblockhash h)),
      (''nextblockhash'', json_option (ser_hash T) (nextblockhash h))]"

definition ser_header :: "text_lib \<Rightarrow> block_header_result \<Rightarrow> json" where
  "ser_header T h = Object (header_members T h)"

definition ser_get_block_result :: "text_lib \<Rightarrow> get_block_result \<Rightarrow> json" where
  "ser_get_block_result T r = Object (header_members T (gb_header r) @
     [(''size'', json_u64 (gb_size r)),
      (''strippedsize'', json_option json_u64 (gb_strippedsize r)),
      (''weight'', json_u64 (gb_weight r)),
      (''tx'', Array (map (ser_hash T) (gb_tx r)))])"

definition de_header_fields :: "text_lib \<Rightarrow> json_object \<Rightarrow> serde_error + block_header_result" where
  "de_header_fields T es =
     and_then (required (de_hash T) ''hash'' es) (\<lambda>x1.
     and_then (required de_i32 ''confirmations'' es) (\<lambda>x2.
     and_then (required de_u64 ''height'' es) (\<lambda>x3.
     and_then (required de_i32 ''version'' es) (\<lambda>x4.
     and_then (optional (de_hex T) ''versionHex'' es) (\<lambda>x5.
     and_then (required (de_hash T) ''merkleroot'' es) (\<lambda>x6.
     and_then (required de_u64 ''time'' es) (\<lambda>x7.
     and_then (optional de_u64 ''mediantime'' es) (\<lambda>x8.
     and_then (required de_u32 ''nonce'' es) (\<lambda>x9.
     and_then (required de_string ''bits'' es) (\<lambda>x10.
     and_then (required (de_f64 T) ''difficulty'' es) (\<lambda>x11.
     and_then (required (de_hex T) ''chainwork'' es) (\<lambda>x12.
     and_then (required de_u64 ''nTx'' es) (\<lambda>x13.
     and_then (optional (de_hash T) ''previousblockhash'' es) (\<lambda>x14.
     and_then (optional (de_hash T) ''nextblockhash'' es) (\<lambda>x15.
     Inr \<lparr>bh_hash = x1, confirmations = x2, height = x3, version = x4, version_hex = x5,
         merkleroot = x6, time = x7, mediantime = x8, nonce = x9, bits = x10, difficulty = x11,
         chainwork = x12, n_tx = x13, previousblockhash = x14, nextblockhash = x15\<rparr>)))))))))))))))"

definition header_fields :: "string list" where
  "header_fields = [''hash'', ''confirmations'', ''height'', ''version'', ''versionHex'', ''merkleroot'',
     ''time'', ''mediantime'', ''nonce'', ''bits'', ''difficulty'', ''chainwork'', ''nTx'',
     ''previousblockhash'', ''nextblockhash'']"

definition de_header :: "text_lib \<Rightarrow> json \<Rightarrow> serde_error + block_header_result" where
  "de_header T = de_struct header_fields (de_header_fields T)"

fun de_all :: "(json \<Rightarrow> serde_error + 'a) \<Rightarrow> json list \<Rightarrow> serde_error + 'a list" where
  "de_all de [] = Inr []"
| "de_all de (v # vs) = and_then (de v) (\<lambda>x. and_then (de_all de vs) (\<lambda>xs. Inr (x # xs)))"

fun de_list :: "(json \<Rightarrow> serde_error + 'a) \<Rightarrow> json \<Rightarrow> serde_error + 'a list" where
  "de_list de (Array vs) = de_all de vs"
| "de_list de _ = Inl InvalidType"

definition de_get_block_result :: "text_lib \<Rightarrow> json \<Rightarrow> serde_error + get_block_result" where
  "de_get_block_result T = de_flattened (\<lambda>es.
     and_then (required de_u64 ''size'' es) (\<lambda>x1.
     and_then (optional de_u64 ''strippedsize'' es) (\<lambda>x2.
     and_then (required de_u64 ''weight'' es) (\<lambda>x3.
     and_then (required (de_list (de_hash T)) ''tx'' es) (\<lambda>x4.
     and_then (de_header_fields T es) (\<lambda>h.
     Inr \<lparr>gb_header = h, gb_size = x1, gb_strippedsize = x2, gb_weight = x3, gb_tx = x4\<rparr>))))))"

text \<open>Only the fields the proxy selects on are named; every other key is ignored.\<close>

record peer_info =
  pi_addr :: string
  servicesnames :: "string fset"
  inbound :: bool

definition de_peer_info :: "json \<Rightarrow> serde_error + peer_info" where
  "de_peer_info = de_struct [''addr'', ''servicesnames'', ''inbound''] (\<lambda>es.
     and_then (required de_string ''addr'' es) (\<lambda>a.
     and_then (required (de_list de_string) ''servicesnames'' es) (\<lambda>s.
     and_then (required de_bool ''inbound'' es) (\<lambda>i.
     Inr \<lparr>pi_addr = a, servicesnames = fset_of_list s, inbound = i\<rparr>))))"

record blockchain_info =
  chain :: string
  signet_challenge :: "bytes option"

definition de_blockchain_info :: "text_lib \<Rightarrow> json \<Rightarrow> serde_error + blockchain_info" where
  "de_blockchain_info T = de_struct [''chain'', ''signet_challenge''] (\<lambda>es.
     and_then (required de_string ''chain'' es) (\<lambda>c.
     and_then (optional (de_hex T) ''signet_challenge'' es) (\<lambda>sc.
     Inr \<lparr>chain = c, signet_challenge = sc\<rparr>)))"

text \<open>The derived deserializers of \<open>RpcError\<close> and \<open>RpcResponse\<close> in \<open>client.rs\<close>.\<close>

definition de_rpc_error :: "json \<Rightarrow> serde_error + rpc_error" where
  "de_rpc_error = de_struct [''code'', ''message''] (\<lambda>es.
     and_then (required de_i64 ''code'' es) (\<lambda>c.
     and_then (required de_string ''message'' es) (\<lambda>m.
     Inr \<lparr>code = c, message = m, status = None\<rparr>)))"

definition de_response :: "(json \<Rightarrow> serde_error + 'r) \<Rightarrow> json \<Rightarrow> serde_error + 'r rpc_response" where
  "de_response de = de_struct [''id'', ''error'', ''result''] (\<lambda>es.
     and_then (optional de_value ''id'' es) (\<lambda>i.
     and_then (optional de_rpc_error ''error'' es) (\<lambda>e.
     and_then (optional de ''result'' es) (\<lambda>r.
     Inr \<lparr>resp_id = i, error = e, result = r\<rparr>))))"

section \<open>Library lemmas\<close>

lemma uint_of_sint: "0 \<le> sint (w :: i64) \<Longrightarrow> uint w = sint w"
proof -
  assume "0 \<le> sint w"
  moreover have "sint w < 2 ^ 63" using sint_less [of w] by simp
  ultimately have "take_bit 64 (sint w) = sint w" by (simp add: take_bit_int_eq_self)
  moreover have "uint w = take_bit 64 (sint w)" by (simp add: uint_sint)
  ultimately show ?thesis by simp
qed

lemma sint_scast_i32: "sint (scast (n :: i32) :: i64) = sint n"
  using sint_ge [of n] sint_less [of n] by (simp add: signed_scast_eq signed_take_bit_int_eq_self)

lemma ucast_scast_i32: "ucast (scast (n :: i32) :: i64) = n"
  by (rule bit_word_eqI) (simp add: bit_unsigned_iff bit_signed_iff)

lemma ucast_ucast_u32: "ucast (ucast (n :: u32) :: u64) = n"
  by (rule bit_word_eqI) (simp add: bit_unsigned_iff)

lemma ucast_u32_less: "(ucast (n :: u32) :: u64) < 4294967296"
  using unsigned_less [where w = n and 'a = int] by (simp add: word_less_def uint_up_ucast is_up)

lemma de_json_i32 [simp]: "de_i32 (json_i32 n) = Inr n"
proof (cases "0 \<le> sint n")
  case True
  then have "uint (scast n :: i64) = sint n"
    using uint_of_sint [of "scast n"] by (simp add: sint_scast_i32)
  then have "(scast n :: i64) < 2 ^ 31"
    using sint_less [of n] by (simp add: word_less_def)
  then show ?thesis
    using True by (simp add: json_i32_def json_i64_def word_sle_eq sint_scast_i32 ucast_scast_i32)
next
  case False
  then show ?thesis
    using sint_ge [of n]
    by (simp add: json_i32_def json_i64_def word_sle_eq sint_scast_i32 ucast_scast_i32)
qed

lemma de_json_scalars [simp]:
  "de_u64 (json_u64 n) = Inr n"
  "de_u32 (json_u64 (ucast m)) = Inr m"
  by (simp_all add: json_u64_def ucast_ucast_u32 ucast_u32_less)

lemma json_scalars_neq_Null [simp]:
  "json_u64 n \<noteq> Null" "ser_hash T h \<noteq> Null" "ser_hex T b \<noteq> Null"
  by (simp_all add: json_u64_def ser_hash_def ser_hex_def)

lemma text_lib_reads_back:
  assumes "text_lib_ok T"
  shows "de_hex T (ser_hex T b) = Inr b" and "de_f64 T (Number (Float x)) = Inr x"
  using assms by (simp_all add: text_lib_ok_def de_hex_def ser_hex_def)

lemma hash_reads_back: "hash_text T h \<Longrightarrow> de_hash T (ser_hash T h) = Inr h"
  by (simp add: hash_text_def de_hash_def ser_hash_def)

lemma read_hash_text: "text_lib_ok T \<Longrightarrow> de_hash T v = Inr h \<Longrightarrow> hash_text T h"
  by (cases v) (auto simp: text_lib_ok_def de_hash_def split: option.splits)

lemma de_json_option [simp]:
  "de (ser x) = Inr x \<Longrightarrow> ser x \<noteq> Null \<Longrightarrow> de_option de (json_option ser (Some x)) = Inr (Some x)"
  "de_option de (json_option ser None) = Inr None"
  by simp_all

lemma de_option_json_option:
  "(\<And>x. de (ser x) = Inr x) \<Longrightarrow> (\<And>x. ser x \<noteq> Null) \<Longrightarrow> de_option de (json_option ser y) = Inr y"
  by (cases y) simp_all

lemma de_all_map: "(\<And>x. x \<in> set xs \<Longrightarrow> de (ser x) = Inr x) \<Longrightarrow> de_all de (map ser xs) = Inr xs"
  by (induction xs) simp_all

lemma field_distinct: "distinct (map fst es) \<Longrightarrow> field k es = Inr (map_of es k)"
proof (induction es)
  case (Cons e es)
  have "filter (\<lambda>e. fst e = k) es = []" if "k \<notin> fst ` set es"
    using that by (auto simp: filter_empty_conv)
  with Cons show ?case by (cases e) (auto simp: field_def)
qed (simp add: field_def)

lemma field_member: "distinct (map fst es) \<Longrightarrow> (k, v) \<in> set es \<Longrightarrow> field k es = Inr (Some v)"
  by (simp add: field_distinct)

lemma required_member:
  "distinct (map fst es) \<Longrightarrow> (k, v) \<in> set es \<Longrightarrow> de v = Inr x \<Longrightarrow> required de k es = Inr x"
  by (simp add: required_def field_member)

lemma optional_member:
  "distinct (map fst es) \<Longrightarrow> (k, json_option ser y) \<in> set es \<Longrightarrow>
   (\<And>x. y = Some x \<Longrightarrow> de (ser x) = Inr x) \<Longrightarrow> (\<And>x. ser x \<noteq> Null) \<Longrightarrow> optional de k es = Inr y"
  by (cases y) (simp_all add: optional_def field_member)

lemma field_ignores: "k \<noteq> k' \<Longrightarrow> field k (xs @ (k', v) # ys) = field k (xs @ ys)"
  by (simp add: field_def)

section \<open>Properties\<close>

text \<open>The hashes of a header that was read have a text form.\<close>

definition header_ok :: "text_lib \<Rightarrow> block_header_result \<Rightarrow> bool" where
  "header_ok T h \<longleftrightarrow> hash_text T (bh_hash h) \<and> hash_text T (merkleroot h) \<and>
     pred_option (hash_text T) (previousblockhash h) \<and> pred_option (hash_text T) (nextblockhash h)"

lemma required_Inr: "required de k es = Inr x \<Longrightarrow> \<exists>v. de v = Inr x"
  by (auto simp: required_def split: sum.splits option.splits)

lemma de_option_Inr_Some: "de_option de v = Inr (Some x) \<Longrightarrow> de v = Inr x"
  by (cases "de v"; cases v) simp_all

lemma optional_Inr: "optional de k es = Inr (Some x) \<Longrightarrow> \<exists>v. de v = Inr x"
  unfolding optional_def and_then_Inr_iff
  by (auto split: option.splits dest: de_option_Inr_Some simp del: de_option.simps)

lemma de_response_result: "de_response de v = Inr res \<Longrightarrow> result res = Some x \<Longrightarrow> \<exists>w. de w = Inr x"
  by (cases v) (auto simp: de_response_def split: if_splits dest: optional_Inr)

lemma map_sum_InrE: "map_sum f id r = Inr x \<Longrightarrow> (r = Inr x \<Longrightarrow> P) \<Longrightarrow> P"
  by (cases r) simp_all

lemma de_header_fields_ok:
  assumes T: "text_lib_ok T" and h: "de_header_fields T es = Inr h"
  shows "header_ok T h"
proof -
  have read: "required (de_hash T) ''hash'' es = Inr (bh_hash h)" "required (de_hash T) ''merkleroot'' es = Inr (merkleroot h)"
    "optional (de_hash T) ''previousblockhash'' es = Inr (previousblockhash h)"
    "optional (de_hash T) ''nextblockhash'' es = Inr (nextblockhash h)"
    using h by (auto simp: de_header_fields_def and_then_Inr_iff)
  have "hash_text T (bh_hash h)" "hash_text T (merkleroot h)"
    using required_Inr [OF read(1)] required_Inr [OF read(2)] read_hash_text [OF T] by blast+
  moreover have "hash_text T x" if "previousblockhash h = Some x \<or> nextblockhash h = Some x" for x
    using that read(3,4) optional_Inr [of "de_hash T" _ es x] read_hash_text [OF T] by metis
  ultimately show ?thesis by (cases "previousblockhash h"; cases "nextblockhash h") (auto simp: header_ok_def)
qed

lemma de_header_ok: "text_lib_ok T \<Longrightarrow> de_header T v = Inr h \<Longrightarrow> header_ok T h"
  by (cases v) (auto simp: de_header_def split: if_splits intro: de_header_fields_ok)

lemma de_header_fields_members:
  assumes T: "text_lib_ok T" and h: "header_ok T h" and d: "distinct (map fst es)"
    and sub: "set (header_members T h) \<subseteq> set es"
  shows "de_header_fields T es = Inr h"
proof -
  note reads = text_lib_reads_back [OF T] hash_reads_back
  have hs: "hash_text T (bh_hash h)" "hash_text T (merkleroot h)"
    "\<And>x. previousblockhash h = Some x \<Longrightarrow> hash_text T x" "\<And>x. nextblockhash h = Some x \<Longrightarrow> hash_text T x"
    using h by (auto simp: header_ok_def)
  have m: "(k, v) \<in> set es" if "(k, v) \<in> set (header_members T h)" for k v
    using that sub by blast
  note r = required_member [OF d m] and p = optional_member [OF d m]
  note ins = header_members_def list.set insert_iff prod.inject
  have "required (de_hash T) ''hash'' es = Inr (bh_hash h)"
    by (rule r [where v = "ser_hash T (bh_hash h)"]) (simp_all only: ins reads hs simp_thms)
  moreover have "required de_i32 ''confirmations'' es = Inr (confirmations h)"
    by (rule r [where v = "json_i32 (confirmations h)"]) (simp_all only: ins de_json_i32 simp_thms)
  moreover have "required de_u64 ''height'' es = Inr (height h)"
    by (rule r [where v = "json_u64 (height h)"]) (simp_all only: ins de_json_scalars simp_thms)
  moreover have "required de_i32 ''version'' es = Inr (version h)"
    by (rule r [where v = "json_i32 (version h)"]) (simp_all only: ins de_json_i32 simp_thms)
  moreover have "optional (de_hex T) ''versionHex'' es = Inr (version_hex h)"
    by (rule p [where ser = "ser_hex T"])
      (simp_all only: ins reads json_scalars_neq_Null not_False_eq_True simp_thms)
  moreover have "required (de_hash T) ''merkleroot'' es = Inr (merkleroot h)"
    by (rule r [where v = "ser_hash T (merkleroot h)"]) (simp_all only: ins reads hs simp_thms)
  moreover have "required de_u64 ''time'' es = Inr (time h)"
    by (rule r [where v = "json_u64 (time h)"]) (simp_all only: ins de_json_scalars simp_thms)
  moreover have "optional de_u64 ''mediantime'' es = Inr (mediantime h)"
    by (rule p [where ser = json_u64])
      (simp_all only: ins de_json_scalars json_scalars_neq_Null simp_thms)
  moreover have "required de_u32 ''nonce'' es = Inr (nonce h)"
    by (rule r [where v = "json_u64 (ucast (nonce h))"]) (simp_all only: ins de_json_scalars simp_thms)
  moreover have "required de_string ''bits'' es = Inr (bits h)"
    by (rule r [where v = "String (bits h)"]) (simp_all only: ins de_string.simps simp_thms)
  moreover have "required (de_f64 T) ''difficulty'' es = Inr (difficulty h)"
    by (rule r [where v = "Number (Float (difficulty h))"]) (simp_all only: ins reads simp_thms)
  moreover have "required (de_hex T) ''chainwork'' es = Inr (chainwork h)"
    by (rule r [where v = "ser_hex T (chainwork h)"]) (simp_all only: ins reads simp_thms)
  moreover have "required de_u64 ''nTx'' es = Inr (n_tx h)"
    by (rule r [where v = "json_u64 (n_tx h)"]) (simp_all only: ins de_json_scalars simp_thms)
  moreover have "optional (de_hash T) ''previousblockhash'' es = Inr (previousblockhash h)"
    by (rule p [where ser = "ser_hash T"]) (simp_all only: ins reads hs json_scalars_neq_Null simp_thms)
  moreover have "optional (de_hash T) ''nextblockhash'' es = Inr (nextblockhash h)"
    by (rule p [where ser = "ser_hash T"]) (simp_all only: ins reads hs json_scalars_neq_Null simp_thms)
  ultimately show ?thesis by (simp add: de_header_fields_def)
qed

lemma value_ok_scalars [simp]:
  "value_ok (ser_hash T h)" "value_ok (ser_hex T b)" "value_ok (json_u64 n)" "value_ok (json_i32 i)"
  "value_ok (json_option ser x) \<longleftrightarrow> (\<forall>y. x = Some y \<longrightarrow> value_ok (ser y))"
  by (auto simp: ser_hash_def ser_hex_def json_u64_def json_i32_def json_i64_def split: option.splits)
    (cases x; simp)+

lemma header_reads_back: "text_lib_ok T \<Longrightarrow> header_ok T h \<Longrightarrow> de_header T (ser_header T h) = Inr h"
  unfolding de_header_def ser_header_def de_struct.simps
  by (rule de_header_fields_members) (simp_all add: header_members_def)

text \<open>
  What the proxy writes as the result of a verbose \<open>getblock\<close>, the header's members flattened
  into a \<open>Value\<close>, reads back: every width and sign survives, a negative number of
  confirmations included, and an absent member stays absent.
\<close>

lemma get_block_result_reads_back:
  assumes T: "text_lib_ok T" and h: "header_ok T (gb_header r)" and txs: "\<forall>t\<in>set (gb_tx r). hash_text T t"
  shows "de_get_block_result T (to_value (ser_get_block_result T r)) = Inr r"
proof -
  define tl where "tl = [(''size'', json_u64 (gb_size r)),
      (''strippedsize'', json_option json_u64 (gb_strippedsize r)),
      (''weight'', json_u64 (gb_weight r)), (''tx'', Array (map (ser_hash T) (gb_tx r)))]"
  define es where "es = insert_all (header_members T (gb_header r) @ tl)"
  have d: "distinct (map fst es)" unfolding es_def by (rule distinct_insert_all)
  have set_es: "set es = set (header_members T (gb_header r) @ tl)"
    unfolding es_def by (rule set_insert_all) (simp add: header_members_def tl_def)
  have m: "(k, v) \<in> set es" if "(k, v) \<in> set tl" for k v
    using that by (simp add: set_es)
  note ins = tl_def list.set insert_iff prod.inject
  have "required de_u64 ''size'' es = Inr (gb_size r)"
    by (rule required_member [OF d m, where v = "json_u64 (gb_size r)"]) (simp_all add: ins)
  moreover have "optional de_u64 ''strippedsize'' es = Inr (gb_strippedsize r)"
    by (rule optional_member [OF d m, where ser = json_u64]) (simp_all add: ins)
  moreover have "required de_u64 ''weight'' es = Inr (gb_weight r)"
    by (rule required_member [OF d m, where v = "json_u64 (gb_weight r)"]) (simp_all add: ins)
  moreover have "required (de_list (de_hash T)) ''tx'' es = Inr (gb_tx r)"
    by (rule required_member [OF d m, where v = "Array (map (ser_hash T) (gb_tx r))"])
      (simp_all add: ins de_all_map hash_reads_back txs)
  moreover have "de_header_fields T es = Inr (gb_header r)"
    by (rule de_header_fields_members [OF T h d]) (simp add: set_es)
  moreover have "to_value (ser_get_block_result T r) = Object es"
  proof -
    have "\<forall>e\<in>set (header_members T (gb_header r) @ tl). value_ok (snd e)"
      by (simp add: header_members_def tl_def)
    then have "map (map_prod id to_value) (header_members T (gb_header r) @ tl) = header_members T (gb_header r) @ tl"
      by (rule map_to_value_ok)
    then show ?thesis by (simp add: ser_get_block_result_def es_def tl_def comp_def)
  qed
  ultimately show ?thesis by (simp add: de_get_block_result_def)
qed

definition demo_text :: text_lib where
  "demo_text = \<lparr>hex_encode = map (\<lambda>b. char_of (unat b)), hex_decode = (\<lambda>s. Some (as_bytes s)),
     show_hash = map (\<lambda>b. char_of (unat b)), parse_hash = (\<lambda>s. Some (as_bytes s)),
     f64_of = (\<lambda>n. case n of PosInt b \<Rightarrow> b | NegInt b \<Rightarrow> b | Float b \<Rightarrow> b)\<rparr>"

lemma as_bytes_chars: "as_bytes (map (\<lambda>b. char_of (unat b)) bs) = bs"
proof (induction bs)
  case (Cons b bs)
  have "(of_char (char_of (unat b) :: char) :: u8) = word_of_nat (of_char (char_of (unat b) :: char))"
    by (simp only: of_nat_of_char)
  also have "(of_char (char_of (unat b) :: char) :: nat) = unat b"
    using unsigned_less [where w = b and 'a = nat] by (simp only: of_char_of) simp
  also have "(word_of_nat (unat b) :: u8) = b" by simp
  finally show ?case using Cons by (simp add: as_bytes_def)
qed simp

lemma demo_hash_text [simp]: "hash_text demo_text h"
  by (simp add: hash_text_def demo_text_def as_bytes_chars)

lemma demo_header_ok [simp]: "header_ok demo_text h"
  by (simp add: header_ok_def option.pred_set)

lemma demo_text_ok: "text_lib_ok demo_text"
  by (simp add: text_lib_ok_def) (simp add: demo_text_def as_bytes_chars)

lemma required_ignores: "k \<noteq> k' \<Longrightarrow> required de k (xs @ (k', v) # ys) = required de k (xs @ ys)"
  by (simp add: required_def field_ignores)

lemma optional_ignores: "k \<noteq> k' \<Longrightarrow> optional de k (xs @ (k', v) # ys) = optional de k (xs @ ys)"
  by (simp add: optional_def field_ignores)

text \<open>
  The reader of bitcoind's answers is tolerant. A key the proxy does not name, of any
  value and at any place, changes neither what a \<open>getpeerinfo\<close> entry nor what
  \<open>getblockchaininfo\<close> is read as, nor whether it is read at all.
\<close>

lemma unknown_keys_are_ignored:
  "(k \<notin> {''addr'', ''servicesnames'', ''inbound''} \<longrightarrow>
      de_peer_info (Object (xs @ (k, v) # ys)) = de_peer_info (Object (xs @ ys))) \<and>
   (k \<notin> {''chain'', ''signet_challenge''} \<longrightarrow>
      de_blockchain_info T (Object (xs @ (k, v) # ys)) = de_blockchain_info T (Object (xs @ ys)))"
  by (auto simp: de_peer_info_def de_blockchain_info_def required_ignores optional_ignores)

end
