(* ===== verification/Witness_Check.thy ===== *)
theory Witness_Check
  imports Proxy_Prelude
begin

text \<open>
  Blocks as the proxy looks at them, and the check of their witness data in
  \<open>src/fetch_blocks.rs\<close>. The structs are those of the \<open>bitcoin\<close> crate, with the fields
  the sources read or build; the crate's functions are the fields of \<open>bitcoin_lib\<close>:
  hashes, the merkle root, the serialization and the sizes.

  A witness commitment is the double hash of the merkle root's bytes followed by the
  reserved value; \<open>commitment_hash\<close> is that hash.
\<close>

section \<open>Blocks\<close>

record tx_in =
  previous_output :: "txid \<times> u32"
  script_sig :: bytes
  sequence :: u32
  witness :: "bytes list"

record tx_out =
  tx_value :: u64
  script_pubkey :: bytes

record transaction =
  tx_version :: i32
  lock_time :: u32
  tx_input :: "tx_in list"
  tx_output :: "tx_out list"

record block_header =
  hdr_version :: i32
  hdr_prev_blockhash :: blockhash
  hdr_merkle_root :: hash
  hdr_time :: u32
  hdr_bits :: u32
  hdr_nonce :: u32

record block =
  blk_header :: block_header
  txdata :: "transaction list"

record bitcoin_lib =
  block_hash :: "block \<Rightarrow> blockhash"
  check_merkle_root :: "block \<Rightarrow> bool"
  is_coin_base :: "transaction \<Rightarrow> bool"
  txid_of :: "transaction \<Rightarrow> txid"
  wtxid_of :: "transaction \<Rightarrow> hash"
  bitcoin_merkle_root :: "hash list \<Rightarrow> hash option"
  commitment_hash :: "bytes \<Rightarrow> hash"
  encode_block :: "block \<Rightarrow> string + bytes"
  decode_block :: "bytes \<Rightarrow> string + block"
  serialize_tx :: "transaction \<Rightarrow> bytes"
  block_size :: "block \<Rightarrow> usize"
  block_strippedsize :: "block \<Rightarrow> usize"
  block_weight :: "block \<Rightarrow> usize"
  varint :: "u64 \<Rightarrow> bytes"
  sha256d :: "bytes \<Rightarrow> bytes"

section \<open>The check\<close>

definition COMMITMENT_MAGIC :: bytes where
  "COMMITMENT_MAGIC = [0x6a, 0x24, 0xaa, 0x21, 0xa9, 0xed]"

definition ZERO_RESERVED :: bytes where
  "ZERO_RESERVED = replicate 32 0"

definition is_commitment :: "tx_out \<Rightarrow> bool" where
  "is_commitment out \<longleftrightarrow> 38 \<le> length (script_pubkey out) \<and> take 6 (script_pubkey out) = COMMITMENT_MAGIC"

text \<open>The leaves of the witness merkle tree: all zeros for the first, the wtxid of the others.\<close>

definition witness_leaves :: "bitcoin_lib \<Rightarrow> block \<Rightarrow> hash list" where
  "witness_leaves B blk =
     map (\<lambda>(i, t). if i = 0 then replicate 32 0 else wtxid_of B t) (enumerate 0 (txdata blk))"

definition reserved_of :: "bytes list \<Rightarrow> bytes option" where
  "reserved_of witness_vec =
     (case witness_vec of
        [] \<Rightarrow> Some ZERO_RESERVED
      | [w] \<Rightarrow> if length w = 32 then Some w else None
      | _ \<Rightarrow> None)"

text \<open>
  \<open>coinbase.input[0].witness\<close>. The crate's \<open>is_coin_base\<close> holds only of a transaction with
  exactly one input, so the index is in range; the first branch is never taken.
\<close>

definition first_witness :: "transaction \<Rightarrow> bytes list" where
  "first_witness cb = (case tx_input cb of [] \<Rightarrow> [] | i # _ \<Rightarrow> witness i)"

definition check_witness_commitment :: "bitcoin_lib \<Rightarrow> block \<Rightarrow> bool" where
  "check_witness_commitment B blk =
     (case txdata blk of
        [] \<Rightarrow> False
      | coinbase # _ \<Rightarrow>
          if \<not> is_coin_base B coinbase then False
          else
            (case rposition is_commitment (tx_output coinbase) of
               None \<Rightarrow> False
             | Some pos \<Rightarrow>
                 (case bitcoin_merkle_root B (witness_leaves B blk) of
                    None \<Rightarrow> False
                  | Some commitment \<Rightarrow>
                      (case reserved_of (first_witness coinbase) of
                         None \<Rightarrow> False
                       | Some reserved \<Rightarrow>
                           take 32 (drop 6 (script_pubkey (tx_output coinbase ! pos))) =
                             commitment_hash B (commitment @ reserved)))))"

definition commits :: "block \<Rightarrow> bool" where
  "commits blk \<longleftrightarrow> (case txdata blk of [] \<Rightarrow> False | coinbase # _ \<Rightarrow> list_ex is_commitment (tx_output coinbase))"

definition has_witness :: "transaction \<Rightarrow> bool" where
  "has_witness t \<longleftrightarrow> list_ex (\<lambda>i. witness i \<noteq> []) (tx_input t)"

definition check_witnesses :: "bitcoin_lib \<Rightarrow> block \<Rightarrow> bool" where
  "check_witnesses B blk =
     (if \<not> commits blk then \<not> list_ex has_witness (txdata blk)
      else check_witness_commitment B blk)"

section \<open>Specification\<close>

text \<open>
  What a block's commitment is: the last output of the coinbase that has the shape of one,
  as BIP141 says; and what it is compared with, the root of the leaves with the salt.
\<close>

definition committed_value :: "block \<Rightarrow> bytes \<Rightarrow> bool" where
  "committed_value blk c \<longleftrightarrow>
     (\<exists>cb rest before out after. txdata blk = cb # rest \<and> tx_output cb = before @ out # after \<and>
        is_commitment out \<and> (\<forall>x\<in>set after. \<not> is_commitment x) \<and> c = take 32 (drop 6 (script_pubkey out)))"

definition salted_root :: "bitcoin_lib \<Rightarrow> block \<Rightarrow> bytes option" where
  "salted_root B blk =
     Option.bind (bitcoin_merkle_root B (witness_leaves B blk)) (\<lambda>r.
     map_option (\<lambda>salt. r @ salt) (reserved_of (first_witness (hd (txdata blk)))))"

text \<open>The block with its witness data taken out: what the stripped serialization carries.\<close>

definition strip_tx :: "transaction \<Rightarrow> transaction" where
  "strip_tx t = t\<lparr>tx_input := map (\<lambda>i. i\<lparr>witness := []\<rparr>) (tx_input t)\<rparr>"

definition strip_block :: "block \<Rightarrow> block" where
  "strip_block blk = blk\<lparr>txdata := map strip_tx (txdata blk)\<rparr>"

text \<open>No two different inputs to a hash among those of the two blocks collide.\<close>

definition no_collision :: "bitcoin_lib \<Rightarrow> block \<Rightarrow> block \<Rightarrow> bool" where
  "no_collision B b b' \<longleftrightarrow>
     (\<forall>x y. salted_root B b = Some x \<longrightarrow> salted_root B b' = Some y \<longrightarrow>
        commitment_hash B x = commitment_hash B y \<longrightarrow> x = y) \<and>
     (bitcoin_merkle_root B (witness_leaves B b) = bitcoin_merkle_root B (witness_leaves B b') \<longrightarrow>
        witness_leaves B b = witness_leaves B b') \<and>
     (\<forall>t\<in>set (txdata b). \<forall>t'\<in>set (txdata b'). wtxid_of B t = wtxid_of B t' \<longrightarrow> t = t')"

section \<open>Library lemmas\<close>

lemma length_reserved: "reserved_of ws = Some r \<Longrightarrow> length r = 32"
  by (auto simp: reserved_of_def ZERO_RESERVED_def split: list.splits if_splits)

lemma commits_iff: "commits blk \<longleftrightarrow> (\<exists>c. committed_value blk c)"
proof
  assume "commits blk"
  then obtain cb rest where tx: "txdata blk = cb # rest" and ex: "\<exists>x\<in>set (tx_output cb). is_commitment x"
    by (auto simp: commits_def list_ex_iff split: list.splits)
  from split_list_last_prop [OF ex] tx show "\<exists>c. committed_value blk c"
    unfolding committed_value_def by blast
qed (auto simp: committed_value_def commits_def list_ex_iff)

lemma committed_value_rposition:
  assumes "txdata blk = cb # rest" and pos: "rposition is_commitment (tx_output cb) = Some pos"
  shows "committed_value blk c \<longleftrightarrow> c = take 32 (drop 6 (script_pubkey (tx_output cb ! pos)))"
proof -
  note last = rposition_SomeD [OF pos]
  have "length before = pos"
    if "tx_output cb = before @ out # after" "is_commitment out" "\<forall>x\<in>set after. \<not> is_commitment x"
    for before out after
  proof (rule linorder_cases [of "length before" pos])
    assume "length before < pos"
    then have "tx_output cb ! pos \<in> set after"
      using that(1) last by (auto simp: nth_append nth_Cons split: nat.splits)
    with that(3) last show ?thesis by blast
  next
    assume "pos < length before"
    moreover have "tx_output cb ! length before = out" using that(1) by simp
    moreover have "length before < length (tx_output cb)" using that(1) by simp
    ultimately show ?thesis using last that(2) by fastforce
  qed
  then have "c = take 32 (drop 6 (script_pubkey (tx_output cb ! pos)))" if "committed_value blk c"
    using that assms(1) unfolding committed_value_def by (metis list.inject nth_append_length)
  moreover have "\<not> is_commitment x" if "x \<in> set (drop (Suc pos) (tx_output cb))" for x
    using that last by (auto simp: in_set_conv_nth)
  then have "committed_value blk (take 32 (drop 6 (script_pubkey (tx_output cb ! pos))))"
    unfolding committed_value_def
    using assms(1) last id_take_nth_drop [of pos "tx_output cb"] by blast
  ultimately show ?thesis by blast
qed

lemma commitment_iff:
  "check_witness_commitment B blk \<longleftrightarrow>
     (\<exists>cb rest c x. txdata blk = cb # rest \<and> is_coin_base B cb \<and> committed_value blk c \<and>
        salted_root B blk = Some x \<and> c = commitment_hash B x)"
proof (cases "txdata blk")
  case Nil
  then show ?thesis by (simp add: check_witness_commitment_def)
next
  case (Cons cb rest)
  show ?thesis
  proof (cases "rposition is_commitment (tx_output cb)")
    case None
    then have "\<not> commits blk"
      using Cons by (simp add: rposition_None_iff commits_def list_ex_iff)
    then show ?thesis
      using Cons None by (auto simp: check_witness_commitment_def commits_iff)
  next
    case (Some pos)
    then show ?thesis
      using Cons committed_value_rposition [OF Cons Some]
      by (auto simp: check_witness_commitment_def salted_root_def split: option.splits)
  qed
qed

lemma strip_same_outputs:
  "strip_block b = strip_block b' \<Longrightarrow> map tx_output (txdata b) = map tx_output (txdata b')"
proof -
  assume "strip_block b = strip_block b'"
  then have "map tx_output (map strip_tx (txdata b)) = map tx_output (map strip_tx (txdata b'))"
    by (metis block.select_convs(2) block.surjective block.update_convs(2) strip_block_def)
  then show ?thesis by (simp add: strip_tx_def comp_def)
qed

lemma committed_value_cong:
  "map tx_output (txdata b) = map tx_output (txdata b') \<Longrightarrow> committed_value b c \<Longrightarrow> committed_value b' c"
  unfolding committed_value_def
  by (cases "txdata b'") (auto, metis)

lemma committed_value_unique:
  assumes "committed_value b c" and "committed_value b c'"
  shows "c = c'"
proof -
  obtain cb rest where tx: "txdata b = cb # rest" using assms(1) by (auto simp: committed_value_def)
  have "commits b" using assms(1) commits_iff by blast
  then obtain pos where "rposition is_commitment (tx_output cb) = Some pos"
    using tx by (cases "rposition is_commitment (tx_output cb)")
      (auto simp: commits_def list_ex_iff rposition_None_iff)
  from committed_value_rposition [OF tx this] assms show ?thesis by simp
qed

lemma map_enumerate_Suc:
  "map (\<lambda>(i, x). if i = 0 then z else f x) (enumerate (Suc n) xs) = map f xs"
  by (induction xs arbitrary: n) auto

lemma witness_leaves_Cons:
  "txdata b = cb # rest \<Longrightarrow> witness_leaves B b = replicate 32 0 # map (wtxid_of B) rest"
  by (simp add: witness_leaves_def map_enumerate_Suc del: replicate.simps)

lemma wtxids_equal:
  "map f xs = map f ys \<Longrightarrow> \<forall>t\<in>set xs. \<forall>t'\<in>set ys. f t = f t' \<longrightarrow> t = t' \<Longrightarrow> xs = ys"
  by (induction xs arbitrary: ys) auto

lemma salted_root_parts:
  assumes "salted_root B b = Some x"
  obtains r salt where "bitcoin_merkle_root B (witness_leaves B b) = Some r"
    and "reserved_of (first_witness (hd (txdata b))) = Some salt" and "x = r @ salt" and "length salt = 32"
  using assms length_reserved unfolding salted_root_def by (auto split: option.splits simp: bind_eq_Some_conv)

text \<open>Two accepted blocks that differ in witness data only carry the same witness data.\<close>

lemma accepted_same_witnesses:
  assumes acc: "check_witness_commitment B b" "check_witness_commitment B b'"
    and strip: "strip_block b = strip_block b'" and nc: "no_collision B b b'"
  shows "tl (txdata b) = tl (txdata b') \<and>
    reserved_of (first_witness (hd (txdata b))) = reserved_of (first_witness (hd (txdata b')))"
proof -
  from acc(1) obtain cb rest x where b: "txdata b = cb # rest" "committed_value b (commitment_hash B x)"
    "salted_root B b = Some x" by (auto simp: commitment_iff)
  from acc(2) obtain cb' rest' x' where b': "txdata b' = cb' # rest'"
    "committed_value b' (commitment_hash B x')" "salted_root B b' = Some x'" by (auto simp: commitment_iff)
  have "commitment_hash B x = commitment_hash B x'"
    using committed_value_cong [OF strip_same_outputs [OF strip] b(2)] b'(2) by (rule committed_value_unique)
  with nc b(3) b'(3) have "x = x'" unfolding no_collision_def by blast
  obtain r salt where r: "bitcoin_merkle_root B (witness_leaves B b) = Some r"
    "reserved_of (first_witness (hd (txdata b))) = Some salt" "x = r @ salt" "length salt = 32"
    using b(3) by (rule salted_root_parts)
  obtain r' salt' where r': "bitcoin_merkle_root B (witness_leaves B b') = Some r'"
    "reserved_of (first_witness (hd (txdata b'))) = Some salt'" "x' = r' @ salt'" "length salt' = 32"
    using b'(3) by (rule salted_root_parts)
  have same: "r = r'" "salt = salt'" using r(3,4) r'(3,4) \<open>x = x'\<close> by auto
  then have "witness_leaves B b = witness_leaves B b'"
    using nc r(1) r'(1) unfolding no_collision_def by simp
  then have "map (wtxid_of B) rest = map (wtxid_of B) rest'"
    by (simp add: witness_leaves_Cons [OF b(1)] witness_leaves_Cons [OF b'(1)])
  moreover have "\<forall>t\<in>set rest. \<forall>t'\<in>set rest'. wtxid_of B t = wtxid_of B t' \<longrightarrow> t = t'"
    using nc b(1) b'(1) unfolding no_collision_def by simp
  ultimately have "rest = rest'" by (rule wtxids_equal)
  then show ?thesis using b(1) b'(1) r(2) r'(2) same by simp
qed

section \<open>Properties\<close>

text \<open>
  C19: the witness check accepts exactly the blocks whose witness data is accounted for. A
  block with no commitment is accepted when no input carries a witness; one whose coinbase
  has a commitment when the first transaction is a coinbase and the value of its last
  commitment output is the hash of the root of its own wtxids with the reserved value,
  32 zero bytes where the coinbase carries none.
\<close>

theorem check_witnesses_iff:
  "check_witnesses B blk \<longleftrightarrow>
     (if \<exists>c. committed_value blk c
      then \<exists>cb rest c x. txdata blk = cb # rest \<and> is_coin_base B cb \<and> committed_value blk c \<and>
             salted_root B blk = Some x \<and> c = commitment_hash B x
      else \<forall>t\<in>set (txdata blk). \<forall>i\<in>set (tx_input t). witness i = [])"
  unfolding check_witnesses_def commits_iff commitment_iff
  by (auto simp: list_ex_iff has_witness_def)

text \<open>
  C9: a peer cannot alter committed witness data. If two blocks that agree in everything but
  witness data are both accepted, and one of them commits, they carry the same transactions
  after the coinbase and the same reserved value, unless two of their hashes collide; in
  particular, the block a stripping peer returns is refused as soon as a transaction after
  the coinbase carried a witness.
\<close>

theorem committed_witnesses_are_authentic:
  assumes "check_witnesses B b" and "commits b"
  shows "(check_witnesses B b' \<longrightarrow> strip_block b = strip_block b' \<longrightarrow> no_collision B b b' \<longrightarrow>
            tl (txdata b) = tl (txdata b') \<and>
            reserved_of (first_witness (hd (txdata b))) = reserved_of (first_witness (hd (txdata b')))) \<and>
         ((\<exists>t\<in>set (tl (txdata b)). has_witness t) \<longrightarrow> no_collision B b (strip_block b) \<longrightarrow>
            \<not> check_witnesses B (strip_block b))"
proof -
  have strip_tx2: "strip_tx (strip_tx t) = strip_tx t" for t
    by (simp add: strip_tx_def comp_def)
  have strip2: "strip_block (strip_block b) = strip_block b"
    by (simp add: strip_block_def strip_tx2 comp_def)
  have acc: "check_witness_commitment B b" using assms by (simp add: check_witnesses_def)
  have acc': "check_witness_commitment B q" if "check_witnesses B q" "strip_block b = strip_block q" for q
  proof -
    have "commits q"
      using assms(2) committed_value_cong [OF strip_same_outputs [OF that(2)]] commits_iff by blast
    then show ?thesis using that(1) by (simp add: check_witnesses_def)
  qed
  have no_wit: "\<not> has_witness t" if "t \<in> set (tl (txdata (strip_block b)))" for t
    using that by (auto simp: strip_block_def strip_tx_def has_witness_def list_ex_iff map_tl [symmetric])
  show ?thesis
    using accepted_same_witnesses [OF acc acc'] accepted_same_witnesses [OF acc acc' [OF _ strip2 [symmetric]] strip2 [symmetric]]
      no_wit by metis
qed

text \<open>
  A concrete library, its hashes short enough to evaluate, and a block of a coinbase and one
  spending transaction that commits to the witness \<open>7\<close> with the zero reserved value.
\<close>

definition demo_header :: block_header where
  "demo_header = \<lparr>hdr_version = 1, hdr_prev_blockhash = [], hdr_merkle_root = [], hdr_time = 0,
     hdr_bits = 0, hdr_nonce = 9\<rparr>"

definition demo_coinbase :: "bytes list \<Rightarrow> transaction" where
  "demo_coinbase wit = \<lparr>tx_version = 1, lock_time = 0,
     tx_input = [\<lparr>previous_output = ([], 0), script_sig = [0x51], sequence = 0, witness = wit\<rparr>],
     tx_output = [\<lparr>tx_value = 0, script_pubkey = COMMITMENT_MAGIC @ 7 # replicate 31 0\<rparr>]\<rparr>"

definition demo_spend :: "bytes list \<Rightarrow> transaction" where
  "demo_spend wit = \<lparr>tx_version = 2, lock_time = 0,
     tx_input = [\<lparr>previous_output = ([1], 0), script_sig = [], sequence = 0, witness = wit\<rparr>],
     tx_output = [\<lparr>tx_value = 1, script_pubkey = [0x51]\<rparr>]\<rparr>"

definition demo_block :: block where
  "demo_block = \<lparr>blk_header = demo_header, txdata = [demo_coinbase [ZERO_RESERVED], demo_spend [[7]]]\<rparr>"

definition demo_btc :: bitcoin_lib where
  "demo_btc = \<lparr>block_hash = (\<lambda>b. [ucast (hdr_nonce (blk_header b))]), check_merkle_root = (\<lambda>b. True),
     is_coin_base = (\<lambda>t. tx_version t = 1), txid_of = (\<lambda>t. [ucast (tx_version t)]),
     wtxid_of = (\<lambda>t. concat (concat (map witness (tx_input t)))),
     bitcoin_merkle_root = (\<lambda>ls. Some (concat (tl ls))), commitment_hash = take 32,
     encode_block = (\<lambda>b. Inr [ucast (hdr_nonce (blk_header b))]),
     decode_block = (\<lambda>bs. if bs = [9] then Inr demo_block else Inl ''invalid block''),
     serialize_tx = (\<lambda>t. [ucast (tx_version t), 0]), block_size = (\<lambda>b. 285),
     block_strippedsize = (\<lambda>b. 280), block_weight = (\<lambda>b. 1125), varint = (\<lambda>n. [ucast n]),
     sha256d = (\<lambda>bs. take 4 (bs @ replicate 4 0))\<rparr>"

lemma demo_block_leaves:
  "witness_leaves demo_btc demo_block = [replicate 32 0, [7]]"
  "witness_leaves demo_btc (strip_block demo_block) = [replicate 32 0, []]"
  by (simp_all add: witness_leaves_def demo_block_def strip_block_def strip_tx_def demo_spend_def demo_btc_def
      del: replicate.simps)

lemma demo_block_commits: "commits demo_block"
  by (simp add: commits_def demo_block_def demo_coinbase_def is_commitment_def COMMITMENT_MAGIC_def)

lemma demo_block_ok: "check_witnesses demo_btc demo_block"
proof -
  have "rposition is_commitment (tx_output (demo_coinbase w)) = Some 0" for w
    by (simp add: rposition_def demo_coinbase_def is_commitment_def COMMITMENT_MAGIC_def)
  then have "check_witness_commitment demo_btc demo_block"
    unfolding check_witness_commitment_def demo_block_leaves
    by (simp add: demo_block_def demo_btc_def first_witness_def reserved_of_def ZERO_RESERVED_def
        demo_coinbase_def COMMITMENT_MAGIC_def)
  then show ?thesis using demo_block_commits by (simp add: check_witnesses_def)
qed

theorem check_witnesses_iff_witness:
  "check_witnesses demo_btc \<lparr>blk_header = demo_header, txdata = [demo_spend []]\<rparr> \<and>
   \<not> check_witnesses demo_btc \<lparr>blk_header = demo_header, txdata = [demo_spend [[7]]]\<rparr> \<and>
   (\<exists>c x. committed_value demo_block c \<and> salted_root demo_btc demo_block = Some x \<and> c = commitment_hash demo_btc x)"
proof -
  have none: "\<not> committed_value \<lparr>blk_header = demo_header, txdata = [demo_spend w]\<rparr> c" for w c
    using commits_iff [of "\<lparr>blk_header = demo_header, txdata = [demo_spend w]\<rparr>"]
    by (auto simp: commits_def demo_spend_def is_commitment_def COMMITMENT_MAGIC_def)
  have some: "\<exists>c. committed_value demo_block c" using demo_block_commits by (simp add: commits_iff)
  have "\<exists>c x. committed_value demo_block c \<and> salted_root demo_btc demo_block = Some x \<and> c = commitment_hash demo_btc x"
    using check_witnesses_iff [of demo_btc demo_block] demo_block_ok some by auto
  moreover have "\<not> (\<forall>t\<in>set [demo_spend [[7]]]. \<forall>i\<in>set (tx_input t). witness i = [])"
    "\<forall>t\<in>set [demo_spend []]. \<forall>i\<in>set (tx_input t). witness i = []"
    by (simp_all add: demo_spend_def)
  ultimately show ?thesis
    using check_witnesses_iff [of demo_btc "\<lparr>blk_header = demo_header, txdata = [demo_spend []]\<rparr>"]
      check_witnesses_iff [of demo_btc "\<lparr>blk_header = demo_header, txdata = [demo_spend [[7]]]\<rparr>"] none
    by simp
qed

theorem committed_witnesses_are_authentic_witness:
  "check_witnesses demo_btc demo_block \<and> \<not> check_witnesses demo_btc (strip_block demo_block)"
proof -
  have salted: "salted_root demo_btc demo_block = Some (7 # replicate 32 0)"
    "salted_root demo_btc (strip_block demo_block) = Some (replicate 32 0)"
    unfolding salted_root_def demo_block_leaves
    by (simp_all add: demo_btc_def demo_block_def strip_block_def strip_tx_def demo_coinbase_def
        first_witness_def reserved_of_def ZERO_RESERVED_def)
  have zeros: "replicate 32 (0 :: u8) = 0 # replicate 31 0" by (simp add: numeral_eq_Suc)
  have "no_collision demo_btc demo_block (strip_block demo_block)"
    unfolding no_collision_def salted demo_block_leaves
    by (simp add: demo_btc_def demo_block_def strip_block_def strip_tx_def demo_coinbase_def demo_spend_def
        ZERO_RESERVED_def zeros)
  moreover have "\<exists>t\<in>set (tl (txdata demo_block)). has_witness t"
    by (simp add: demo_block_def demo_spend_def has_witness_def)
  ultimately show ?thesis
    using committed_witnesses_are_authentic [OF demo_block_ok demo_block_commits] demo_block_ok by blast
qed

end
