(* ===== verification/Network.thy ===== *)
theory Network
  imports Rpc_Methods Witness_Check
begin

text \<open>
  The p2p parameters of bitcoind's chain (\<open>NetworkParams\<close> of \<open>src/state.rs\<close>), the messages
  the proxy exchanges with a peer, and where a peer's address is dialled
  (\<open>BitcoinPeerConnection::connect\<close> of \<open>src/fetch_blocks.rs\<close>, up to the open socket).
\<close>

section \<open>Parameters of a chain\<close>

text \<open>\<open>u32::from_le_bytes\<close> and \<open>u32::to_le_bytes\<close>.\<close>

fun from_le_bytes :: "bytes \<Rightarrow> u32" where
  "from_le_bytes [] = 0"
| "from_le_bytes (b # bs) = ucast b OR push_bit 8 (from_le_bytes bs)"

definition to_le_bytes :: "u32 \<Rightarrow> bytes" where
  "to_le_bytes w = map (\<lambda>i. ucast (drop_bit (8 * i) w)) [0, 1, 2, 3]"

record network_params =
  magic :: u32
  default_peer_port :: u16

datatype network_error = UnknownChain string | MissingSignetChallenge

definition signet_magic :: "bitcoin_lib \<Rightarrow> bytes \<Rightarrow> u32" where
  "signet_magic B challenge =
     from_le_bytes (take 4 (sha256d B (varint B (word_of_nat (length challenge)) @ challenge)))"

definition from_blockchain_info :: "bitcoin_lib \<Rightarrow> blockchain_info \<Rightarrow> network_error + network_params" where
  "from_blockchain_info B info =
     (if chain info = ''main'' then Inr \<lparr>magic = 0xD9B4BEF9, default_peer_port = 8333\<rparr>
      else if chain info = ''test'' then Inr \<lparr>magic = 0x0709110B, default_peer_port = 18333\<rparr>
      else if chain info = ''testnet4'' then Inr \<lparr>magic = 0x283F161C, default_peer_port = 48333\<rparr>
      else if chain info = ''signet'' then
        (case signet_challenge info of
           None \<Rightarrow> Inl MissingSignetChallenge
         | Some c \<Rightarrow> Inr \<lparr>magic = signet_magic B c, default_peer_port = 38333\<rparr>)
      else if chain info = ''regtest'' then Inr \<lparr>magic = 0xDAB5BFFA, default_peer_port = 18444\<rparr>
      else Inl (UnknownChain (chain info)))"

section \<open>Messages\<close>

record version_payload =
  vm_services :: u64
  vm_timestamp :: i64
  vm_receiver :: "u8 list \<times> u16 \<times> u64"
  vm_sender :: "u8 list \<times> u16 \<times> u64"
  vm_nonce :: u64
  vm_user_agent :: string
  vm_start_height :: i32

datatype inventory = WitnessBlock blockhash | OtherInventory bytes

datatype payload =
    Verack
  | Version version_payload
  | GetData "inventory list"
  | BlockMsg block
  | Ping u64
  | Pong u64
  | OtherMessage string

record raw_message =
  msg_magic :: u32
  msg_payload :: payload

definition ver_ack :: "u32 \<Rightarrow> raw_message" where
  "ver_ack m = \<lparr>msg_magic = m, msg_payload = Verack\<rparr>"

text \<open>The argument \<open>secs\<close> is the system clock, in seconds since the epoch.\<close>

definition version_message :: "u32 \<Rightarrow> u64 \<Rightarrow> raw_message" where
  "version_message m secs = \<lparr>msg_magic = m, msg_payload = Version
     \<lparr>vm_services = 0, vm_timestamp = secs, vm_receiver = ([127, 0, 0, 1], 8332, 0),
      vm_sender = ([127, 0, 0, 1], 8332, 0), vm_nonce = 0,
      vm_user_agent = ''BTC RPC Proxy v0.8.2'', vm_start_height = 0\<rparr>\<rparr>"

definition get_block_message :: "u32 \<Rightarrow> blockhash \<Rightarrow> raw_message" where
  "get_block_message m h = \<lparr>msg_magic = m, msg_payload = GetData [WitnessBlock h]\<rparr>"

definition pong_message :: "u32 \<Rightarrow> u64 \<Rightarrow> raw_message" where
  "pong_message m p = \<lparr>msg_magic = m, msg_payload = Pong p\<rparr>"

section \<open>Routing\<close>

record tor_state =
  tor_proxy :: string
  tor_only :: bool

text \<open>Where the stream of a connection is opened: at the address itself, or by a SOCKS proxy.\<close>

datatype route = DialDirect string | DialProxied string string

text \<open>Rust's \<open>Display\<close> of an unsigned integer: its decimal digits.\<close>

fun show_nat :: "nat \<Rightarrow> string" where
  "show_nat n = (if n < 10 then [char_of (48 + n)] else show_nat (n div 10) @ [char_of (48 + n mod 10)])"

definition with_port :: "network_params \<Rightarrow> string \<Rightarrow> string" where
  "with_port np addr =
     (if CHR '':'' \<in> set addr then addr else addr @ '':'' @ show_nat (unat (default_peer_port np)))"

definition host_of :: "string \<Rightarrow> string" where
  "host_of addr = (case rsplit_once CHR '':'' addr of None \<Rightarrow> addr | Some (host, _) \<Rightarrow> host)"

definition choose_route :: "tor_state option \<Rightarrow> string option \<Rightarrow> string \<Rightarrow> string + route" where
  "choose_route tor i2p_proxy addr =
     (let host = host_of addr in
      if ends_with ''.i2p'' host then
        (case i2p_proxy of
           None \<Rightarrow> Inl (''no i2p proxy configured, cannot reach '' @ addr)
         | Some proxy \<Rightarrow> Inr (DialProxied proxy addr))
      else
        (case tor of
           Some t \<Rightarrow>
             if tor_only t \<or> ends_with ''.onion'' host then Inr (DialProxied (tor_proxy t) addr)
             else Inr (DialDirect addr)
         | None \<Rightarrow> Inr (DialDirect addr)))"

section \<open>Library lemmas\<close>

lemma from_le_bytes_append_bit:
  "bit (from_le_bytes bs) n \<longleftrightarrow> n < 32 \<and> n div 8 < length bs \<and> bit (bs ! (n div 8)) (n mod 8)"
proof (induction bs arbitrary: n)
  case (Cons b bs)
  show ?case
  proof (cases "n < 8")
    case True
    then show ?thesis by (auto simp: bit_simps)
  next
    case False
    then have "n div 8 = Suc ((n - 8) div 8)" and "n mod 8 = (n - 8) mod 8"
      by (simp_all add: le_div_geq le_mod_geq)
    moreover have "\<not> bit b n" using False by (simp add: impossible_bit)
    ultimately show ?thesis using False Cons.IH [of "n - 8"] by (auto simp: bit_simps)
  qed
qed simp

lemma to_from_le_bytes:
  assumes "length bs = 4"
  shows "to_le_bytes (from_le_bytes bs) = bs"
proof (rule nth_equalityI)
  fix i assume "i < length (to_le_bytes (from_le_bytes bs))"
  then have i: "i < 4" by (simp add: to_le_bytes_def)
  have "to_le_bytes w ! i = ucast (drop_bit (8 * i) w)" for w
    using i by (auto simp: to_le_bytes_def less_Suc_eq numeral_eq_Suc)
  moreover have "ucast (drop_bit (8 * i) (from_le_bytes bs)) = bs ! i"
  proof (rule bit_word_eqI)
    fix n assume "n < LENGTH(8)"
    then have "n < 8" by simp
    then have "(8 * i + n) div 8 = i" "(8 * i + n) mod 8 = n" "8 * i + n < 32" using i by simp_all
    then show "bit (ucast (drop_bit (8 * i) (from_le_bytes bs)) :: u8) n \<longleftrightarrow> bit (bs ! i) n"
      using i assms \<open>n < 8\<close> by (simp add: bit_simps from_le_bytes_append_bit)
  qed
  ultimately show "to_le_bytes (from_le_bytes bs) ! i = bs ! i" by simp
qed (simp add: to_le_bytes_def assms)

lemma with_port_colon: "CHR '':'' \<in> set (with_port np addr)"
  by (simp add: with_port_def)

section \<open>Properties\<close>

text \<open>
  The chain bitcoind names decides the bytes every message starts with. On the wire they
  are, for each fixed network, the four bytes its nodes expect, and for a signet the first
  four bytes of the double hash of its length-prefixed challenge; the five networks differ
  in their ports, a name that is none of theirs is an error that says it, and so is a signet
  without a challenge.
\<close>

lemma network_params_of_chain:
  assumes "\<forall>x. 4 \<le> length (sha256d B x)"
  shows "map (\<lambda>c. map_sum id (\<lambda>p. (to_le_bytes (magic p), default_peer_port p))
            (from_blockchain_info B \<lparr>chain = c, signet_challenge = sc\<rparr>))
          [''main'', ''test'', ''testnet4'', ''regtest''] =
        [Inr ([0xf9, 0xbe, 0xb4, 0xd9], 8333), Inr ([0x0b, 0x11, 0x09, 0x07], 18333),
         Inr ([0x1c, 0x16, 0x3f, 0x28], 48333), Inr ([0xfa, 0xbf, 0xb5, 0xda], 18444)] \<and>
      map_sum id (\<lambda>p. (to_le_bytes (magic p), default_peer_port p))
            (from_blockchain_info B \<lparr>chain = ''signet'', signet_challenge = sc\<rparr>) =
        (case sc of None \<Rightarrow> Inl MissingSignetChallenge
         | Some c \<Rightarrow> Inr (take 4 (sha256d B (varint B (word_of_nat (length c)) @ c)), 38333)) \<and>
      (c \<notin> {''main'', ''test'', ''testnet4'', ''signet'', ''regtest''} \<longrightarrow>
        from_blockchain_info B \<lparr>chain = c, signet_challenge = sc\<rparr> = Inl (UnknownChain c))"
proof (intro conjI)
  have "to_le_bytes (signet_magic B x) = take 4 (sha256d B (varint B (word_of_nat (length x)) @ x))" for x
    unfolding signet_magic_def using assms by (intro to_from_le_bytes) simp
  then show "map_sum id (\<lambda>p. (to_le_bytes (magic p), default_peer_port p))
            (from_blockchain_info B \<lparr>chain = ''signet'', signet_challenge = sc\<rparr>) =
        (case sc of None \<Rightarrow> Inl MissingSignetChallenge
         | Some c \<Rightarrow> Inr (take 4 (sha256d B (varint B (word_of_nat (length c)) @ c)), 38333))"
    by (cases sc) (simp_all add: from_blockchain_info_def)
qed (simp_all add: from_blockchain_info_def to_le_bytes_def)

text \<open>
  C30: the route of a connection respects the configured privacy. With a Tor proxy and
  \<open>tor_only\<close> nothing is dialled directly; with one, an \<open>.onion\<close> host goes to it and nowhere
  else; an \<open>.i2p\<close> host goes to the I2P proxy or is refused, never to Tor and never directly;
  and whatever the route, the address handed on is the peer's own, with a port.
\<close>

theorem route_respects_proxies:
  assumes "choose_route tor i2p (with_port np addr) = Inr r"
  shows "(\<forall>a. r = DialDirect a \<longrightarrow> a = with_port np addr \<and>
             (\<forall>t. tor = Some t \<longrightarrow> \<not> tor_only t \<and> \<not> ends_with ''.onion'' (host_of a)) \<and>
             \<not> ends_with ''.i2p'' (host_of a)) \<and>
         (\<forall>p a. r = DialProxied p a \<longrightarrow> a = with_port np addr \<and>
             (if ends_with ''.i2p'' (host_of a) then i2p = Some p
              else \<exists>t. tor = Some t \<and> p = tor_proxy t \<and> (tor_only t \<or> ends_with ''.onion'' (host_of a)))) \<and>
         CHR '':'' \<in> set (with_port np addr)"
  using assms with_port_colon [of np addr]
  by (auto simp: choose_route_def Let_def split: if_splits option.splits)

theorem route_respects_proxies_witness:
  "\<exists>r. choose_route (Some \<lparr>tor_proxy = ''127.0.0.1:9050'', tor_only = True\<rparr>) None
        (with_port \<lparr>magic = 0, default_peer_port = 8333\<rparr> ''10.0.0.1:8333'') = Inr r \<and>
      (\<forall>a. r \<noteq> DialDirect a)"
proof -
  let ?tor = "Some \<lparr>tor_proxy = ''127.0.0.1:9050'', tor_only = True\<rparr>"
  let ?np = "\<lparr>magic = 0, default_peer_port = 8333\<rparr> :: network_params"
  have run: "choose_route ?tor None (with_port ?np ''10.0.0.1:8333'') =
      Inr (DialProxied ''127.0.0.1:9050'' ''10.0.0.1:8333'')"
    by (simp add: with_port_def choose_route_def host_of_def rsplit_once_def ends_with_def starts_with_def)
  from route_respects_proxies [OF run] show ?thesis using run by blast
qed

end
