(* ===== verification/File_World.thy ===== *)
theory File_World
  imports Proxy_Prelude
begin

text \<open>
  The file system as the two cookie readers see it: \<open>metadata\<close> (with the result of
  its \<open>modified()\<close>) and \<open>read_to_string\<close>, as operations on an outside world of any
  type. \<open>trace_fs\<close> is the file system in which one file goes through a history: the
  world is an instant, every operation observes the file at that instant and takes one
  tick, so a writer may replace the file between any two of them. \<open>honest_history\<close> is
  what a modification time promises: it never goes back, and two instants with the same
  one have the same contents.
\<close>

type_synonym path = string
type_synonym time = nat
type_synonym io_error = string

record 'w fs =
  fs_metadata :: "path \<Rightarrow> 'w \<Rightarrow> (io_error + (io_error + time)) \<times> 'w"
  fs_read_to_string :: "path \<Rightarrow> 'w \<Rightarrow> (io_error + string) \<times> 'w"

type_synonym history = "nat \<Rightarrow> (time \<times> string) option"

definition trace_fs :: "history \<Rightarrow> nat fs" where
  "trace_fs H = \<lparr>
     fs_metadata = (\<lambda>p n. (case H n of None \<Rightarrow> Inl ''not found'' | Some (m, c) \<Rightarrow> Inr (Inr m), Suc n)),
     fs_read_to_string = (\<lambda>p n. (case H n of None \<Rightarrow> Inl ''not found'' | Some (m, c) \<Rightarrow> Inr c, Suc n))\<rparr>"

definition honest_history :: "history \<Rightarrow> bool" where
  "honest_history H \<longleftrightarrow>
     (\<forall>i j m c m' c'. i \<le> j \<longrightarrow> H i = Some (m, c) \<longrightarrow> H j = Some (m', c') \<longrightarrow>
        m \<le> m' \<and> (m = m' \<longrightarrow> c = c'))"

lemma trace_fs_simps [simp]:
  "fs_metadata (trace_fs H) p n =
     (case H n of None \<Rightarrow> Inl ''not found'' | Some (m, c) \<Rightarrow> Inr (Inr m), Suc n)"
  "fs_read_to_string (trace_fs H) p n =
     (case H n of None \<Rightarrow> Inl ''not found'' | Some (m, c) \<Rightarrow> Inr c, Suc n)"
  by (simp_all add: trace_fs_def)

lemma honest_historyD:
  assumes "honest_history H" and "H i = Some (m, c)" and "H j = Some (m', c')" and "i \<le> j"
  shows "m \<le> m'" and "m = m' \<Longrightarrow> c = c'"
  using assms unfolding honest_history_def by blast+

text \<open>
  A value cached against a modification time is coherent from an instant on when the
  file, whenever it carries that time, has the contents the value was read from.
\<close>

definition coherent :: "history \<Rightarrow> (string \<Rightarrow> 'v option) \<Rightarrow> nat \<Rightarrow> (time \<times> 'v) option \<Rightarrow> bool" where
  "coherent H read n cached \<longleftrightarrow>
     (\<forall>m v j c. cached = Some (m, v) \<longrightarrow> n \<le> j \<longrightarrow> H j = Some (m, c) \<longrightarrow> read c = Some v)"

lemma coherent_None [simp]: "coherent H read n None"
  by (simp add: coherent_def)

lemma coherent_later: "coherent H read n x \<Longrightarrow> n \<le> n' \<Longrightarrow> coherent H read n' x"
  unfolding coherent_def by (metis le_trans)

lemma coherent_hit:
  "coherent H read n (Some (m, v)) \<Longrightarrow> n \<le> j \<Longrightarrow> H j = Some (m, c) \<Longrightarrow> read c = Some v"
  by (simp add: coherent_def)

text \<open>Caching against a time observed before the read is coherent, whatever happens between.\<close>

lemma coherent_stat_before_read:
  assumes "honest_history H" and "H i = Some (m, c)" and "H r = Some (m', c')" and "i \<le> r"
    and "read c' = Some v"
  shows "coherent H read r (Some (m, v))"
  unfolding coherent_def
proof (intro allI impI)
  fix m1 v1 j c1
  assume eq: "Some (m, v) = Some (m1, v1)" and j: "r \<le> j" "H j = Some (m1, c1)"
  have "m \<le> m'" using honest_historyD(1) [OF assms(1,2,3,4)] .
  moreover have "m' \<le> m" using honest_historyD(1) [OF assms(1,3) j(2) j(1)] eq by simp
  ultimately have "c' = c1" using honest_historyD(2) [OF assms(1,3) j(2) j(1)] eq by simp
  then show "read c1 = Some v1" using assms(5) eq by simp
qed

end
