(* ===== verification/Auth_Source.thy ===== *)
theory Auth_Source
  imports Rpc_Types File_World
begin

text \<open>
  \<open>AuthSource\<close> of \<open>src/client.rs\<close>: the credentials the proxy presents to bitcoind,
  fixed in the configuration or read from bitcoind's cookie file and cached against the
  file's modification time. The file system is an operation on an outside world of any
  type; the base64 encoder and the header parser of the crates the source calls are
  parameters.
\<close>

section \<open>State and operations\<close>

type_synonym header = string

datatype auth_load_error =
    AMetadata path io_error
  | AModified path io_error
  | ARead path io_error
  | AHeaderValue

datatype auth_source =
    AuthConst string string header
  | AuthCookieFile path "(time \<times> header) option"

record codecs =
  base64_encode :: "bytes \<Rightarrow> string"
  parse_header :: "string \<Rightarrow> header option"

definition from_config ::
  "codecs \<Rightarrow> string option \<Rightarrow> string option \<Rightarrow> path option \<Rightarrow> anyhow_error + auth_source" where
  "from_config cs user password file =
     (case (user, password, file) of
        (Some username, Some password, None) \<Rightarrow>
          (case parse_header cs (''Basic '' @ base64_encode cs (as_bytes (username @ '':'' @ password))) of
             None \<Rightarrow> Inl ''failed to parse header value''
           | Some header \<Rightarrow> Inr (AuthConst username password header))
      | (None, None, Some cookie_file) \<Rightarrow> Inr (AuthCookieFile cookie_file None)
      | (None, None, None) \<Rightarrow> Inl ''missing authentication information''
      | _ \<Rightarrow> Inl ''either a password and possibly a username or a cookie file must be specified'')"

text \<open>At most one trailing newline is dropped before encoding.\<close>

definition cookie_text :: "string \<Rightarrow> string" where
  "cookie_text cookie = (if ends_with [CHR 0x0A] cookie then butlast cookie else cookie)"

definition load_from_file ::
  "codecs \<Rightarrow> 'w fs \<Rightarrow> path \<Rightarrow> 'w \<Rightarrow> (auth_load_error + string) \<times> 'w" where
  "load_from_file cs fs path w =
     (case fs_read_to_string fs path w of
        (Inl e, w') \<Rightarrow> (Inl (ARead path e), w')
      | (Inr cookie, w') \<Rightarrow> (Inr (base64_encode cs (as_bytes (cookie_text cookie))), w'))"

definition load_and_cache :: "codecs \<Rightarrow> 'w fs \<Rightarrow> path \<Rightarrow> (time \<times> header) option \<Rightarrow> time \<Rightarrow> 'w \<Rightarrow>
    (auth_load_error + header) \<times> auth_source \<times> 'w" where
  "load_and_cache cs fs path cached modified w =
     (case load_from_file cs fs path w of
        (Inl e, w') \<Rightarrow> (Inl e, AuthCookieFile path cached, w')
      | (Inr enc, w') \<Rightarrow>
          (case parse_header cs (''Basic '' @ enc) of
             None \<Rightarrow> (Inl AHeaderValue, AuthCookieFile path cached, w')
           | Some header \<Rightarrow> (Inr header, AuthCookieFile path (Some (modified, header)), w')))"

fun try_load :: "codecs \<Rightarrow> 'w fs \<Rightarrow> auth_source \<Rightarrow> 'w \<Rightarrow>
    (auth_load_error + header) \<times> auth_source \<times> 'w" where
  "try_load cs fs (AuthConst u p header) w = (Inr header, AuthConst u p header, w)"
| "try_load cs fs (AuthCookieFile path cached) w =
     (case fs_metadata fs path w of
        (Inl e, w1) \<Rightarrow> (Inl (AMetadata path e), AuthCookieFile path cached, w1)
      | (Inr (Inl e), w1) \<Rightarrow> (Inl (AModified path e), AuthCookieFile path cached, w1)
      | (Inr (Inr modified), w1) \<Rightarrow>
          (case cached of
             Some (seen, header) \<Rightarrow>
               if modified = seen then (Inr header, AuthCookieFile path cached, w1)
               else load_and_cache cs fs path cached modified w1
           | None \<Rightarrow> load_and_cache cs fs path cached modified w1))"

section \<open>Runs over a file that bitcoind rewrites\<close>

definition header_of :: "codecs \<Rightarrow> string \<Rightarrow> header option" where
  "header_of cs c = parse_header cs (''Basic '' @ base64_encode cs (as_bytes (cookie_text c)))"

text \<open>
  The states a cookie-file source goes through while its file has the history \<open>H\<close>:
  fresh, after some time has passed, after a load.
\<close>

inductive auth_reach :: "codecs \<Rightarrow> history \<Rightarrow> nat \<Rightarrow> auth_source \<Rightarrow> bool"
  for cs :: codecs and H :: history where
  fresh: "auth_reach cs H n (AuthCookieFile p None)"
| tick: "auth_reach cs H n s \<Longrightarrow> n \<le> n' \<Longrightarrow> auth_reach cs H n' s"
| load: "auth_reach cs H n s \<Longrightarrow> try_load cs (trace_fs H) s n = (r, s', n') \<Longrightarrow> auth_reach cs H n' s'"

fun source_coherent :: "codecs \<Rightarrow> history \<Rightarrow> nat \<Rightarrow> auth_source \<Rightarrow> bool" where
  "source_coherent cs H n (AuthConst u p h) \<longleftrightarrow> True"
| "source_coherent cs H n (AuthCookieFile p cached) \<longleftrightarrow> coherent H (header_of cs) n cached"

lemma load_from_file_trace:
  "load_from_file cs (trace_fs H) path n =
     (case H n of None \<Rightarrow> Inl (ARead path ''not found'')
      | Some (m, c) \<Rightarrow> Inr (base64_encode cs (as_bytes (cookie_text c))), Suc n)"
  by (simp add: load_from_file_def split: option.splits)

lemma try_load_coherent:
  assumes "honest_history H" and "source_coherent cs H n s"
    and "try_load cs (trace_fs H) s n = (r, s', n')"
  shows "source_coherent cs H n' s' \<and> n \<le> n'"
proof (cases s)
  case (AuthConst u p h)
  then show ?thesis using assms(3) by auto
next
  case (AuthCookieFile p cached)
  then have coh: "coherent H (header_of cs) n cached" using assms(2) by simp
  have later: "coherent H (header_of cs) (Suc n) cached" "coherent H (header_of cs) (Suc (Suc n)) cached"
    using coherent_later [OF coh] by auto
  have new: "coherent H (header_of cs) (Suc (Suc n)) (Some (m, h))"
    if "H n = Some (m, c)" "H (Suc n) = Some (m', c')" "header_of cs c' = Some h" for m c m' c' h
    by (rule coherent_later [where n = "Suc n"])
       (simp_all add: coherent_stat_before_read [OF assms(1) that(1,2)] that(3))
  show ?thesis
  proof (cases "H n")
    case None
    then show ?thesis using assms(3) later(1) by (auto simp: AuthCookieFile)
  next
    case (Some f)
    then obtain m c where f: "H n = Some (m, c)" by (cases f) auto
    show ?thesis
    proof (cases "\<exists>v. cached = Some (m, v)")
      case True
      then show ?thesis using assms(3) later(1) f by (auto simp: AuthCookieFile)
    next
      case False
      then have "load_and_cache cs (trace_fs H) p cached m (Suc n) = (r, s', n')"
        using assms(3) f by (auto simp: AuthCookieFile split: option.splits if_splits)
      then show ?thesis
        using later(2) new [OF f]
        by (auto simp: load_and_cache_def load_from_file_trace header_of_def split: option.splits)
    qed
  qed
qed

lemma auth_reach_coherent: "auth_reach cs H n s \<Longrightarrow> honest_history H \<Longrightarrow> source_coherent cs H n s"
proof (induction rule: auth_reach.induct)
  case (tick n s n')
  then show ?case by (cases s) (auto intro: coherent_later)
next
  case (load n s r s' n')
  then show ?case by (blast dest: try_load_coherent)
qed simp

section \<open>Properties\<close>

text \<open>
  C22: the cookie presented to bitcoind is followed, not copied. Whatever loads came
  before, and however the file was replaced between or inside them, a load during which
  the file does not change yields exactly the header of the file's current contents.
\<close>

theorem try_load_follows_cookie:
  assumes "honest_history H" and "auth_reach cs H n (AuthCookieFile p cached)"
    and "H n = Some (m, c)" and "H (Suc n) = Some (m, c)" and "header_of cs c = Some h"
  shows "fst (try_load cs (trace_fs H) (AuthCookieFile p cached) n) = Inr h"
proof -
  have coh: "coherent H (header_of cs) n cached"
    using auth_reach_coherent [OF assms(2,1)] by simp
  show ?thesis
  proof (cases "\<exists>v. cached = Some (m, v)")
    case True
    then obtain v where v: "cached = Some (m, v)" by blast
    then have "header_of cs c = Some v" using coh assms(3) by (auto intro: coherent_hit)
    then show ?thesis using v assms(3,5) by simp
  next
    case False
    then show ?thesis
      using assms(3-5)
      by (auto simp: load_and_cache_def load_from_file_trace header_of_def split: option.splits)
  qed
qed

text \<open>A concrete run: a load under the first cookie, a restart, a load under the second.\<close>

definition demo_codecs :: codecs where
  "demo_codecs = \<lparr>base64_encode = (\<lambda>bs. map (\<lambda>b. char_of (unat b)) bs), parse_header = Some\<rparr>"

definition demo_history :: history where
  "demo_history n = (if n < 2 then Some (1, ''u:a'') else Some (2, ''u:b\<newline>''))"

lemma demo_headers:
  "header_of demo_codecs ''u:a'' = Some ''Basic u:a''"
  "header_of demo_codecs ''u:b\<newline>'' = Some ''Basic u:b''"
  by (simp_all add: header_of_def demo_codecs_def cookie_text_def ends_with_def starts_with_def
      as_bytes_def of_char_def char_of_def bit_0)

lemma demo_reach:
  "auth_reach demo_codecs demo_history 2 (AuthCookieFile ''c'' (Some (1, ''Basic u:a'')))"
proof (rule auth_reach.load [OF auth_reach.fresh [of _ _ 0 "''c''"]])
  show "try_load demo_codecs (trace_fs demo_history) (AuthCookieFile ''c'' None) 0 =
        (Inr ''Basic u:a'', AuthCookieFile ''c'' (Some (1, ''Basic u:a'')), 2)"
    using demo_headers(1)
    by (simp add: load_and_cache_def load_from_file_trace demo_history_def header_of_def)
qed

theorem try_load_follows_cookie_witness:
  "fst (try_load demo_codecs (trace_fs demo_history)
     (AuthCookieFile ''c'' (Some (1, ''Basic u:a''))) 2) = Inr ''Basic u:b''"
proof (rule try_load_follows_cookie [where m = 2 and c = "''u:b\<newline>''", OF _ demo_reach])
  show "honest_history demo_history"
    by (auto simp: honest_history_def demo_history_def split: if_splits)
qed (simp_all add: demo_history_def demo_headers)

end
