(* ===== verification/Rpc_Client.thy ===== *)
theory Rpc_Client
  imports Auth_Source
begin

text \<open>
  \<open>RpcClient\<close> of \<open>src/client.rs\<close>: \<open>send\<close>, which answers or forwards a client's
  request, single or batched, and \<open>call\<close>, with which the proxy asks bitcoind itself.

  What the client changes is \<open>sys\<close>: the cached credentials and the outside world (file
  system and network), of any type \<open>'w\<close>; later components extend the record. The HTTP
  transport and the pure functions of other crates (rendering and parsing JSON text,
  parsing a path, \<open>merge_by\<close>) are the fields of \<open>net\<close> and \<open>lib\<close>.

  The interceptions of a batch run concurrently. Their order of completion is the
  argument \<open>order\<close>, any ordering of the batch; \<open>stage\<close> says how far the forwarding half of
  the final \<open>try_join!\<close> has come when the other half is looked at.
\<close>

section \<open>State and parameters\<close>

record out_request =
  out_base :: string
  out_path :: string
  out_auth :: header
  out_body :: string

record 'w net =
  net_fs :: "'w fs"
  http :: "out_request \<Rightarrow> 'w \<Rightarrow> (string + http_response) \<times> 'w"
  to_bytes :: "http_response \<Rightarrow> 'w \<Rightarrow> (string + bytes) \<times> 'w"

record lib =
  lib_codecs :: codecs
  to_vec :: "json \<Rightarrow> serde_error + bytes"
  to_string :: "json \<Rightarrow> serde_error + string"
  parse_json :: "bytes \<Rightarrow> serde_error + json"
  parse_path :: "string \<Rightarrow> string + string"
  show_serde :: "serde_error \<Rightarrow> string"
  show_auth :: "auth_load_error \<Rightarrow> string"
  show_status :: "status_code \<Rightarrow> string"
  merge_by :: "(nat \<times> json \<Rightarrow> nat \<times> json \<Rightarrow> bool) \<Rightarrow> (nat \<times> json) list \<Rightarrow> (nat \<times> json) list \<Rightarrow>
     (nat \<times> json) list"

record 'w sys =
  auth :: auth_source
  world :: 'w

type_synonym outcome = "rpc_error + json rpc_response option"

type_synonym ('w, 'z) interceptor =
  "string \<Rightarrow> generic_request \<Rightarrow> ('w, 'z) sys_scheme \<Rightarrow> (panic + outcome) \<times> ('w, 'z) sys_scheme"

text \<open>What serving a request gives: a panic unwinds the whole task, past every other result.\<close>

type_synonym served = "panic + (anyhow_error + http_response)"

definition load_auth :: "lib \<Rightarrow> 'w net \<Rightarrow> ('w, 'z) sys_scheme \<Rightarrow>
    (auth_load_error + header) \<times> ('w, 'z) sys_scheme" where
  "load_auth L N s =
     (case try_load (lib_codecs L) (net_fs N) (auth s) (world s) of
        (r, a, w) \<Rightarrow> (r, s\<lparr>auth := a, world := w\<rparr>))"

definition http_send :: "'w net \<Rightarrow> out_request \<Rightarrow> ('w, 'z) sys_scheme \<Rightarrow>
    (string + http_response) \<times> ('w, 'z) sys_scheme" where
  "http_send N req s = (case http N req (world s) of (r, w) \<Rightarrow> (r, s\<lparr>world := w\<rparr>))"

definition read_body :: "'w net \<Rightarrow> http_response \<Rightarrow> ('w, 'z) sys_scheme \<Rightarrow>
    (string + bytes) \<times> ('w, 'z) sys_scheme" where
  "read_body N resp s = (case to_bytes N resp (world s) of (r, w) \<Rightarrow> (r, s\<lparr>world := w\<rparr>))"

section \<open>A single request\<close>

definition forward_single :: "lib \<Rightarrow> 'w net \<Rightarrow> string \<Rightarrow> string \<Rightarrow> generic_request \<Rightarrow>
    ('w, 'z) sys_scheme \<Rightarrow> (anyhow_error + http_response) \<times> ('w, 'z) sys_scheme" where
  "forward_single L N uri path req s =
     (case parse_path L path of
        Inl e \<Rightarrow> (Inl e, s)
      | Inr pq \<Rightarrow>
          (case load_auth L N s of
             (Inl e, s1) \<Rightarrow> (Inl (show_auth L e), s1)
           | (Inr header, s1) \<Rightarrow>
               (case to_string L (ser_request req) of
                  Inl e \<Rightarrow> (Inl (show_serde L e), s1)
                | Inr body \<Rightarrow>
                    http_send N \<lparr>out_base = uri, out_path = pq, out_auth = header, out_body = body\<rparr> s1)))"

definition send_single :: "lib \<Rightarrow> 'w net \<Rightarrow> string \<Rightarrow> string \<Rightarrow> generic_request \<Rightarrow>
    ('w, 'z) interceptor \<Rightarrow> ('w, 'z) sys_scheme \<Rightarrow> served \<times> ('w, 'z) sys_scheme" where
  "send_single L N uri path req intercept s =
     (case intercept path req s of
        (Inl p, s1) \<Rightarrow> (Inl p, s1)
      | (Inr (Inr None), s1) \<Rightarrow> apfst Inr (forward_single L N uri path req s1)
      | (Inr (Inr (Some res)), s1) \<Rightarrow> (Inr (into_response_to (to_vec L) (show_serde L) res req), s1)
      | (Inr (Inl e), s1) \<Rightarrow>
          (Inr (into_response_to (to_vec L) (show_serde L) (response_of_error e) req), s1))"

section \<open>A batch\<close>

text \<open>\<open>for_each_concurrent\<close> over the enumerated batch, in the order of completion.\<close>

fun intercept_all :: "('w, 'z) interceptor \<Rightarrow> string \<Rightarrow> (nat \<times> generic_request) list \<Rightarrow>
    ('w, 'z) sys_scheme \<Rightarrow> (panic + (nat \<times> generic_request \<times> outcome) list) \<times> ('w, 'z) sys_scheme" where
  "intercept_all intercept path [] s = (Inr [], s)"
| "intercept_all intercept path ((idx, req) # rest) s =
     (case intercept path req s of
        (Inl p, s1) \<Rightarrow> (Inl p, s1)
      | (Inr o1, s1) \<Rightarrow>
          (case intercept_all intercept path rest s1 of
             (Inl p, s2) \<Rightarrow> (Inl p, s2)
           | (Inr os, s2) \<Rightarrow> (Inr ((idx, req, o1) # os), s2)))"

text \<open>What each completion sends: to the intercepted channel, to the forwarded one, or nothing.\<close>

fun intercepted_msg :: "nat \<times> generic_request \<times> outcome \<Rightarrow> (rpc_error + nat \<times> json) option" where
  "intercepted_msg (idx, req, Inr (Some res)) =
     (if is_notification req then None else Some (Inr (idx, into_reply res req)))"
| "intercepted_msg (idx, req, Inl e) = Some (Inl e)"
| "intercepted_msg (idx, req, Inr None) = None"

fun forwarded_msg :: "nat \<times> generic_request \<times> outcome \<Rightarrow> (nat \<times> generic_request) option" where
  "forwarded_msg (idx, req, Inr None) = Some (idx, req)"
| "forwarded_msg (idx, req, _) = None"

text \<open>\<open>try_collect\<close> of the intercepted channel: its first error, or everything.\<close>

fun try_collect :: "('e + 'a) list \<Rightarrow> 'e + 'a list" where
  "try_collect [] = Inr []"
| "try_collect (Inl e # xs) = Inl e"
| "try_collect (Inr x # xs) = map_sum id (\<lambda>ys. x # ys) (try_collect xs)"

definition answered_of :: "(nat \<times> generic_request) list \<Rightarrow> nat list" where
  "answered_of fwd = map fst (filter (\<lambda>(idx, req). \<not> is_notification req) fwd)"

fun de_array :: "json \<Rightarrow> serde_error + json list" where
  "de_array (Array vs) = Inr (map to_value vs)"
| "de_array _ = Inl InvalidType"

definition parse_replies :: "lib \<Rightarrow> bytes \<Rightarrow> serde_error + json list" where
  "parse_replies L body = (case parse_json L body of Inl e \<Rightarrow> Inl e | Inr v \<Rightarrow> de_array v)"

definition internal_server_error :: rpc_error where
  "internal_server_error = \<lparr>code = MISC_ERROR_CODE, message = ''internal server error'',
     status = Some INTERNAL_SERVER_ERROR\<rparr>"

text \<open>\<open>send_batch\<close> up to the request it builds, and as a whole.\<close>

definition batch_request :: "lib \<Rightarrow> 'w net \<Rightarrow> string \<Rightarrow> string \<Rightarrow> (nat \<times> generic_request) list \<Rightarrow>
    ('w, 'z) sys_scheme \<Rightarrow> (rpc_error + out_request) \<times> ('w, 'z) sys_scheme" where
  "batch_request L N uri path fwd s =
     (case parse_path L path of
        Inl e \<Rightarrow> (Inl (rpc_error_of_anyhow e), s)
      | Inr pq \<Rightarrow>
          (case load_auth L N s of
             (Inl e, s1) \<Rightarrow> (Inl internal_server_error, s1)
           | (Inr authorization, s1) \<Rightarrow>
               (case to_string L (Array (map (\<lambda>(idx, req). ser_request req) fwd)) of
                  Inl e \<Rightarrow> (Inl (rpc_error_of_serde (show_serde L) e), s1)
                | Inr body \<Rightarrow>
                    (Inr \<lparr>out_base = uri, out_path = pq, out_auth = authorization, out_body = body\<rparr>, s1))))"

definition send_batch :: "lib \<Rightarrow> 'w net \<Rightarrow> string \<Rightarrow> string \<Rightarrow> (nat \<times> generic_request) list \<Rightarrow>
    ('w, 'z) sys_scheme \<Rightarrow> (rpc_error + (nat \<times> json) list) \<times> ('w, 'z) sys_scheme" where
  "send_batch L N uri path fwd s =
     (case batch_request L N uri path fwd s of
        (Inl e, s1) \<Rightarrow> (Inl e, s1)
      | (Inr request, s1) \<Rightarrow>
          (case http_send N request s1 of
             (Inl e, s2) \<Rightarrow> (Inl (rpc_error_of_anyhow e), s2)
           | (Inr response, s2) \<Rightarrow>
               if resp_status response = NO_CONTENT then (Inr [], s2)
               else
                 (case read_body N response s2 of
                    (Inl e, s3) \<Rightarrow> (Inl (rpc_error_of_anyhow e), s3)
                  | (Inr data, s3) \<Rightarrow>
                      (case parse_replies L data of
                         Inl e \<Rightarrow> (Inl (rpc_error_of_serde (show_serde L) e), s3)
                       | Inr replies \<Rightarrow> (Inr (zip (answered_of fwd) replies), s3)))))"

text \<open>
  The final \<open>try_join!\<close>. When the intercepted half holds an error, the forwarding half is
  dropped at the point it waits at: before it has done anything, with the credentials
  loaded, or with its request handed to the HTTP client, which may have sent it. What it
  ended with before that, if it did, is the first component.
\<close>

datatype forwarding = NotBegun | Loaded | Requested | Finished

definition send_until :: "lib \<Rightarrow> 'w net \<Rightarrow> string \<Rightarrow> string \<Rightarrow> (nat \<times> generic_request) list \<Rightarrow> forwarding \<Rightarrow>
    ('w, 'z) sys_scheme \<Rightarrow> (rpc_error + (nat \<times> json) list) option \<times> ('w, 'z) sys_scheme" where
  "send_until L N uri path fwd stage s =
     (case stage of
        NotBegun \<Rightarrow> (None, s)
      | Loaded \<Rightarrow>
          (case batch_request L N uri path fwd s of
             (Inl e, s1) \<Rightarrow> (Some (Inl e), s1)
           | (Inr request, s1) \<Rightarrow> (None, s1))
      | Requested \<Rightarrow>
          (case batch_request L N uri path fwd s of
             (Inl e, s1) \<Rightarrow> (Some (Inl e), s1)
           | (Inr request, s1) \<Rightarrow> (None, snd (http_send N request s1)))
      | Finished \<Rightarrow> apfst Some (send_batch L N uri path fwd s))"

definition join_batch :: "lib \<Rightarrow> 'w net \<Rightarrow> string \<Rightarrow> string \<Rightarrow> (nat \<times> generic_request) list \<Rightarrow> forwarding \<Rightarrow>
    rpc_error + (nat \<times> json) list \<Rightarrow> ('w, 'z) sys_scheme \<Rightarrow>
    (rpc_error + (nat \<times> json) list \<times> (nat \<times> json) list) \<times> ('w, 'z) sys_scheme" where
  "join_batch L N uri path fwd stage intercepted s =
     (case intercepted of
        Inl e \<Rightarrow>
          (case send_until L N uri path fwd stage s of
             (Some (Inl e'), s') \<Rightarrow> (Inl e', s')
           | (_, s') \<Rightarrow> (Inl e, s'))
      | Inr ivs \<Rightarrow>
          (case send_batch L N uri path fwd s of
             (Inl e', s') \<Rightarrow> (Inl e', s')
           | (Inr fvs, s') \<Rightarrow> (Inr (fvs, ivs), s')))"

definition merge_replies :: "lib \<Rightarrow> (nat \<times> json) list \<Rightarrow> (nat \<times> json) list \<Rightarrow> json list" where
  "merge_replies L forwarded intercepted =
     map snd (merge_by L (\<lambda>a b. fst a < fst b) (sort_key fst forwarded) (sort_key fst intercepted))"

definition send_batched :: "lib \<Rightarrow> 'w net \<Rightarrow> string \<Rightarrow> string \<Rightarrow> generic_request list \<Rightarrow>
    (nat \<times> generic_request) list \<Rightarrow> forwarding \<Rightarrow> ('w, 'z) interceptor \<Rightarrow> ('w, 'z) sys_scheme \<Rightarrow>
    served \<times> ('w, 'z) sys_scheme" where
  "send_batched L N uri path reqs order stage intercept s =
     (case intercept_all intercept path order s of
        (Inl p, s1) \<Rightarrow> (Inl p, s1)
      | (Inr outs, s1) \<Rightarrow>
          (case join_batch L N uri path (List.map_filter forwarded_msg outs) stage
                  (try_collect (List.map_filter intercepted_msg outs)) s1 of
             (Inl e, s2) \<Rightarrow> (Inr (into_response (to_vec L) (show_serde L) (response_of_error e)), s2)
           | (Inr (forwarded, intercepted), s2) \<Rightarrow>
               (let res_vec = merge_replies L forwarded intercepted in
                if res_vec = [] \<and> reqs \<noteq> [] then (Inr (Inr no_content), s2)
                else (Inr (json_reply (to_vec L) (show_serde L) OK (Array res_vec)), s2))))"

fun send :: "lib \<Rightarrow> 'w net \<Rightarrow> string \<Rightarrow> string \<Rightarrow> single_or_batch \<Rightarrow>
    (nat \<times> generic_request) list \<Rightarrow> forwarding \<Rightarrow> ('w, 'z) interceptor \<Rightarrow> ('w, 'z) sys_scheme \<Rightarrow>
    served \<times> ('w, 'z) sys_scheme" where
  "send L N uri path (Single req) order stage intercept s =
     send_single L N uri path req intercept s"
| "send L N uri path (Batch reqs) order stage intercept s =
     send_batched L N uri path reqs order stage intercept s"

section \<open>The proxy's own calls\<close>

datatype client_error =
    CSerde serde_error
  | CLoadAuth auth_load_error
  | CHyper string
  | CParseResponseUtf8 string status_code string serde_error
  | CResponseNotUtf8 string status_code

fun show_client_error :: "lib \<Rightarrow> client_error \<Rightarrow> string" where
  "show_client_error L (CSerde e) = ''serialization failed''"
| "show_client_error L (CLoadAuth e) = ''failed to load authentication data''"
| "show_client_error L (CHyper e) = ''hyper failed to process HTTP request''"
| "show_client_error L (CParseResponseUtf8 m st body e) =
     ''HTTP response (status: '' @ show_status L st @ '') to method '' @ m @
     '' can't be parsed as json, body: '' @ body"
| "show_client_error L (CResponseNotUtf8 m st) =
     ''HTTP response (status: '' @ show_status L st @ '') to method '' @ m @ '' is not UTF-8''"

definition rpc_error_of_client :: "lib \<Rightarrow> client_error \<Rightarrow> rpc_error" where
  "rpc_error_of_client L e = \<lparr>code = MISC_ERROR_CODE, message = show_client_error L e, status = None\<rparr>"

text \<open>
  \<open>call\<close>: \<open>ser\<close> renders the typed request, \<open>de\<close> reads the typed response, \<open>name\<close> is the
  method's \<open>as_str\<close>.
\<close>

definition call :: "lib \<Rightarrow> 'w net \<Rightarrow> string \<Rightarrow> string \<Rightarrow> (json \<Rightarrow> serde_error + 'r rpc_response) \<Rightarrow> json \<Rightarrow>
    ('w, 'z) sys_scheme \<Rightarrow> (client_error + 'r rpc_response) \<times> ('w, 'z) sys_scheme" where
  "call L N uri name de req s =
     (case load_auth L N s of
        (Inl e, s1) \<Rightarrow> (Inl (CLoadAuth e), s1)
      | (Inr header, s1) \<Rightarrow>
          (case to_string L req of
             Inl e \<Rightarrow> (Inl (CSerde e), s1)
           | Inr body \<Rightarrow>
               (case http_send N \<lparr>out_base = uri, out_path = ''/'', out_auth = header,
                        out_body = body\<rparr> s1 of
                  (Inl e, s2) \<Rightarrow> (Inl (CHyper e), s2)
                | (Inr response, s2) \<Rightarrow>
                    (case read_body N response s2 of
                       (Inl e, s3) \<Rightarrow> (Inl (CHyper e), s3)
                     | (Inr data, s3) \<Rightarrow>
                         (case (case parse_json L data of Inl e \<Rightarrow> Inl e | Inr v \<Rightarrow> de v) of
                            Inr r \<Rightarrow> (Inr r, s3)
                          | Inl e \<Rightarrow>
                              (case from_utf8 data of
                                 Some b \<Rightarrow>
                                   (Inl (CParseResponseUtf8 name (resp_status response) b e), s3)
                               | None \<Rightarrow>
                                   (Inl (CResponseNotUtf8 name (resp_status response)), s3)))))))"

section \<open>Library lemmas\<close>

text \<open>
  What \<open>itertools\<close> documents of \<open>merge_by\<close>: every element of both iterators, and in
  order when both are.
\<close>

definition merge_by_spec :: "lib \<Rightarrow> bool" where
  "merge_by_spec L \<longleftrightarrow>
     (\<forall>xs ys. mset (merge_by L (\<lambda>a b. fst a < fst b) xs ys) = mset xs + mset ys \<and>
        (sorted (map fst xs) \<longrightarrow> sorted (map fst ys) \<longrightarrow>
         sorted (map fst (merge_by L (\<lambda>a b. fst a < fst b) xs ys))))"

lemma map_filter_simps_case:
  "List.map_filter f (x # xs) = (case f x of None \<Rightarrow> List.map_filter f xs | Some y \<Rightarrow> y # List.map_filter f xs)"
  by (simp add: List.map_filter_simps)

lemma intercept_all_order:
  "intercept_all intercept path order s = (Inr outs, s1) \<Longrightarrow> map (\<lambda>(i, r, out). (i, r)) outs = order"
proof (induction order arbitrary: s outs s1)
  case (Cons x xs)
  then show ?case by (cases x) (auto split: prod.splits sum.splits)
qed simp

lemma try_collect_map_Inr [simp]: "try_collect (map Inr ys) = Inr ys"
  by (induction ys) auto

definition no_refusal :: "(nat \<times> generic_request \<times> outcome) list \<Rightarrow> bool" where
  "no_refusal outs \<longleftrightarrow> (\<forall>(i, r, out)\<in>set outs. \<not> isl out)"

fun proxy_reply :: "nat \<times> generic_request \<times> outcome \<Rightarrow> (nat \<times> json) option" where
  "proxy_reply (i, r, out) =
     (case out of Inr (Some res) \<Rightarrow> if is_notification r then None else Some (i, into_reply res r)
      | _ \<Rightarrow> None)"

lemma try_collect_intercepted:
  assumes "no_refusal outs"
  shows "try_collect (List.map_filter intercepted_msg outs) = Inr (List.map_filter proxy_reply outs)"
proof -
  have "List.map_filter intercepted_msg outs = map Inr (List.map_filter proxy_reply outs)"
    using assms
  proof (induction outs)
    case (Cons x xs)
    obtain i r out where x: "x = (i, r, out)" by (cases x) auto
    with Cons show ?case
      by (cases out) (auto simp: no_refusal_def map_filter_simps_case split: option.splits)
  qed (simp add: List.map_filter_simps)
  then show ?thesis by simp
qed

lemma answered_of_Cons:
  "answered_of ((i, r) # xs) = (if is_notification r then answered_of xs else i # answered_of xs)"
  by (simp add: answered_of_def)

lemma answered_split:
  assumes "no_refusal outs"
  shows "mset (answered_of (List.map_filter forwarded_msg outs)) +
           mset (map fst (List.map_filter proxy_reply outs)) =
         mset (answered_of (map (\<lambda>(i, r, out). (i, r)) outs))"
  using assms
proof (induction outs)
  case (Cons x xs)
  obtain i r out where x: "x = (i, r, out)" by (cases x) auto
  with Cons show ?case
    by (cases out)
       (auto simp: no_refusal_def map_filter_simps_case answered_of_Cons split: option.splits)
qed (simp add: List.map_filter_simps answered_of_def)

lemma answered_enumerate:
  "sorted (answered_of (enumerate n reqs))" "distinct (answered_of (enumerate n reqs))"
  unfolding answered_of_def by (simp_all add: sorted_filter distinct_map_filter)

lemma mset_answered: "mset xs = mset ys \<Longrightarrow> mset (answered_of xs) = mset (answered_of ys)"
  by (simp add: answered_of_def)

lemma sorted_mset_unique: "sorted xs \<Longrightarrow> sorted ys \<Longrightarrow> mset xs = mset ys \<Longrightarrow> xs = (ys :: nat list)"
  by (metis properties_for_sort)

lemma in_map_filter: "y \<in> set (List.map_filter f xs) \<longleftrightarrow> (\<exists>x\<in>set xs. f x = Some y)"
  by (induction xs) (auto simp: map_filter_simps_case List.map_filter_simps split: option.splits)

subsection \<open>What the client does to the state\<close>

text \<open>
  A relation between states that loading credentials and reading a body stay within. If
  every HTTP request the client may send stays within it as well, so does each operation of
  the client: its users choose the relation (what is left alone, what is sent) and get the
  rest from here. The requests that may be sent are those an operation builds from calls
  that the interceptor leaves to be forwarded.
\<close>

locale client_effect =
  fixes L :: lib and N :: "'w net"
    and R :: "('w, 'z) sys_scheme \<Rightarrow> ('w, 'z) sys_scheme \<Rightarrow> bool"
  assumes R_refl: "R s s"
    and R_trans: "R s t \<Longrightarrow> R t u \<Longrightarrow> R s u"
    and R_load_auth: "R s (snd (load_auth L N s))"
    and R_read_body: "R s (snd (read_body N resp s))"
begin

definition may_send :: "out_request \<Rightarrow> bool" where
  "may_send q \<longleftrightarrow> (\<forall>s. R s (snd (http_send N q s)))"

lemma step_load_auth: "load_auth L N s = (r, s1) \<Longrightarrow> R s s1"
  by (metis R_load_auth snd_conv)

lemma step_read_body: "R s s1 \<Longrightarrow> read_body N resp s1 = (r, s2) \<Longrightarrow> R s s2"
  by (metis R_read_body R_trans snd_conv)

lemma step_http: "R s s1 \<Longrightarrow> may_send q \<Longrightarrow> http_send N q s1 = (r, s2) \<Longrightarrow> R s s2"
  by (metis R_trans may_send_def snd_conv)

lemma effect_forward_single:
  assumes "\<And>pq a body. parse_path L path = Inr pq \<Longrightarrow> to_string L (ser_request req) = Inr body \<Longrightarrow>
      may_send \<lparr>out_base = uri, out_path = pq, out_auth = a, out_body = body\<rparr>"
  shows "R s (snd (forward_single L N uri path req s))"
  using assms R_refl
  by (auto simp: forward_single_def split: sum.splits prod.splits dest!: step_load_auth)
    (metis snd_conv step_http surjective_pairing)

lemma effect_batch_request:
  assumes "batch_request L N uri path fwd s = (r, s1)"
    and "\<And>pq a body. parse_path L path = Inr pq \<Longrightarrow>
      to_string L (Array (map (\<lambda>(idx, req). ser_request req) fwd)) = Inr body \<Longrightarrow>
      may_send \<lparr>out_base = uri, out_path = pq, out_auth = a, out_body = body\<rparr>"
  shows "R s s1 \<and> (\<forall>q. r = Inr q \<longrightarrow> may_send q)"
  using assms R_refl
  by (auto simp: batch_request_def split: sum.splits prod.splits dest!: step_load_auth)

lemma effect_send_until:
  assumes "\<And>pq a body. parse_path L path = Inr pq \<Longrightarrow>
      to_string L (Array (map (\<lambda>(idx, req). ser_request req) fwd)) = Inr body \<Longrightarrow>
      may_send \<lparr>out_base = uri, out_path = pq, out_auth = a, out_body = body\<rparr>"
  shows "R s (snd (send_batch L N uri path fwd s))" and "R s (snd (send_until L N uri path fwd stage s))"
proof -
  obtain r s1 where b: "batch_request L N uri path fwd s = (r, s1)" by fastforce
  note eff = effect_batch_request [OF b assms]
  show sent: "R s (snd (send_batch L N uri path fwd s))"
    using b eff by (auto simp: send_batch_def split: sum.splits prod.splits) (meson step_http step_read_body)+
  have "R s (snd (http_send N q s1))" if "r = Inr q" for q
    using eff that step_http by (metis surjective_pairing)
  then show "R s (snd (send_until L N uri path fwd stage s))"
    using b eff sent R_refl by (cases stage) (auto simp: send_until_def split: sum.splits)
qed

lemma effect_call:
  assumes "\<And>a body. to_string L req = Inr body \<Longrightarrow>
      may_send \<lparr>out_base = uri, out_path = ''/'', out_auth = a, out_body = body\<rparr>"
  shows "R s (snd (call L N uri name de req s))"
  using assms R_refl
  by (auto simp: call_def split: sum.splits prod.splits option.splits dest!: step_load_auth)
    (meson step_http step_read_body)+

lemma effect_intercept_all:
  assumes "\<And>i q s. (i, q) \<in> set order \<Longrightarrow> R s (snd (intercept path q s))"
  shows "R s (snd (intercept_all intercept path order s))"
  using assms
proof (induction order arbitrary: s)
  case (Cons x xs)
  obtain i q where x: "x = (i, q)" by fastforce
  obtain r1 s1 where 1: "intercept path q s = (r1, s1)" by fastforce
  have "R s s1" using Cons.prems [of i q s] x 1 by simp
  moreover have "R s1 (snd (intercept_all intercept path xs s1))" using Cons by auto
  ultimately have "R s (snd (intercept_all intercept path xs s1))" by (rule R_trans)
  then show ?case
    using x 1 \<open>R s s1\<close> by (auto split: sum.splits prod.splits)
qed (simp add: R_refl)

text \<open>A call of the batch that the interceptor leaves to be forwarded.\<close>

lemma forwarded_was_left:
  "intercept_all intercept path order s = (Inr outs, s1) \<Longrightarrow>
   (i, q) \<in> set (List.map_filter forwarded_msg outs) \<Longrightarrow>
   (i, q) \<in> set order \<and> (\<exists>s s1. intercept path q s = (Inr (Inr None), s1))"
proof (induction order arbitrary: s outs)
  case (Cons x xs)
  obtain j q' where x: "x = (j, q')" by fastforce
  from Cons.prems(1) x obtain o1 s2 os where 1: "intercept path q' s = (Inr o1, s2)"
    and 2: "intercept_all intercept path xs s2 = (Inr os, s1)" and os: "outs = (j, q', o1) # os"
    by (auto split: sum.splits prod.splits)
  show ?case
  proof (cases "(i, q) \<in> set (List.map_filter forwarded_msg os)")
    case True
    then show ?thesis using Cons.IH [OF 2] by auto
  next
    case False
    then have "o1 = Inr None" "i = j" "q = q'"
      using Cons.prems(2) os
      by (auto simp: List.map_filter_simps split: option.splits if_splits elim!: forwarded_msg.elims)
    then show ?thesis using 1 x by auto
  qed
qed (simp add: List.map_filter_simps)

lemma effect_send_batched:
  assumes intercept: "\<And>i q s. (i, q) \<in> set order \<Longrightarrow> R s (snd (intercept path q s))"
    and http: "\<And>pq a body qs. parse_path L path = Inr pq \<Longrightarrow> to_string L (Array (map ser_request qs)) = Inr body \<Longrightarrow>
      (\<forall>q\<in>set qs. (\<exists>i. (i, q) \<in> set order) \<and> (\<exists>s s1. intercept path q s = (Inr (Inr None), s1))) \<Longrightarrow>
      may_send \<lparr>out_base = uri, out_path = pq, out_auth = a, out_body = body\<rparr>"
  shows "R s (snd (send_batched L N uri path reqs order stage intercept s))"
proof -
  obtain r1 s1 where 1: "intercept_all intercept path order s = (r1, s1)" by fastforce
  have "R s (snd (intercept_all intercept path order s))"
    by (rule effect_intercept_all) (rule intercept)
  then have R1: "R s s1" using 1 by simp
  show ?thesis
  proof (cases r1)
    case (Inl p)
    then show ?thesis using 1 R1 by (simp add: send_batched_def)
  next
    case (Inr outs)
    let ?fwd = "List.map_filter forwarded_msg outs"
    have eq: "map (\<lambda>(idx, req). ser_request req) ?fwd = map ser_request (map snd ?fwd)"
      by (simp add: case_prod_beta')
    have left: "(\<exists>i. (i, q) \<in> set order) \<and> (\<exists>s s1. intercept path q s = (Inr (Inr None), s1))"
      if "q \<in> set (map snd ?fwd)" for q
      using that forwarded_was_left [OF 1 [unfolded Inr]] by fastforce
    have may: "may_send \<lparr>out_base = uri, out_path = pq, out_auth = a, out_body = body\<rparr>"
      if "parse_path L path = Inr pq" "to_string L (Array (map (\<lambda>(idx, req). ser_request req) ?fwd)) = Inr body"
      for pq a body
      using that left by (intro http [of pq "map snd ?fwd"]) (simp_all only: eq Ball_def, simp_all)
    have "R s (snd (send_batch L N uri path ?fwd s1))" "R s (snd (send_until L N uri path ?fwd stage s1))"
      using effect_send_until [OF may] R1 R_trans by blast+
    then show ?thesis
      using 1 Inr by (auto simp: send_batched_def join_batch_def Let_def split: sum.splits prod.splits option.splits)
  qed
qed

lemma effect_send:
  assumes intercept: "\<And>q s. R s (snd (intercept path q s))"
    and single: "\<And>pq a body q. req = Single q \<Longrightarrow> parse_path L path = Inr pq \<Longrightarrow>
      to_string L (ser_request q) = Inr body \<Longrightarrow> (\<exists>s s1. intercept path q s = (Inr (Inr None), s1)) \<Longrightarrow>
      may_send \<lparr>out_base = uri, out_path = pq, out_auth = a, out_body = body\<rparr>"
    and batch: "\<And>pq a body qs reqs. req = Batch reqs \<Longrightarrow> parse_path L path = Inr pq \<Longrightarrow>
      to_string L (Array (map ser_request qs)) = Inr body \<Longrightarrow>
      (\<forall>q\<in>set qs. (\<exists>i. (i, q) \<in> set order) \<and> (\<exists>s s1. intercept path q s = (Inr (Inr None), s1))) \<Longrightarrow>
      may_send \<lparr>out_base = uri, out_path = pq, out_auth = a, out_body = body\<rparr>"
  shows "R s (snd (send L N uri path req order stage intercept s))"
proof (cases req)
  case (Single q)
  obtain r1 s1 where 1: "intercept path q s = (r1, s1)" by fastforce
  have R1: "R s s1" using intercept 1 by (metis snd_conv)
  have "R s (snd (forward_single L N uri path q s1))" if "r1 = Inr (Inr None)"
    using R1 effect_forward_single [of path q uri s1] single [OF Single] 1 that R_trans by metis
  then show ?thesis
    using Single 1 R1 by (auto simp: send_single_def split: sum.splits option.splits)
next
  case (Batch reqs)
  have "R s (snd (send_batched L N uri path reqs order stage intercept s))"
    by (rule effect_send_batched) (rule intercept, rule batch [OF Batch])
  then show ?thesis using Batch by simp
qed

end

lemma merge_replies_pairs:
  assumes "merge_by_spec L"
  shows "\<exists>pairs. merge_replies L fwd ints = map snd pairs \<and> mset pairs = mset fwd + mset ints \<and>
           sorted (map fst pairs)"
proof (intro exI conjI)
  let ?m = "merge_by L (\<lambda>a b. fst a < fst b) (sort_key fst fwd) (sort_key fst ints)"
  show "merge_replies L fwd ints = map snd ?m" by (simp add: merge_replies_def)
  show "mset ?m = mset fwd + mset ints"
    using assms unfolding merge_by_spec_def by (simp add: mset_sort)
  show "sorted (map fst ?m)"
    using assms unfolding merge_by_spec_def by (simp add: sorted_sort_key)
qed

lemma order_request:
  assumes "mset order = mset (enumerate 0 reqs)" and "(i, r) \<in> set order"
  shows "i < length reqs \<and> r = reqs ! i"
  using assms(2) mset_eq_setD [OF assms(1)] by (simp add: in_set_enumerate_eq)

text \<open>
  What bitcoind is asked, in the order of completion, and what it says: the array in its answer,
  or nothing with a 204. Of the calls of a batch only those that are no notification expect a reply.
\<close>

definition left_to_bitcoind :: "(nat \<times> generic_request \<times> outcome) list \<Rightarrow> (nat \<times> generic_request) list" where
  "left_to_bitcoind outs = map (\<lambda>(i, r, out). (i, r)) (filter (\<lambda>(i, r, out). out = Inr None) outs)"

definition expecting_reply :: "(nat \<times> generic_request) list \<Rightarrow> (nat \<times> generic_request) list" where
  "expecting_reply calls = filter (\<lambda>(i, r). \<not> is_notification r) calls"

definition node_replies :: "lib \<Rightarrow> 'w net \<Rightarrow> out_request \<Rightarrow> ('w, 'z) sys_scheme \<Rightarrow> json list \<Rightarrow>
    ('w, 'z) sys_scheme \<Rightarrow> bool" where
  "node_replies L N q s replies s1 \<longleftrightarrow>
     (\<exists>resp s2. http_send N q s = (Inr resp, s2) \<and>
        (if resp_status resp = NO_CONTENT then replies = [] \<and> s1 = s2
         else \<exists>data. read_body N resp s2 = (Inr data, s1) \<and> parse_replies L data = Inr replies))"

lemma left_to_bitcoind_forwarded: "List.map_filter forwarded_msg outs = left_to_bitcoind outs"
proof (induction outs)
  case (Cons x xs)
  obtain i r out where "x = (i, r, out)" by (cases x) auto
  then show ?case
    using Cons by (cases "(i, r, out)" rule: forwarded_msg.cases) (auto simp: left_to_bitcoind_def map_filter_simps_case)
qed (simp add: left_to_bitcoind_def)

lemma answered_of_expecting: "answered_of calls = map fst (expecting_reply calls)"
  by (simp add: answered_of_def expecting_reply_def)

lemma answered_of_indices:
  "answered_of (enumerate 0 reqs) = filter (\<lambda>i. \<not> is_notification (reqs ! i)) [0..<length reqs]"
proof -
  have "enumerate 0 reqs = map (\<lambda>i. (i, reqs ! i)) [0..<length reqs]"
    by (rule nth_equalityI) (simp_all add: nth_enumerate_eq)
  then show ?thesis by (simp add: answered_of_def filter_map comp_def)
qed

lemma batch_request_body:
  assumes "batch_request L N uri path fwd s = (Inr q, s1)"
  shows "to_string L (Array (map (\<lambda>(i, r). ser_request r) fwd)) = Inr (out_body q)"
  using assms by (auto simp: batch_request_def split: sum.splits prod.splits)

lemma send_batch_replied:
  assumes "batch_request L N uri path fwd s = (Inr q, s1)" and "node_replies L N q s1 replies s2"
  shows "send_batch L N uri path fwd s = (Inr (zip (answered_of fwd) replies), s2)"
  using assms by (auto simp: send_batch_def node_replies_def split: if_splits)

section \<open>Properties\<close>

text \<open>
  C12: a batch is answered in request order, whatever order its calls finish in. When no call is
  refused, the calls the proxy leaves to bitcoind are exactly what is sent to it. If bitcoind
  then gives one reply for each of them that is no notification, which is what it documents of a
  batch, the answer holds exactly one entry per request that is not a notification, in the
  batch's own order: the proxy's reply to that very request where the proxy answered it, and
  otherwise the reply that stands in bitcoind's answer where that request stands among the
  calls left to it, the notifications not counted. Nothing to say is an empty 204.
\<close>

theorem batch_replies_in_request_order:
  assumes merge: "merge_by_spec L"
    and order: "mset order = mset (enumerate 0 reqs)"
    and run: "intercept_all intercept path order s = (Inr outs, s1)"
    and ok: "no_refusal outs"
    and built: "batch_request L N uri path (left_to_bitcoind outs) s1 = (Inr q, s2)"
    and replied: "node_replies L N q s2 replies s3"
    and answered: "length replies = length (expecting_reply (left_to_bitcoind outs))"
  shows "to_string L (Array (map (\<lambda>(i, r). ser_request r) (left_to_bitcoind outs))) = Inr (out_body q) \<and>
     (\<exists>pairs. map fst pairs = filter (\<lambda>i. \<not> is_notification (reqs ! i)) [0..<length reqs] \<and>
       (\<forall>i v. (i, v) \<in> set pairs \<longrightarrow>
          (\<exists>res. (i, reqs ! i, Inr (Some res)) \<in> set outs \<and> v = into_reply res (reqs ! i)) \<or>
          (\<exists>k<length replies. expecting_reply (left_to_bitcoind outs) ! k = (i, reqs ! i) \<and> v = replies ! k)) \<and>
       send_batched L N uri path reqs order stage intercept s =
         (Inr (if pairs = [] \<and> reqs \<noteq> [] then Inr no_content
               else json_reply (to_vec L) (show_serde L) OK (Array (map snd pairs))), s3))"
proof -
  let ?ints = "List.map_filter proxy_reply outs"
  let ?asked = "expecting_reply (left_to_bitcoind outs)"
  define fwd where "fwd = zip (map fst ?asked) replies"
  have sent: "send_batch L N uri path (List.map_filter forwarded_msg outs) s1 = (Inr fwd, s3)"
    using send_batch_replied [OF built replied] by (simp add: left_to_bitcoind_forwarded fwd_def answered_of_expecting)
  have fst_fwd: "map fst fwd = answered_of (List.map_filter forwarded_msg outs)"
    using answered by (simp add: fwd_def answered_of_expecting left_to_bitcoind_forwarded)
  obtain pairs where pairs: "merge_replies L fwd ?ints = map snd pairs"
    "mset pairs = mset fwd + mset ?ints" "sorted (map fst pairs)"
    using merge_replies_pairs [OF merge] by blast
  have ord: "map (\<lambda>(i, r, out). (i, r)) outs = order" using run by (rule intercept_all_order)
  have request: "r = reqs ! j" if "(j, r, out) \<in> set outs" for j r out
    using order_request [OF order] that unfolding ord [symmetric] by force
  have "mset (map fst pairs) = mset (map fst fwd) + mset (map fst ?ints)"
    using pairs(2) by (metis image_mset_union mset_map)
  also have "\<dots> = mset (answered_of (enumerate 0 reqs))"
    using answered_split [OF ok] mset_answered [OF order] by (simp add: fst_fwd ord)
  finally have "map fst pairs = answered_of (enumerate 0 reqs)"
    using pairs(3) answered_enumerate(1) by (intro sorted_mset_unique)
  then have idx: "map fst pairs = filter (\<lambda>i. \<not> is_notification (reqs ! i)) [0..<length reqs]"
    by (simp add: answered_of_indices)
  have "(\<exists>res. (i, reqs ! i, Inr (Some res)) \<in> set outs \<and> v = into_reply res (reqs ! i)) \<or>
      (\<exists>k<length replies. ?asked ! k = (i, reqs ! i) \<and> v = replies ! k)" if "(i, v) \<in> set pairs" for i v
  proof -
    have "(i, v) \<in> set fwd \<or> (i, v) \<in> set ?ints"
      using that pairs(2) by (metis UnE set_mset_mset set_mset_union)
    then show ?thesis
    proof
      assume "(i, v) \<in> set fwd"
      then obtain k where k: "k < length replies" "k < length ?asked" "i = fst (?asked ! k)" "v = replies ! k"
        using answered by (auto simp: fwd_def set_zip)
      then have "snd (?asked ! k) = reqs ! i"
        using request nth_mem [OF k(2)] by (auto simp: expecting_reply_def left_to_bitcoind_def)
      then show ?thesis using k by (metis prod.collapse)
    next
      assume "(i, v) \<in> set ?ints"
      then show ?thesis
        using request by (fastforce simp: in_map_filter split: sum.splits option.splits if_splits)
    qed
  qed
  moreover have "send_batched L N uri path reqs order stage intercept s =
       (Inr (if pairs = [] \<and> reqs \<noteq> [] then Inr no_content
             else json_reply (to_vec L) (show_serde L) OK (Array (map snd pairs))), s3)"
    using run sent try_collect_intercepted [OF ok] pairs(1)
    by (simp add: send_batched_def join_batch_def Let_def)
  ultimately show ?thesis using idx batch_request_body [OF built] by blast
qed

text \<open>A concrete library and network: one reply to every batch, and a textbook merge.\<close>

fun demo_merge :: "('a \<Rightarrow> 'a \<Rightarrow> bool) \<Rightarrow> 'a list \<Rightarrow> 'a list \<Rightarrow> 'a list" where
  "demo_merge lt [] ys = ys"
| "demo_merge lt xs [] = xs"
| "demo_merge lt (x # xs) (y # ys) =
     (if lt x y then x # demo_merge lt xs (y # ys) else y # demo_merge lt (x # xs) ys)"

definition demo_lib :: lib where
  "demo_lib = \<lparr>lib_codecs = demo_codecs, to_vec = (\<lambda>v. Inr [1]), to_string = (\<lambda>v. Inr ''json''),
     parse_json = (\<lambda>b. Inr (Array [String ''node''])), parse_path = Inr,
     show_serde = (\<lambda>e. ''serde''), show_auth = (\<lambda>e. ''auth''), show_status = (\<lambda>st. ''200 OK''),
     merge_by = demo_merge\<rparr>"

definition demo_net :: "unit net" where
  "demo_net = \<lparr>net_fs = \<lparr>fs_metadata = (\<lambda>p w. (Inl ''none'', w)), fs_read_to_string = (\<lambda>p w. (Inl ''none'', w))\<rparr>,
     http = (\<lambda>r w. (Inr \<lparr>resp_status = OK, resp_headers = [], resp_body = [2]\<rparr>, w)),
     to_bytes = (\<lambda>r w. (Inr (resp_body r), w))\<rparr>"

definition demo_sys :: "unit sys" where
  "demo_sys = \<lparr>auth = AuthConst ''u'' ''p'' ''Basic x'', world = ()\<rparr>"

lemma mset_demo_merge: "mset (demo_merge lt xs ys) = mset xs + mset ys"
  by (induction lt xs ys rule: demo_merge.induct) auto

lemma set_demo_merge: "set (demo_merge lt xs ys) = set xs \<union> set ys"
  by (induction lt xs ys rule: demo_merge.induct) auto

lemma sorted_demo_merge:
  fixes xs ys :: "(nat \<times> 'b) list"
  assumes "sorted (map fst xs)" and "sorted (map fst ys)"
  shows "sorted (map fst (demo_merge (\<lambda>a b. fst a < fst b) xs ys))"
  using assms
proof (induction "\<lambda>(a :: nat \<times> 'b) (b :: nat \<times> 'b). fst a < fst b" xs ys rule: demo_merge.induct)
  case (3 x xs y ys)
  then show ?case by (auto simp: set_demo_merge)
qed simp_all

lemma demo_merge_spec: "merge_by_spec demo_lib"
  by (simp add: merge_by_spec_def demo_lib_def mset_demo_merge sorted_demo_merge)

definition demo_req :: "string \<Rightarrow> json option \<Rightarrow> generic_request" where
  "demo_req m i = \<lparr>jsonrpc = Some (String ''2.0''), req_id = i, rpc_method = m, params = PArray []\<rparr>"

definition demo_answer :: "json rpc_response" where
  "demo_answer = \<lparr>resp_id = None, error = None, result = Some (Bool True)\<rparr>"

definition demo_intercept :: "(unit, unit) interceptor" where
  "demo_intercept p r s = (Inr (Inr (if rpc_method r = ''own'' then Some demo_answer else None)), s)"

abbreviation demo_batch :: "generic_request list" where
  "demo_batch \<equiv> [demo_req ''own'' (Some Null), demo_req ''note'' None, demo_req ''fwd'' (Some Null)]"

theorem batch_replies_in_request_order_witness:
  "\<exists>pairs. map fst pairs = [0, 2 :: nat] \<and>
     send_batched demo_lib demo_net ''u'' ''/'' demo_batch
       [(2, demo_req ''fwd'' (Some Null)), (1, demo_req ''note'' None), (0, demo_req ''own'' (Some Null))]
       Finished demo_intercept demo_sys =
     (Inr (json_reply (to_vec demo_lib) (show_serde demo_lib) OK (Array (map snd pairs))), demo_sys)"
proof -
  let ?f = "demo_req ''fwd'' (Some Null)" and ?n = "demo_req ''note'' None"
    and ?o = "demo_req ''own'' (Some Null)"
  let ?order = "[(2, ?f), (1, ?n), (0, ?o)]"
  let ?outs = "[(2, ?f, Inr None), (1, ?n, Inr None), (0, ?o, Inr (Some demo_answer))]"
  have mf: "List.map_filter forwarded_msg ?outs = [(2, ?f), (1, ?n)]"
    by (simp add: List.map_filter_simps)
  have ans: "answered_of [(2, ?f), (Suc 0, ?n)] = [2]" "answered_of (enumerate 0 demo_batch) = [0, 2]"
    by (simp_all add: answered_of_def is_notification_def is_v2_def demo_req_def enumerate_eq_zip)
  have perm: "mset ?order = mset (enumerate 0 demo_batch)"
    by (simp add: numeral_2_eq_2)
  have run: "intercept_all demo_intercept ''/'' ?order demo_sys = (Inr ?outs, demo_sys)"
    by (simp add: demo_intercept_def demo_req_def)
  have ok: "no_refusal ?outs" by (simp add: no_refusal_def)
  obtain q where built: "batch_request demo_lib demo_net ''u'' ''/'' (left_to_bitcoind ?outs) demo_sys = (Inr q, demo_sys)"
    by (simp add: batch_request_def demo_lib_def demo_net_def demo_sys_def load_auth_def)
  have replied: "node_replies demo_lib demo_net q demo_sys [String ''node''] demo_sys"
    by (simp add: node_replies_def demo_lib_def demo_net_def demo_sys_def http_send_def read_body_def parse_replies_def)
  have "length [String ''node''] = length (expecting_reply (left_to_bitcoind ?outs))"
    using arg_cong [OF ans(1), of length] by (simp add: answered_of_expecting mf flip: left_to_bitcoind_forwarded)
  from batch_replies_in_request_order [OF demo_merge_spec perm run ok built replied this, of Finished]
  obtain pairs where idx: "map fst pairs = [0, 2 :: nat]"
    and eq: "send_batched demo_lib demo_net ''u'' ''/'' demo_batch ?order Finished demo_intercept demo_sys =
       (Inr (if pairs = [] \<and> demo_batch \<noteq> [] then Inr no_content
             else json_reply (to_vec demo_lib) (show_serde demo_lib) OK (Array (map snd pairs))), demo_sys)"
    unfolding answered_of_indices [symmetric] ans(2) by (elim exE conjE) (rule that)
  from idx have "pairs \<noteq> []" by auto
  with idx eq show ?thesis by (intro exI [of _ pairs]) simp
qed

text \<open>
  C27: one refused call refuses its batch. Whatever else the batch holds, the answer is a
  single error response: the refusal that arrived first, with its own status, or the
  failure of the forwarding half when that came first. The forwarding half is dropped where
  it was: it has done nothing at all, or loaded the credentials, or its calls may have been
  sent, and then nobody reads the reply.
\<close>

theorem refused_call_refuses_batch:
  assumes "intercept_all intercept path order s = (Inr outs, s1)" and "\<not> no_refusal outs"
  shows "\<exists>e. fst (send_batched L N uri path reqs order stage intercept s) =
             Inr (into_response (to_vec L) (show_serde L) (response_of_error e)) \<and>
           ((\<exists>i r. (i, r, Inl e) \<in> set outs) \<or>
            stage \<noteq> NotBegun \<and> fst (send_batch L N uri path (List.map_filter forwarded_msg outs) s1) = Inl e) \<and>
           snd (send_batched L N uri path reqs order stage intercept s) =
             (let fwd = List.map_filter forwarded_msg outs; (r, s2) = batch_request L N uri path fwd s1 in
              case stage of
                NotBegun \<Rightarrow> s1
              | Loaded \<Rightarrow> s2
              | Requested \<Rightarrow> (case r of Inl _ \<Rightarrow> s2 | Inr q \<Rightarrow> snd (http_send N q s2))
              | Finished \<Rightarrow> snd (send_batch L N uri path fwd s1))"
proof -
  have "\<exists>i r e. (i, r, Inl e) \<in> set outs \<and> try_collect (List.map_filter intercepted_msg outs) = Inl e"
    using assms(2)
  proof (induction outs)
    case (Cons x xs)
    obtain i r out where x: "x = (i, r, out)" by (cases x) auto
    show ?case
    proof (cases out)
      case (Inl e)
      then show ?thesis using x by (auto simp: map_filter_simps_case)
    next
      case (Inr a)
      then have "\<not> no_refusal xs" using Cons.prems x by (simp add: no_refusal_def)
      then obtain j q e where IH: "(j, q, Inl e) \<in> set xs"
        "try_collect (List.map_filter intercepted_msg xs) = Inl e" using Cons.IH by blast
      have "try_collect (List.map_filter intercepted_msg (x # xs)) = Inl e"
        using IH(2) Inr x by (cases a) (simp_all add: map_filter_simps_case)
      then show ?thesis using IH(1) by (meson list.set_intros(2))
    qed
  qed (simp add: no_refusal_def)
  then obtain i r e where e: "(i, r, Inl e) \<in> set outs"
    "try_collect (List.map_filter intercepted_msg outs) = Inl e" by blast
  obtain sr s3 where sent: "send_batch L N uri path (List.map_filter forwarded_msg outs) s1 = (sr, s3)"
    by fastforce
  obtain br s2 where req: "batch_request L N uri path (List.map_filter forwarded_msg outs) s1 = (br, s2)"
    by fastforce
  have "sr = Inl e'" if "br = Inl e'" for e' using sent req that by (simp add: send_batch_def)
  then show ?thesis
    using assms(1) e sent req
    by (cases stage; cases sr; cases br) (auto simp: send_batched_def join_batch_def send_until_def)
qed

theorem refused_call_refuses_batch_witness:
  "let refuse = (\<lambda>p r s. (if rpc_method r = ''own'' then Inr (Inl internal_server_error) else Inr (Inr None), s)) in
   snd (send_batched demo_lib demo_net ''u'' ''/'' [demo_req ''own'' None, demo_req ''fwd'' None]
     [(1, demo_req ''fwd'' None), (0, demo_req ''own'' None)] NotBegun refuse demo_sys) = demo_sys"
proof -
  let ?refuse = "\<lambda>p r s. (if rpc_method r = ''own'' then Inr (Inl internal_server_error) else Inr (Inr None), s)"
  let ?outs = "[(1, demo_req ''fwd'' None, Inr None), (0, demo_req ''own'' None, Inl internal_server_error)]"
  have run: "intercept_all ?refuse ''/'' [(1, demo_req ''fwd'' None), (0, demo_req ''own'' None)] demo_sys =
        (Inr ?outs, demo_sys)"
    by (simp add: demo_req_def)
  have "\<not> no_refusal ?outs" by (simp add: no_refusal_def)
  from refused_call_refuses_batch [OF run this, of demo_lib demo_net "''u''"
      "[demo_req ''own'' None, demo_req ''fwd'' None]" NotBegun]
  show ?thesis unfolding Let_def by auto
qed

end
