(* ===== verification/Password.thy ===== *)
theory Password
  imports File_World
begin

text \<open>
  Module \<open>password\<close> of \<open>src/users.rs\<close>: the passwords of the proxy's own users, in
  clear, as a salted HMAC, or followed in bitcoind's cookie file, and the comparison of
  one with what a client presents. The comparison indexes the presented password modulo
  its length; where that length is zero Rust panics, which is a value of the model.
\<close>

section \<open>State and operations\<close>

datatype password =
    Cleartext string
  | Hash string bytes
  | CookieFile path "(time \<times> string) option"

datatype invalid_password_error = BadChar nat u8 | NonAscii

subsection \<open>The cookie\<close>

text \<open>The password half of a cookie file's contents.\<close>

definition password_half :: "string \<Rightarrow> string option" where
  "password_half contents =
     map_option snd (split_once CHR '':'' (trim_end_matches (CHR 0x0A) contents))"

definition stat_ok :: "'w fs \<Rightarrow> path \<Rightarrow> 'w \<Rightarrow> time option \<times> 'w" where
  "stat_ok fs path w =
     (case fs_metadata fs path w of
        (Inr (Inr mtime), w') \<Rightarrow> (Some mtime, w')
      | (_, w') \<Rightarrow> (None, w'))"

definition read_and_restat :: "'w fs \<Rightarrow> path \<Rightarrow> (time \<times> string) option \<Rightarrow> 'w \<Rightarrow>
    string option \<times> (time \<times> string) option \<times> 'w" where
  "read_and_restat fs path cached w =
     (case fs_read_to_string fs path w of
        (Inl e, w1) \<Rightarrow> (None, cached, w1)
      | (Inr contents, w1) \<Rightarrow>
          (case password_half contents of
             None \<Rightarrow> (None, cached, w1)
           | Some pw \<Rightarrow>
               (case stat_ok fs path w1 of
                  (Some mtime, w2) \<Rightarrow> (Some pw, Some (mtime, pw), w2)
                | (None, w2) \<Rightarrow> (Some pw, cached, w2))))"

definition cookie_password :: "'w fs \<Rightarrow> path \<Rightarrow> (time \<times> string) option \<Rightarrow> 'w \<Rightarrow>
    string option \<times> (time \<times> string) option \<times> 'w" where
  "cookie_password fs path cached w =
     (case stat_ok fs path w of
        (mtime, w1) \<Rightarrow>
          (case (mtime, cached) of
             (Some m, Some (seen, pw)) \<Rightarrow>
               if seen = m then (Some pw, cached, w1) else read_and_restat fs path cached w1
           | _ \<Rightarrow> read_and_restat fs path cached w1))"

subsection \<open>Construction\<close>

fun validate_bytes :: "nat \<Rightarrow> bytes \<Rightarrow> invalid_password_error + unit" where
  "validate_bytes pos [] = Inr ()"
| "validate_bytes pos (byte # rest) =
     (if byte \<le> 0x1F \<or> 0x7F \<le> byte then Inl (BadChar pos byte) else validate_bytes (Suc pos) rest)"

definition validate_str :: "string \<Rightarrow> invalid_password_error + unit" where
  "validate_str string = validate_bytes 0 (as_bytes string)"

definition password_try_from :: "string \<Rightarrow> invalid_password_error + password" where
  "password_try_from string = map_sum id (\<lambda>_. Cleartext string) (validate_str string)"

text \<open>\<open>parse_arg\<close>: an operating-system string that is no UTF-8 has no \<open>str\<close>.\<close>

definition parse_arg :: "string option \<Rightarrow> invalid_password_error + password" where
  "parse_arg arg = (case arg of None \<Rightarrow> Inl NonAscii | Some string \<Rightarrow> password_try_from string)"

subsection \<open>Comparison\<close>

fun xor_fold :: "bytes \<Rightarrow> nat \<Rightarrow> bytes \<Rightarrow> usize \<Rightarrow> panic + usize" where
  "xor_fold b i [] acc = Inr acc"
| "xor_fold b i (byte # rest) acc =
     (if length b = 0 then Inl RemainderByZero
      else xor_fold b (Suc i) rest (acc OR ucast (byte XOR b ! (i mod length b))))"

definition xor_contents :: "bytes \<Rightarrow> bytes \<Rightarrow> panic + usize" where
  "xor_contents a b = xor_fold b 0 a (word_of_nat (length a) XOR word_of_nat (length b))"

definition same_contents :: "string \<Rightarrow> string \<Rightarrow> panic + bool" where
  "same_contents pw other = map_sum id (\<lambda>bits. bits = 0) (xor_contents (as_bytes pw) (as_bytes other))"

text \<open>\<open>hmac key message\<close> is the HMAC-SHA256 of the crates; \<open>None\<close> when it refuses the key.\<close>

fun password_eq :: "(bytes \<Rightarrow> bytes \<Rightarrow> bytes option) \<Rightarrow> 'w fs \<Rightarrow> password \<Rightarrow> string \<Rightarrow> 'w \<Rightarrow>
    (panic + bool) \<times> password \<times> 'w" where
  "password_eq hmac fs (Cleartext pw) other w =
     (if pw = [] then Inr (other = []) else same_contents pw other, Cleartext pw, w)"
| "password_eq hmac fs (Hash salt hash) other w =
     (Inr (hmac (as_bytes salt) (as_bytes other) = Some hash), Hash salt hash, w)"
| "password_eq hmac fs (CookieFile path cached) other w =
     (case cookie_password fs path cached w of
        (found, cached', w') \<Rightarrow>
          (case found of
             Some pw \<Rightarrow> if pw \<noteq> [] then same_contents pw other else Inr (pw = [] \<and> other = [])
           | None \<Rightarrow> Inr False,
           CookieFile path cached', w'))"

text \<open>A file rewritten once: the first contents up to the instant \<open>k\<close>, the second from then on.\<close>

definition rewritten :: "nat \<Rightarrow> string \<Rightarrow> string \<Rightarrow> history" where
  "rewritten k c0 c1 n = (if n < k then Some (1, c0) else Some (2, c1))"

section \<open>Library lemmas\<close>

lemma honest_rewritten: "honest_history (rewritten k c0 c1)"
  by (auto simp: honest_history_def rewritten_def split: if_splits)

lemma xor_zero_iff: "(x :: 'a::len word) XOR y = 0 \<longleftrightarrow> x = y"
  by (metis xor.assoc xor.left_neutral xor.right_neutral xor_self_eq)

lemma ucast_zero_iff: "(ucast (w :: u8) :: usize) = 0 \<longleftrightarrow> w = 0"
proof
  assume "(ucast w :: usize) = 0"
  then have "uint (ucast w :: usize) = 0" by simp
  moreover have "uint (ucast w :: usize) = uint w"
    using unsigned_less [where w = w and 'a = int] by (simp add: uint_up_ucast is_up)
  ultimately show "w = 0" by (simp add: word_uint_eq_iff)
qed simp

lemma xor_fold_zero:
  assumes "b \<noteq> []"
  shows "\<exists>r. xor_fold b i xs acc = Inr r \<and>
           (r = 0 \<longleftrightarrow> acc = 0 \<and> (\<forall>j<length xs. xs ! j = b ! ((i + j) mod length b)))"
  using assms
proof (induction xs arbitrary: i acc)
  case (Cons x xs)
  obtain r where r: "xor_fold b (Suc i) xs (acc OR ucast (x XOR b ! (i mod length b))) = Inr r"
    and eq: "r = 0 \<longleftrightarrow> acc OR ucast (x XOR b ! (i mod length b)) = 0 \<and>
      (\<forall>j<length xs. xs ! j = b ! ((Suc i + j) mod length b))"
    using Cons.IH [OF Cons.prems] by blast
  have "(\<forall>j<length (x # xs). (x # xs) ! j = b ! ((i + j) mod length b)) \<longleftrightarrow>
      x = b ! (i mod length b) \<and> (\<forall>j<length xs. xs ! j = b ! ((Suc i + j) mod length b))"
    by (auto simp: nth_Cons split: nat.splits)
  then show ?case
    using r eq Cons.prems by (auto simp: or_eq_0_iff ucast_zero_iff xor_zero_iff)
qed simp

lemma xor_contents_zero:
  assumes "b \<noteq> []" and "length a < 2 ^ 64" and "length b < 2 ^ 64"
  shows "\<exists>r. xor_contents a b = Inr r \<and> (r = 0 \<longleftrightarrow> a = b)"
proof -
  have len: "(word_of_nat (length a) :: usize) = word_of_nat (length b) \<longleftrightarrow> length a = length b"
  proof -
    have "unat (word_of_nat (length a) :: usize) = length a"
      and "unat (word_of_nat (length b) :: usize) = length b"
      using assms(2,3) by (simp_all add: unat_of_nat)
    then show ?thesis by metis
  qed
  obtain r where r: "xor_contents a b = Inr r"
    and z: "r = 0 \<longleftrightarrow> word_of_nat (length a) XOR word_of_nat (length b) = (0 :: usize) \<and>
      (\<forall>j<length a. a ! j = b ! (j mod length b))"
    using xor_fold_zero [OF assms(1), of 0 a "word_of_nat (length a) XOR word_of_nat (length b)"]
    unfolding xor_contents_def add_0 by blast
  have "r = 0 \<longleftrightarrow> length a = length b \<and> (\<forall>j<length a. a ! j = b ! (j mod length b))"
    unfolding z xor_zero_iff len ..
  also have "\<dots> \<longleftrightarrow> a = b" by (auto simp: list_eq_iff_nth_eq)
  finally show ?thesis using r by blast
qed

lemma same_contents_iff:
  assumes "other \<noteq> []" and "length pw < 2 ^ 64" and "length other < 2 ^ 64"
  shows "same_contents pw other = Inr (pw = other)"
proof -
  have "as_bytes other \<noteq> []" using assms(1) by (simp add: as_bytes_def)
  then obtain r where "xor_contents (as_bytes pw) (as_bytes other) = Inr r"
    and "r = 0 \<longleftrightarrow> pw = other"
    using xor_contents_zero [of "as_bytes other" "as_bytes pw"] assms by auto
  then show ?thesis by (simp add: same_contents_def)
qed

lemma same_contents_panic_iff:
  "same_contents pw other = Inl e \<longleftrightarrow> e = RemainderByZero \<and> other = [] \<and> pw \<noteq> []"
proof (cases "other = []")
  case True
  then show ?thesis by (cases pw) (auto simp: same_contents_def xor_contents_def as_bytes_def)
next
  case False
  then have "as_bytes other \<noteq> []" by (simp add: as_bytes_def)
  then obtain r where "xor_contents (as_bytes pw) (as_bytes other) = Inr r"
    unfolding xor_contents_def using xor_fold_zero by blast
  then show ?thesis using False by (simp add: same_contents_def)
qed

subsection \<open>The cookie over a history\<close>

lemma stat_ok_trace: "stat_ok (trace_fs H) p n = (map_option fst (H n), Suc n)"
  by (simp add: stat_ok_def split: option.splits prod.splits)

lemma read_and_restat_trace:
  "read_and_restat (trace_fs H) p cached n =
     (case H n of
        None \<Rightarrow> (None, cached, Suc n)
      | Some (m, c) \<Rightarrow>
          (case password_half c of
             None \<Rightarrow> (None, cached, Suc n)
           | Some pw \<Rightarrow>
               (Some pw, (case H (Suc n) of None \<Rightarrow> cached | Some (m', c') \<Rightarrow> Some (m', pw)), Suc (Suc n))))"
  by (simp add: read_and_restat_def stat_ok_trace split: option.splits prod.splits)

text \<open>A file that stands still during a comparison: the cache and the read agree on its password.\<close>

lemma cookie_password_still:
  assumes "coherent H password_half n cached" and "H n = Some (m, c)" and "H (Suc n) = Some (m, c)"
  shows "fst (cookie_password (trace_fs H) p cached n) = password_half c"
proof (cases "\<exists>pw. cached = Some (m, pw)")
  case True
  then obtain pw where pw: "cached = Some (m, pw)" by blast
  then have "password_half c = Some pw" using assms(1,2) by (auto intro: coherent_hit)
  then show ?thesis using assms(2) pw by (simp add: cookie_password_def stat_ok_trace)
next
  case False
  then have "fst (cookie_password (trace_fs H) p cached n) = fst (read_and_restat (trace_fs H) p cached (Suc n))"
    using assms(2) by (auto simp: cookie_password_def stat_ok_trace split: option.splits prod.splits)
  then show ?thesis by (simp add: read_and_restat_trace assms(3) split: option.splits)
qed

section \<open>Properties\<close>

text \<open>
  C36: the comparison that does not branch on the contents is equality. Against a
  presented password that is not empty, the XOR-and-OR fold over both, wrapped indices
  included, says exactly whether the two strings are the same.
\<close>

theorem cleartext_comparison_is_equality:
  assumes "other \<noteq> []" and "length pw < 2 ^ 64" and "length other < 2 ^ 64"
  shows "password_eq hmac fs (Cleartext pw) other w = (Inr (pw = other), Cleartext pw, w)"
  using assms by (auto simp: same_contents_iff)

theorem cleartext_comparison_is_equality_witness:
  "fst (password_eq (\<lambda>k m. None) (trace_fs (\<lambda>n. None)) (Cleartext ''secret'') ''secretsecret'' 0) = Inr False"
  using cleartext_comparison_is_equality [of "''secretsecret''" "''secret''"] by simp

text \<open>
  C38: an empty presented password panics, and nothing else does. A comparison panics exactly
  when what the client presents is empty while the password it is compared with is not: the
  modulus of the wrapped index is the length of what the client sent, so an empty one divides
  by zero instead of comparing unequal. That is the configured password of a user with one in
  clear, never the hash, and for a cookie user whatever the file or the cache gives: over any
  history of the file, with any cache that agrees with it, none at first, a file with a
  non-empty password that stands still while it is read makes the comparison panic.
\<close>

theorem empty_presented_password_panics:
  shows "(fst (password_eq hm fs pw other w) = Inl e \<longleftrightarrow>
          e = RemainderByZero \<and> other = [] \<and>
          (case pw of
             Cleartext clear \<Rightarrow> clear \<noteq> []
           | Hash _ _ \<Rightarrow> False
           | CookieFile p cached \<Rightarrow> \<exists>found. fst (cookie_password fs p cached w) = Some found \<and> found \<noteq> [])) \<and>
         (coherent H password_half n cached \<and> H n = Some (m, c) \<and> H (Suc n) = Some (m, c) \<and>
          password_half c = Some secret \<and> secret \<noteq> [] \<longrightarrow>
          fst (password_eq hm (trace_fs H) (CookieFile path cached) [] n) = Inl RemainderByZero)"
proof -
  have panics: "fst (password_eq hm fs pw other w) = Inl e \<longleftrightarrow>
      e = RemainderByZero \<and> other = [] \<and>
      (case pw of
         Cleartext clear \<Rightarrow> clear \<noteq> []
       | Hash _ _ \<Rightarrow> False
       | CookieFile p cached \<Rightarrow> \<exists>found. fst (cookie_password fs p cached w) = Some found \<and> found \<noteq> [])"
    for fs :: "'a fs" and pw other w e
    by (cases pw) (auto simp: same_contents_panic_iff split: prod.splits option.splits)
  show ?thesis
    unfolding panics using cookie_password_still [of H n cached m c path]
    by (cases "cookie_password (trace_fs H) path cached n") (auto simp: same_contents_panic_iff)
qed

theorem empty_presented_password_panics_witness:
  "fst (password_eq (\<lambda>k m. None) (trace_fs (\<lambda>n. None)) (Cleartext ''public'') [] 0) = Inl RemainderByZero \<and>
   fst (password_eq (\<lambda>k m. None) (trace_fs (rewritten 2 ''u:a'' ''u:b'')) (CookieFile ''c'' None) [] 0) = Inl RemainderByZero"
proof -
  have "password_half ''u:a'' = Some ''a''" by (simp add: password_half_def trim_end_matches_def)
  then show ?thesis
    using empty_presented_password_panics [of "\<lambda>k m. None" "trace_fs (\<lambda>n. None)" "Cleartext ''public''" "[]" 0 RemainderByZero
        "rewritten 2 ''u:a'' ''u:b''" 0 None 1 "''u:a''" "''a''" "''c''"]
    by (simp add: rewritten_def)
qed

text \<open>
  C21: a cookie password is followed as long as no replacement falls between the read and
  the second \<open>stat\<close> of one comparison. Over any history of the file without such a
  replacement at instant \<open>n\<close>, a comparison keeps its cache coherent, and a comparison
  during which the file stands still yields the password half of the current contents.
\<close>

theorem cookie_password_follows_file:
  assumes "honest_history H" and "coherent H password_half n cached"
    and "H (Suc n) = H (Suc (Suc n))"
    and "cookie_password (trace_fs H) p cached n = (found, cached', n')"
  shows "coherent H password_half n' cached' \<and>
         (\<forall>m c. H n = Some (m, c) \<longrightarrow> H (Suc n) = Some (m, c) \<longrightarrow> found = password_half c)"
proof -
  have later: "coherent H password_half k cached" if "n \<le> k" for k
    using assms(2) that by (rule coherent_later)
  have new: "coherent H password_half (Suc (Suc (Suc n))) (Some (m, pw))"
    if "H (Suc n) = Some (m, c)" and "password_half c = Some pw" for m c pw
    by (rule coherent_later [where n = "Suc n"])
       (simp_all add: coherent_stat_before_read [OF assms(1) that(1,1)] that(2))
  show ?thesis
  proof (cases "H n \<noteq> None \<and> cached \<noteq> None \<and> fst (the (H n)) = fst (the cached)")
    case True
    then obtain m c pw where h: "H n = Some (m, c)" and ca: "cached = Some (m, pw)" by auto
    then have "password_half c = Some pw" using assms(2) by (auto intro: coherent_hit)
    then show ?thesis
      using assms(4) h ca later [of "Suc n"] by (auto simp: cookie_password_def stat_ok_trace)
  next
    case False
    then have "read_and_restat (trace_fs H) p cached (Suc n) = (found, cached', n')"
      using assms(4)
      by (auto simp: cookie_password_def stat_ok_trace split: option.splits prod.splits if_splits)
    then show ?thesis
      using assms(3) later new
      by (auto simp: read_and_restat_trace split: option.splits prod.splits)
  qed
qed

theorem cookie_password_follows_file_witness:
  "fst (cookie_password (trace_fs (rewritten 2 ''u:a'' ''u:b'')) ''c'' (Some (1, ''a'')) 2) = Some ''b''"
proof -
  let ?H = "rewritten 2 ''u:a'' ''u:b''"
  have half: "password_half ''u:a'' = Some ''a''" "password_half ''u:b'' = Some ''b''"
    by (simp_all add: password_half_def trim_end_matches_def)
  have coh: "coherent ?H password_half 2 (Some (1, ''a''))"
    by (auto simp: coherent_def rewritten_def)
  obtain found cached' n' where run:
    "cookie_password (trace_fs ?H) ''c'' (Some (1, ''a'')) 2 = (found, cached', n')"
    by (rule prod_cases3)
  have still: "?H (Suc 2) = ?H (Suc (Suc 2))" by (simp add: rewritten_def)
  have "\<forall>m c. ?H 2 = Some (m, c) \<longrightarrow> ?H (Suc 2) = Some (m, c) \<longrightarrow> found = password_half c"
    using cookie_password_follows_file [OF honest_rewritten coh still run] by blast
  then have "found = Some ''b''" by (simp add: rewritten_def half)
  with run show ?thesis by simp
qed

text \<open>
  C39: the second \<open>stat\<close> caches a password against the time of contents that were never
  read. When bitcoind rewrites its cookie between the read and that \<open>stat\<close>, the old
  password is cached under the new file's time: from then on, for as long as the file
  stays as bitcoind wrote it, every comparison uses the old password.
\<close>

theorem restart_during_comparison_keeps_old_password:
  assumes "password_half c0 = Some old"
  shows "cookie_password (trace_fs (rewritten 2 c0 c1)) p None 0 = (Some old, Some (2, old), 3) \<and>
         (\<forall>n\<ge>3. cookie_password (trace_fs (rewritten 2 c0 c1)) p (Some (2, old)) n =
                 (Some old, Some (2, old), Suc n))"
  using assms
  by (simp add: cookie_password_def stat_ok_trace read_and_restat_trace rewritten_def numeral_3_eq_3)

theorem restart_during_comparison_keeps_old_password_witness:
  "cookie_password (trace_fs (rewritten 2 ''u:old'' ''u:new'')) ''c'' None 0 =
     (Some ''old'', Some (2, ''old''), 3) \<and>
   fst (password_eq (\<lambda>k m. None) (trace_fs (rewritten 2 ''u:old'' ''u:new''))
     (CookieFile ''c'' (Some (2, ''old''))) ''new'' 100) = Inr False"
proof -
  have "password_half ''u:old'' = Some ''old''"
    by (simp add: password_half_def trim_end_matches_def)
  from restart_during_comparison_keeps_old_password [OF this, of "''u:new''" "''c''"]
  show ?thesis by (simp add: same_contents_iff)
qed

end
