(* ===== verification/Users.thy ===== *)
theory Users
  imports Password
begin

text \<open>
  The users of \<open>src/users.rs\<close>: their configuration (\<open>input::User\<close>), what it becomes at
  start (\<open>map_default\<close>), and \<open>Users::get\<close>, which turns an \<open>Authorization\<close> header into a
  user. The user map is a finite map; a comparison may update the cookie cached inside a
  user's password, so \<open>users_get\<close> returns the map.
\<close>

section \<open>State and operations\<close>

record input_user =
  in_password :: password
  in_allowed_calls :: "string fset option"
  in_fetch_blocks :: "bool option"
  in_override_wallet :: "string option"

record user =
  user_password :: password
  allowed_calls :: "string fset option"
  fetch_blocks :: bool
  override_wallet :: "string option"

type_synonym users = "(string, user) fmap"

definition user_map_default :: "bool \<Rightarrow> input_user \<Rightarrow> user" where
  "user_map_default default_fetch_blocks u =
     \<lparr>user_password = in_password u,
      allowed_calls = in_allowed_calls u,
      fetch_blocks = (case in_fetch_blocks u of Some b \<Rightarrow> b | None \<Rightarrow> default_fetch_blocks),
      override_wallet = map_option (\<lambda>wallet. ''/wallet/'' @ wallet) (in_override_wallet u)\<rparr>"

definition map_default :: "(string, input_user) fmap \<Rightarrow> bool \<Rightarrow> users" where
  "map_default us default_fetch_blocks = fmmap (user_map_default default_fetch_blocks) us"

text \<open>
  The functions of other crates that authentication calls: \<open>HeaderValue::to_str\<close>,
  \<open>base64::decode\<close> and HMAC-SHA256.
\<close>

record auth_lib =
  to_str :: "bytes \<Rightarrow> string option"
  base64_decode :: "string \<Rightarrow> bytes option"
  hmac :: "bytes \<Rightarrow> bytes \<Rightarrow> bytes option"

definition credentials :: "auth_lib \<Rightarrow> bytes \<Rightarrow> (string \<times> string) option" where
  "credentials A header =
     Option.bind (to_str A header) (\<lambda>header_str.
     Option.bind (strip_prefix ''Basic '' header_str) (\<lambda>auth.
     Option.bind (base64_decode A auth) (\<lambda>auth_decoded.
     Option.bind (from_utf8 auth_decoded) (\<lambda>auth_decoded_str.
     split_once CHR '':'' auth_decoded_str))))"

definition users_get :: "auth_lib \<Rightarrow> 'w fs \<Rightarrow> users \<Rightarrow> bytes \<Rightarrow> 'w \<Rightarrow>
    (panic + (string \<times> user) option) \<times> users \<times> 'w" where
  "users_get A fs us header w =
     (case credentials A header of
        None \<Rightarrow> (Inr None, us, w)
      | Some (name, pass) \<Rightarrow>
          (case fmlookup us name of
             None \<Rightarrow> (Inr None, us, w)
           | Some u \<Rightarrow>
               (case password_eq (hmac A) fs (user_password u) pass w of
                  (r, pw', w') \<Rightarrow>
                    (let u' = u\<lparr>user_password := pw'\<rparr> in
                     (map_sum id (\<lambda>ok. if ok then Some (name, u') else None) r,
                      fmupd name u' us, w')))))"

section \<open>Library lemmas\<close>

lemma fmupd_same: "fmlookup m k = Some v \<Longrightarrow> fmupd k v m = m"
  by (rule fmap_ext) auto

text \<open>Permissions of a user: everything but the password, which a comparison may touch.\<close>

definition same_permissions :: "user \<Rightarrow> user \<Rightarrow> bool" where
  "same_permissions u v \<longleftrightarrow> allowed_calls u = allowed_calls v \<and> fetch_blocks u = fetch_blocks v \<and>
     override_wallet u = override_wallet v"

text \<open>
  The password of a user but for the cached cookie, and the passwords that prove a user whose
  password is configured: the clear one, or any with the configured hash. The user of a cookie
  has no password of the configuration.
\<close>

fun forget_cache :: "password \<Rightarrow> password" where
  "forget_cache (CookieFile p c) = CookieFile p None"
| "forget_cache pw = pw"

definition same_user :: "user \<Rightarrow> user \<Rightarrow> bool" where
  "same_user u v \<longleftrightarrow> same_permissions u v \<and> forget_cache (user_password u) = forget_cache (user_password v)"

lemma same_user_preorder: "same_user u u" "same_user u v \<Longrightarrow> same_user v x \<Longrightarrow> same_user u x"
  by (simp_all add: same_user_def same_permissions_def)

definition proves :: "auth_lib \<Rightarrow> user \<Rightarrow> string \<Rightarrow> bool" where
  "proves A u pass \<longleftrightarrow>
     (case user_password u of
        Cleartext pw \<Rightarrow> length pw < 2 ^ 64 \<longrightarrow> length pass < 2 ^ 64 \<longrightarrow> pass = pw
      | Hash salt hash \<Rightarrow> hmac A (as_bytes salt) (as_bytes pass) = Some hash
      | CookieFile p c \<Rightarrow> False)"

lemma password_eq_frame:
  "password_eq hm fs pw other w = (r, pw', w') \<Longrightarrow> forget_cache pw' = forget_cache pw"
  by (cases pw) (auto split: prod.splits)

lemma same_contents_empty: "pw \<noteq> [] \<Longrightarrow> same_contents pw [] \<noteq> Inr True"
  by (cases pw) (simp_all add: same_contents_def xor_contents_def as_bytes_def)

lemma password_eq_proves:
  assumes "fst (password_eq (hmac A) fs (user_password u) pass w) = Inr True" and "same_user u v"
    and "\<And>p c. user_password v \<noteq> CookieFile p c"
  shows "proves A v pass"
proof (cases "user_password v")
  case (Cleartext pw)
  then have u: "user_password u = Cleartext pw" using assms(2) by (cases "user_password u") (simp_all add: same_user_def)
  have "pass = pw" if "length pw < 2 ^ 64" "length pass < 2 ^ 64"
    using assms(1) u same_contents_iff [of pass pw] that same_contents_empty [of pw]
    by (cases "pass = []") (auto split: if_splits)
  then show ?thesis using Cleartext by (simp add: proves_def)
next
  case (Hash salt hash)
  then have "user_password u = Hash salt hash" using assms(2) by (cases "user_password u") (simp_all add: same_user_def)
  then show ?thesis using assms(1) Hash by (simp add: proves_def)
qed (use assms(3) in simp)

lemma users_get_Some:
  assumes "users_get A fs us header w = (Inr (Some (name, u)), us', w')"
  obtains pass u0 where "credentials A header = Some (name, pass)" and "fmlookup us name = Some u0"
    and "fst (password_eq (hmac A) fs (user_password u0) pass w) = Inr True"
    and "same_permissions u u0"
  using assms
  by (auto simp: users_get_def Let_def map_sum_def same_permissions_def
      split: option.splits prod.splits sum.splits if_splits)

section \<open>Properties\<close>

text \<open>
  C13: who a request acts as. A header yields a user only if it decodes to a configured
  name together with a password that compares equal to that user's, and the user has
  that entry's permissions; for a clear password, presenting a non-empty one, exactly the
  right password does, and the comparison leaves the user map as it was.
\<close>

theorem users_get_authenticates:
  "(\<forall>name u us' w'. users_get A fs us header w = (Inr (Some (name, u)), us', w') \<longrightarrow>
      (\<exists>pass u0. credentials A header = Some (name, pass) \<and> fmlookup us name = Some u0 \<and>
         fst (password_eq (hmac A) fs (user_password u0) pass w) = Inr True \<and> same_permissions u u0)) \<and>
   (\<forall>name pass u pw. credentials A header = Some (name, pass) \<longrightarrow> fmlookup us name = Some u \<longrightarrow>
      user_password u = Cleartext pw \<longrightarrow> pass \<noteq> [] \<longrightarrow> length pass < 2 ^ 64 \<longrightarrow> length pw < 2 ^ 64 \<longrightarrow>
      users_get A fs us header w = (Inr (if pass = pw then Some (name, u) else None), us, w))"
proof (intro conjI allI impI)
  fix name u us' w'
  assume "users_get A fs us header w = (Inr (Some (name, u)), us', w')"
  then show "\<exists>pass u0. credentials A header = Some (name, pass) \<and> fmlookup us name = Some u0 \<and>
      fst (password_eq (hmac A) fs (user_password u0) pass w) = Inr True \<and> same_permissions u u0"
    by (rule users_get_Some) blast
next
  fix name pass u pw
  assume a: "credentials A header = Some (name, pass)" "fmlookup us name = Some u"
    "user_password u = Cleartext pw" "pass \<noteq> []" "length pass < 2 ^ 64" "length pw < 2 ^ 64"
  have "u\<lparr>user_password := Cleartext pw\<rparr> = u" using a(3) by (cases u) simp
  then show "users_get A fs us header w = (Inr (if pass = pw then Some (name, u) else None), us, w)"
    using a by (auto simp: users_get_def same_contents_iff fmupd_same)
qed

text \<open>A concrete instance: one user, and an encoding of credentials as plain text.\<close>

definition demo_auth :: auth_lib where
  "demo_auth = \<lparr>to_str = (\<lambda>bs. Some (map (\<lambda>b. char_of (unat b)) bs)), base64_decode = (\<lambda>s. Some (as_bytes s)),
     hmac = (\<lambda>k m. None)\<rparr>"

definition demo_user :: user where
  "demo_user = \<lparr>user_password = Cleartext ''public'', allowed_calls = Some {|''getblock''|},
     fetch_blocks = True, override_wallet = Some ''/wallet/w''\<rparr>"

definition demo_users :: users where
  "demo_users = fmap_of_list [(''alice'', demo_user)]"

lemma demo_credentials:
  "utf8_valid (as_bytes s) \<Longrightarrow> credentials demo_auth (as_bytes (''Basic '' @ s)) = split_once CHR '':'' s"
proof -
  assume "utf8_valid (as_bytes s)"
  moreover have "map (\<lambda>b. char_of (unat b)) (as_bytes t) = t" for t
    by (simp add: as_bytes_def comp_def)
  ultimately show ?thesis
    by (simp add: credentials_def demo_auth_def from_utf8_as_bytes)
qed

theorem users_get_authenticates_witness:
  "users_get demo_auth (trace_fs (\<lambda>n. None)) demo_users (as_bytes ''Basic alice:public'') 0 =
     (Inr (Some (''alice'', demo_user)), demo_users, 0) \<and>
   users_get demo_auth (trace_fs (\<lambda>n. None)) demo_users (as_bytes ''Basic alice:publi'') 0 =
     (Inr None, demo_users, 0)"
proof -
  have "utf8_valid (as_bytes ''alice:public'')" "utf8_valid (as_bytes ''alice:publi'')"
    by (simp_all add: as_bytes_def of_char_def)
  then have cred: "credentials demo_auth (as_bytes ''Basic alice:public'') = Some (''alice'', ''public'')"
    "credentials demo_auth (as_bytes ''Basic alice:publi'') = Some (''alice'', ''publi'')"
    using demo_credentials [of "''alice:public''"] demo_credentials [of "''alice:publi''"] by simp_all
  have look: "fmlookup demo_users ''alice'' = Some demo_user"
    and pw: "user_password demo_user = Cleartext ''public''"
    by (simp_all add: demo_users_def demo_user_def)
  show ?thesis
    using users_get_authenticates [where fs = "trace_fs (\<lambda>n. None)",
        THEN conjunct2, rule_format, OF cred(1) look pw]
      users_get_authenticates [where fs = "trace_fs (\<lambda>n. None)",
        THEN conjunct2, rule_format, OF cred(2) look pw]
    by simp
qed

end
