(* ===== verification/Block_Cache.thy ===== *)
theory Block_Cache
  imports Proxy_Prelude
begin

text \<open>
  \<open>src/block_cache.rs\<close>: the bounded in-memory cache of blocks fetched from
  peers. \<open>inner\<close> and \<open>block_cache\<close> are the two structs, with the \<open>HashMap\<close> as a
  finite map, the \<open>VecDeque\<close> as a list whose head is the front, and the running
  total as a 64-bit \<open>usize\<close> whose addition and subtraction wrap. The mutex
  serialises the operations, so each one is a state transformer and a concurrent
  use is a sequence of them (\<open>cache_run\<close>).

  The contract is an LRU list of entries, least recently used first
  (\<open>lru_get\<close>, \<open>lru_insert\<close>); \<open>entries_of\<close> abstracts a cache to it.
\<close>

section \<open>State and operations\<close>

record inner =
  blocks :: "(blockhash, bytes) fmap"
  order :: "blockhash list"
  bytes :: usize

record block_cache =
  max_bytes :: usize
  inner :: inner

definition inner_default :: inner where
  "inner_default = \<lparr>blocks = fmempty, order = [], bytes = 0\<rparr>"

text \<open>\<open>Vec::len\<close> and \<open>Bytes::len\<close> as a \<open>usize\<close>.\<close>

abbreviation len :: "'a list \<Rightarrow> usize" where
  "len xs \<equiv> word_of_nat (length xs)"

definition cache_new :: "usize \<Rightarrow> block_cache" where
  "cache_new m = \<lparr>max_bytes = m, inner = inner_default\<rparr>"

definition enabled :: "block_cache \<Rightarrow> bool" where
  "enabled c \<longleftrightarrow> 0 < max_bytes c"

definition cache_get :: "block_cache \<Rightarrow> blockhash \<Rightarrow> bytes option \<times> block_cache" where
  "cache_get c h =
     (if \<not> enabled c then (None, c)
      else case fmlookup (blocks (inner c)) h of
        None \<Rightarrow> (None, c)
      | Some b \<Rightarrow>
          (Some b,
           (case position (\<lambda>k. k = h) (order (inner c)) of
              Some pos \<Rightarrow>
                c\<lparr>inner := (inner c)\<lparr>order := remove_nth pos (order (inner c)) @ [h]\<rparr>\<rparr>
            | None \<Rightarrow> c)))"

text \<open>The eviction loop of \<open>insert\<close>: each turn pops the front of the queue.\<close>

definition evict_front :: "blockhash \<Rightarrow> blockhash list \<Rightarrow> inner \<Rightarrow> inner" where
  "evict_front evicted rest i =
     (case fmlookup (blocks i) evicted of
        Some b \<Rightarrow> i\<lparr>order := rest, blocks := fmdrop evicted (blocks i),
                   bytes := bytes i - len b\<rparr>
      | None \<Rightarrow> i\<lparr>order := rest\<rparr>)"

function evict :: "usize \<Rightarrow> inner \<Rightarrow> inner" where
  "evict m i =
     (if m < bytes i
      then (case order i of
              evicted # rest \<Rightarrow> evict m (evict_front evicted rest i)
            | [] \<Rightarrow> i)
      else i)"
  by pat_completeness auto
termination
  by (relation "measure (\<lambda>(m, i). length (order i))")
     (auto simp: evict_front_def split: option.splits)

declare evict.simps [simp del]

definition cache_insert :: "block_cache \<Rightarrow> blockhash \<Rightarrow> bytes \<Rightarrow> block_cache" where
  "cache_insert c h block =
     (if \<not> enabled c then c
      else if max_bytes c < len block then c
      else if fmlookup (blocks (inner c)) h \<noteq> None then c
      else c\<lparr>inner := evict (max_bytes c)
               \<lparr>blocks = fmupd h block (blocks (inner c)),
                order = order (inner c) @ [h],
                bytes = bytes (inner c) + len block\<rparr>\<rparr>)"

definition stats :: "block_cache \<Rightarrow> usize \<times> usize" where
  "stats c = (word_of_nat (fcard (fmdom (blocks (inner c)))), bytes (inner c))"

definition held_bytes :: "inner \<Rightarrow> nat" where
  "held_bytes i = (\<Sum>h\<in>fset (fmdom (blocks i)). length (the (fmlookup (blocks i) h)))"

definition check_invariants :: "block_cache \<Rightarrow> bool" where
  "check_invariants c \<longleftrightarrow>
     bytes (inner c) = word_of_nat (held_bytes (inner c)) \<and>
     length (order (inner c)) = fcard (fmdom (blocks (inner c))) \<and>
     list_all (\<lambda>h. fmlookup (blocks (inner c)) h \<noteq> None) (order (inner c))"

text \<open>A concurrent use of the cache is, under its mutex, a sequence of operations.\<close>

datatype cache_op = OpGet blockhash | OpInsert blockhash bytes

fun cache_step :: "block_cache \<Rightarrow> cache_op \<Rightarrow> block_cache" where
  "cache_step c (OpGet h) = snd (cache_get c h)"
| "cache_step c (OpInsert h b) = cache_insert c h b"

definition cache_run :: "block_cache \<Rightarrow> cache_op list \<Rightarrow> block_cache" where
  "cache_run = foldl cache_step"

section \<open>The contract: a bounded list in order of use\<close>

type_synonym entries = "(blockhash \<times> bytes) list"

definition total_len :: "entries \<Rightarrow> nat" where
  "total_len es = sum_list (map (\<lambda>e. length (snd e)) es)"

definition lru_get :: "blockhash \<Rightarrow> entries \<Rightarrow> bytes option \<times> entries" where
  "lru_get h es =
     (case map_of es h of
        None \<Rightarrow> (None, es)
      | Some b \<Rightarrow> (Some b, filter (\<lambda>e. fst e \<noteq> h) es @ [(h, b)]))"

fun lru_trim :: "nat \<Rightarrow> entries \<Rightarrow> entries" where
  "lru_trim m [] = []"
| "lru_trim m (e # es) = (if m < total_len (e # es) then lru_trim m es else e # es)"

definition lru_insert :: "nat \<Rightarrow> blockhash \<Rightarrow> bytes \<Rightarrow> entries \<Rightarrow> entries" where
  "lru_insert m h b es =
     (if m < length b \<or> map_of es h \<noteq> None then es else lru_trim m (es @ [(h, b)]))"

fun lru_step :: "nat \<Rightarrow> entries \<Rightarrow> cache_op \<Rightarrow> entries" where
  "lru_step m es (OpGet h) = snd (lru_get h es)"
| "lru_step m es (OpInsert h b) = lru_insert m h b es"

definition lru_run :: "nat \<Rightarrow> entries \<Rightarrow> cache_op list \<Rightarrow> entries" where
  "lru_run m = foldl (lru_step m)"

definition entries_of :: "inner \<Rightarrow> entries" where
  "entries_of i = map (\<lambda>h. (h, the (fmlookup (blocks i) h))) (order i)"

text \<open>
  The invariant: the queue holds each key of the map exactly once, and the running
  total is the number of bytes held, without wrap-around.
\<close>

definition inner_inv :: "inner \<Rightarrow> bool" where
  "inner_inv i \<longleftrightarrow> distinct (order i) \<and> set (order i) = fset (fmdom (blocks i)) \<and>
     unat (bytes i) = total_len (entries_of i)"

definition cache_inv :: "block_cache \<Rightarrow> bool" where
  "cache_inv c \<longleftrightarrow> inner_inv (inner c) \<and> bytes (inner c) \<le> max_bytes c"

section \<open>Library lemmas\<close>

lemma unat_len: "length xs < 2 ^ 64 \<Longrightarrow> unat (len xs) = length xs"
  by (simp add: unat_of_nat)

lemma total_len_simps [simp]:
  "total_len [] = 0"
  "total_len (e # es) = length (snd e) + total_len es"
  "total_len (es @ fs) = total_len es + total_len fs"
  by (simp_all add: total_len_def)

lemma total_len_mset: "mset es = mset fs \<Longrightarrow> total_len es = total_len fs"
proof -
  assume "mset es = mset fs"
  then have "mset (map (\<lambda>e. length (snd e)) es) = mset (map (\<lambda>e. length (snd e)) fs)"
    by simp
  then show ?thesis
    by (simp only: total_len_def sum_mset_sum_list [symmetric])
qed

lemma keys_entries_of [simp]: "map fst (entries_of i) = order i"
  by (simp add: entries_of_def comp_def)

lemma entries_of_Nil_iff: "entries_of i = [] \<longleftrightarrow> order i = []"
  by (simp add: entries_of_def)

lemma map_of_entries_of:
  assumes "inner_inv i"
  shows "map_of (entries_of i) h = fmlookup (blocks i) h"
proof -
  have "set (order i) = fset (fmdom (blocks i))"
    using assms by (simp add: inner_inv_def)
  then show ?thesis
    by (auto simp: entries_of_def map_of_map_restrict restrict_map_def fmlookup_dom_iff)
qed

lemma inner_inv_default [simp]: "inner_inv inner_default"
  by (simp add: inner_inv_def inner_default_def entries_of_def)

lemma entries_of_default [simp]: "entries_of inner_default = []"
  by (simp add: inner_default_def entries_of_def)

subsection \<open>Eviction\<close>

lemma evict_front_entries:
  assumes inv: "inner_inv i" and ord: "order i = e # rest"
  shows "entries_of (evict_front e rest i) = tl (entries_of i)"
    and "inner_inv (evict_front e rest i)"
proof -
  obtain b where b: "fmlookup (blocks i) e = Some b"
    using inv ord by (auto simp: inner_inv_def fmlookup_dom_iff)
  have dist: "distinct (e # rest)" and keys: "set (e # rest) = fset (fmdom (blocks i))"
    and sum: "unat (bytes i) = total_len (entries_of i)"
    using inv ord by (simp_all add: inner_inv_def)
  show ents: "entries_of (evict_front e rest i) = tl (entries_of i)"
    using dist b by (auto simp: evict_front_def entries_of_def ord)
  have tot: "unat (bytes i) = length b + total_len (tl (entries_of i))"
    using sum b by (simp add: entries_of_def ord)
  have "length b < 2 ^ 64"
    using tot unat_less64 [of "bytes i"] by simp
  then have "unat (len b) = length b" by (rule unat_len)
  moreover from this tot have "unat (bytes i - len b) = unat (bytes i) - unat (len b)"
    by (intro unat_sub) (simp add: word_le_nat_alt)
  ultimately have "unat (bytes (evict_front e rest i)) = total_len (tl (entries_of i))"
    using tot b by (simp add: evict_front_def)
  moreover have "set rest = fset (fmdom (blocks (evict_front e rest i)))"
    using keys dist b by (auto simp: evict_front_def)
  moreover have "order (evict_front e rest i) = rest"
    using b by (simp add: evict_front_def)
  ultimately show "inner_inv (evict_front e rest i)"
    using dist ents by (simp add: inner_inv_def)
qed

lemma evict_refines:
  assumes "inner_inv i"
  shows "inner_inv (evict m i) \<and> bytes (evict m i) \<le> m \<and>
         entries_of (evict m i) = lru_trim (unat m) (entries_of i)"
  using assms
proof (induction m i rule: evict.induct)
  case (1 m i)
  have sum: "unat (bytes i) = total_len (entries_of i)"
    using "1.prems" by (simp add: inner_inv_def)
  show ?case
  proof (cases "m < bytes i")
    case True
    then have over: "unat m < total_len (entries_of i)"
      using sum by (simp add: word_less_nat_alt)
    then obtain e rest where ord: "order i = e # rest"
      by (cases "order i") (auto simp: entries_of_def)
    have step: "evict m i = evict m (evict_front e rest i)"
      using True ord by (simp add: evict.simps [of m i])
    obtain x xs where xs: "entries_of i = x # xs"
      using ord by (auto simp: entries_of_def)
    show ?thesis
      using "1.IH" [OF True ord evict_front_entries(2)]
        evict_front_entries [OF "1.prems" ord] over "1.prems" ord
      by (simp add: step xs)
  next
    case False
    then have "\<not> unat m < total_len (entries_of i)"
      using sum by (simp add: word_less_nat_alt)
    then have "lru_trim (unat m) (entries_of i) = entries_of i"
      by (cases "entries_of i") auto
    then show ?thesis
      using False "1.prems" by (subst (1 2 3) evict.simps) (simp add: not_less leD)
  qed
qed

lemma lru_trim_suffix: "\<exists>pre. es = pre @ lru_trim m es"
  by (induction es) (auto intro: exI [of _ "_ # _"])

lemma total_len_lru_trim: "total_len (lru_trim m es) \<le> m"
  by (induction es) (auto simp: not_less)

lemma lru_trim_last:
  assumes "length (snd e) \<le> m"
  shows "\<exists>es'. lru_trim m (es @ [e]) = es' @ [e]"
  using assms by (induction es) auto

subsection \<open>The operations against the contract\<close>

lemma cache_get_entries:
  assumes "enabled c" and "inner_inv (inner c)"
  shows "fst (cache_get c h) = fst (lru_get h (entries_of (inner c)))"
    and "entries_of (inner (snd (cache_get c h))) = snd (lru_get h (entries_of (inner c)))"
proof -
  let ?i = "inner c"
  have dist: "distinct (order ?i)" and keys: "set (order ?i) = fset (fmdom (blocks ?i))"
    using assms(2) by (simp_all add: inner_inv_def)
  have "fst (cache_get c h) = fst (lru_get h (entries_of ?i)) \<and>
        entries_of (inner (snd (cache_get c h))) = snd (lru_get h (entries_of ?i))"
  proof (cases "fmlookup (blocks ?i) h")
    case None
    then show ?thesis
      using assms by (simp add: cache_get_def lru_get_def map_of_entries_of)
  next
    case (Some b)
    then have mem: "h \<in> set (order ?i)" using keys by (auto intro: fmdomI)
    then have "filter (\<lambda>e. fst e \<noteq> h) (entries_of ?i) =
               map (\<lambda>k. (k, the (fmlookup (blocks ?i) k))) (remove1 h (order ?i))"
      using dist by (simp add: entries_of_def filter_map comp_def distinct_remove1_removeAll
          removeAll_filter_not_eq eq_commute)
    then have "lru_get h (entries_of ?i) =
      (Some b, map (\<lambda>k. (k, the (fmlookup (blocks ?i) k))) (remove1 h (order ?i)) @ [(h, b)])"
      using assms(2) Some by (simp add: lru_get_def map_of_entries_of)
    then show ?thesis
      using assms(1) Some mem
      by (cases h "order ?i" rule: position_eq_cases) (simp_all add: cache_get_def entries_of_def)
  qed
  then show "fst (cache_get c h) = fst (lru_get h (entries_of ?i))"
    and "entries_of (inner (snd (cache_get c h))) = snd (lru_get h (entries_of ?i))"
    by simp_all
qed

lemma cache_get_frame:
  "max_bytes (snd (cache_get c h)) = max_bytes c"
  "blocks (inner (snd (cache_get c h))) = blocks (inner c)"
  "bytes (inner (snd (cache_get c h))) = bytes (inner c)"
  by (simp_all add: cache_get_def split: option.splits)

lemma cache_get_mset_order: "mset (order (inner (snd (cache_get c h)))) = mset (order (inner c))"
  by (cases h "order (inner c)" rule: position_eq_cases)
     (auto simp: cache_get_def split: option.splits)

lemma cache_inv_get: "cache_inv c \<Longrightarrow> cache_inv (snd (cache_get c h))"
proof -
  assume inv: "cache_inv c"
  let ?o = "order (inner c)" and ?o' = "order (inner (snd (cache_get c h)))"
  have ms: "mset ?o' = mset ?o" by (rule cache_get_mset_order)
  then have "total_len (entries_of (inner (snd (cache_get c h)))) = total_len (entries_of (inner c))"
    by (intro total_len_mset) (simp add: entries_of_def cache_get_frame)
  then show ?thesis
    using inv ms mset_eq_setD [OF ms] mset_eq_imp_distinct_iff [OF ms]
    by (simp add: cache_inv_def inner_inv_def cache_get_frame)
qed

text \<open>The block fits: adding it cannot wrap the 64-bit running total.\<close>

definition fits :: "block_cache \<Rightarrow> bytes \<Rightarrow> bool" where
  "fits c b \<longleftrightarrow> unat (bytes (inner c)) + length b < 2 ^ 64"

lemma cache_insert_pushed:
  assumes inv: "inner_inv (inner c)" and new: "fmlookup (blocks (inner c)) h = None"
    and fit: "fits c b"
  defines "i \<equiv> \<lparr>blocks = fmupd h b (blocks (inner c)), order = order (inner c) @ [h],
                bytes = bytes (inner c) + len b\<rparr>"
  shows "inner_inv i" and "entries_of i = entries_of (inner c) @ [(h, b)]"
proof -
  let ?i = "inner c"
  have notin: "h \<notin> set (order ?i)"
    using inv new by (auto simp: inner_inv_def fmlookup_dom_iff)
  then show ents: "entries_of i = entries_of ?i @ [(h, b)]"
    by (auto simp: entries_of_def i_def)
  have "unat (bytes ?i + len b) = unat (bytes ?i) + length b"
    using fit by (simp add: fits_def unat_word_ariths unat_len)
  then show "inner_inv i"
    using inv notin ents by (simp add: inner_inv_def i_def)
qed

lemma cache_insert_entries:
  assumes "enabled c" and inv: "inner_inv (inner c)" and "fits c b"
  shows "entries_of (inner (cache_insert c h b)) =
         lru_insert (unat (max_bytes c)) h b (entries_of (inner c))"
proof -
  have "unat (len b) = length b"
    using assms(3) by (intro unat_len) (simp add: fits_def)
  then show ?thesis
    using assms evict_refines [OF cache_insert_pushed(1) [OF inv _ assms(3)]]
      cache_insert_pushed(2) [OF inv _ assms(3)]
    by (simp add: cache_insert_def lru_insert_def map_of_entries_of word_less_nat_alt)
qed

lemma cache_insert_frame: "max_bytes (cache_insert c h b) = max_bytes c"
  by (simp add: cache_insert_def)

lemma cache_inv_insert:
  assumes "cache_inv c" and "fits c b"
  shows "cache_inv (cache_insert c h b)"
  using assms evict_refines [OF cache_insert_pushed(1) [OF _ _ assms(2)]]
  by (simp add: cache_inv_def cache_insert_def)

lemma cache_inv_new: "cache_inv (cache_new m)"
  by (simp add: cache_inv_def cache_new_def) (simp add: inner_default_def)

subsection \<open>Runs\<close>

text \<open>
  Every Rust slice is shorter than \<open>isize::MAX\<close>; with a bound of at most half the
  address space, the running total of a cache that keeps its bound cannot wrap.
\<close>

fun op_ok :: "cache_op \<Rightarrow> bool" where
  "op_ok (OpGet h) \<longleftrightarrow> True"
| "op_ok (OpInsert h b) \<longleftrightarrow> length b < 2 ^ 63"

lemma fitsI:
  assumes "cache_inv c" and "unat (max_bytes c) \<le> 2 ^ 63" and "length b < 2 ^ 63"
  shows "fits c b"
  using assms by (simp add: fits_def cache_inv_def word_le_nat_alt)

lemma cache_step_frame: "max_bytes (cache_step c op) = max_bytes c"
  by (cases op) (simp_all add: cache_get_frame cache_insert_frame)

lemma cache_step_inv:
  assumes "cache_inv c" and "unat (max_bytes c) \<le> 2 ^ 63" and "op_ok op"
  shows "cache_inv (cache_step c op)"
  using assms by (cases op) (simp_all add: cache_inv_get cache_inv_insert fitsI)

lemma cache_step_entries:
  assumes "enabled c" and "cache_inv c" and "unat (max_bytes c) \<le> 2 ^ 63" and "op_ok op"
  shows "entries_of (inner (cache_step c op)) =
         lru_step (unat (max_bytes c)) (entries_of (inner c)) op"
  using assms
  by (cases op) (simp_all add: cache_get_entries cache_insert_entries fitsI cache_inv_def)

lemma cache_run_simps [simp]:
  "cache_run c [] = c"
  "cache_run c (op # ops) = cache_run (cache_step c op) ops"
  by (simp_all add: cache_run_def)

lemma lru_run_simps [simp]:
  "lru_run m es [] = es"
  "lru_run m es (op # ops) = lru_run m (lru_step m es op) ops"
  by (simp_all add: lru_run_def)

lemma cache_run_frame: "max_bytes (cache_run c ops) = max_bytes c"
  by (induction ops arbitrary: c) (simp_all add: cache_step_frame)

lemma cache_run_inv:
  assumes "cache_inv c" and "unat (max_bytes c) \<le> 2 ^ 63" and "\<forall>op\<in>set ops. op_ok op"
  shows "cache_inv (cache_run c ops)"
  using assms by (induction ops arbitrary: c) (simp_all add: cache_step_inv cache_step_frame)

lemma cache_run_entries:
  assumes "enabled c" and "cache_inv c" and "unat (max_bytes c) \<le> 2 ^ 63"
    and "\<forall>op\<in>set ops. op_ok op"
  shows "entries_of (inner (cache_run c ops)) =
         lru_run (unat (max_bytes c)) (entries_of (inner c)) ops"
  using assms
  by (induction ops arbitrary: c)
     (simp_all add: cache_step_inv cache_step_frame cache_step_entries enabled_def)

lemma held_bytes_eq:
  assumes "inner_inv i"
  shows "held_bytes i = total_len (entries_of i)"
proof -
  have "distinct (order i)" and "set (order i) = fset (fmdom (blocks i))"
    using assms by (simp_all add: inner_inv_def)
  then show ?thesis
    by (simp add: held_bytes_def total_len_def entries_of_def comp_def
        sum_list_distinct_conv_sum_set)
qed

lemma cache_inv_bound:
  assumes "cache_inv c"
  shows "bytes (inner c) \<le> max_bytes c" and "held_bytes (inner c) \<le> unat (max_bytes c)"
proof -
  have "held_bytes (inner c) = unat (bytes (inner c))"
    using assms by (simp add: cache_inv_def held_bytes_eq) (simp add: inner_inv_def)
  then show "bytes (inner c) \<le> max_bytes c" "held_bytes (inner c) \<le> unat (max_bytes c)"
    using assms by (simp_all add: cache_inv_def word_le_nat_alt)
qed

lemma cache_inv_check: "cache_inv c \<Longrightarrow> check_invariants c"
proof -
  assume inv: "cache_inv c"
  let ?i = "inner c"
  have i: "inner_inv ?i" using inv by (simp add: cache_inv_def)
  then have keys: "set (order ?i) = fset (fmdom (blocks ?i))" and "distinct (order ?i)"
    and "unat (bytes ?i) = held_bytes ?i"
    by (simp_all add: inner_inv_def held_bytes_eq)
  moreover from this have "length (order ?i) = fcard (fmdom (blocks ?i))"
    by (metis distinct_card fcard.rep_eq)
  moreover have "list_all (\<lambda>h. fmlookup (blocks ?i) h \<noteq> None) (order ?i)"
    using keys by (auto simp: list_all_iff fmlookup_dom_iff)
  moreover have "word_of_nat (unat (bytes ?i)) = bytes ?i" by simp
  ultimately show ?thesis by (simp add: check_invariants_def)
qed

section \<open>The interface its clients rely on\<close>

text \<open>
  A store of blocks by hash, as \<open>fetch_block_raw\<close> uses it: \<open>lookup\<close> may answer,
  \<open>store\<close> may keep or drop what it is given, and nothing else ever enters.
\<close>

locale block_store =
  fixes lookup :: "'c \<Rightarrow> 'k \<Rightarrow> 'v option \<times> 'c"
    and store :: "'c \<Rightarrow> 'k \<Rightarrow> 'v \<Rightarrow> 'c"
    and contents :: "'c \<Rightarrow> 'k \<Rightarrow> 'v option"
  assumes lookup_sound: "fst (lookup c k) = Some v \<Longrightarrow> contents c k = Some v"
    and lookup_contents: "contents (snd (lookup c k)) = contents c"
    and store_contents:
      "contents (store c k v) k' = Some v' \<Longrightarrow> contents c k' = Some v' \<or> k' = k \<and> v' = v"
begin

definition all_held :: "('k \<Rightarrow> 'v \<Rightarrow> bool) \<Rightarrow> 'c \<Rightarrow> bool" where
  "all_held P c \<longleftrightarrow> (\<forall>k v. contents c k = Some v \<longrightarrow> P k v)"

lemma all_held_lookup: "all_held P c \<Longrightarrow> all_held P (snd (lookup c k))"
  by (simp add: all_held_def lookup_contents)

lemma all_held_store: "all_held P c \<Longrightarrow> P k v \<Longrightarrow> all_held P (store c k v)"
  by (auto simp: all_held_def dest: store_contents)

lemma lookup_held: "all_held P c \<Longrightarrow> fst (lookup c k) = Some v \<Longrightarrow> P k v"
  by (auto simp: all_held_def dest: lookup_sound)

end

definition contents_of :: "block_cache \<Rightarrow> blockhash \<Rightarrow> bytes option" where
  "contents_of c = fmlookup (blocks (inner c))"

lemma evict_subset: "fmlookup (blocks (evict m i)) h = Some b \<Longrightarrow> fmlookup (blocks i) h = Some b"
proof (induction m i rule: evict.induct)
  case (1 m i)
  show ?case
  proof (cases "m < bytes i \<and> order i \<noteq> []")
    case True
    then obtain e rest where ord: "order i = e # rest" by (cases "order i") auto
    then have "fmlookup (blocks (evict_front e rest i)) h = Some b"
      using True "1.IH" [OF _ ord] "1.prems" by (simp add: evict.simps [of m i])
    then show ?thesis
      by (auto simp: evict_front_def split: option.splits if_splits)
  next
    case False
    then have "evict m i = i" by (subst evict.simps) (auto split: list.splits)
    then show ?thesis using "1.prems" by simp
  qed
qed

interpretation cache: block_store cache_get cache_insert contents_of
proof unfold_locales
  fix c h b
  show "contents_of c h = Some b" if "fst (cache_get c h) = Some b"
    using that by (auto simp: cache_get_def contents_of_def split: if_splits option.splits)
  show "contents_of (snd (cache_get c h)) = contents_of c"
    by (simp add: contents_of_def cache_get_frame)
  show "contents_of c h' = Some b' \<or> h' = h \<and> b' = b"
    if "contents_of (cache_insert c h b) h' = Some b'" for h' b'
    using that
    by (auto simp: cache_insert_def contents_of_def split: if_splits dest!: evict_subset)
qed

section \<open>Properties\<close>

lemma lru_get_Some: "fst (lru_get h es) = map_of es h"
  by (simp add: lru_get_def split: option.splits)

lemma lookup_after_run:
  assumes "0 < m" and "unat m \<le> 2 ^ 63" and "\<forall>op\<in>set ops. op_ok op"
  shows "fst (cache_get (cache_run (cache_new m) ops) h) = map_of (lru_run (unat m) [] ops) h"
proof -
  let ?c = "cache_run (cache_new m) ops"
  have new: "max_bytes (cache_new m) = m" "entries_of (inner (cache_new m)) = []"
    by (simp_all add: cache_new_def)
  have en: "enabled (cache_new m)" using assms(1) by (simp add: enabled_def new)
  have inv: "inner_inv (inner ?c)"
    using cache_run_inv [OF cache_inv_new, of m ops] assms(2,3) by (simp add: new cache_inv_def)
  have "enabled ?c" using assms(1) by (simp add: enabled_def cache_run_frame new)
  then have "fst (cache_get ?c h) = map_of (entries_of (inner ?c)) h"
    using inv by (simp add: cache_get_entries lru_get_Some)
  then show ?thesis
    using cache_run_entries [OF en cache_inv_new _ assms(3)] assms(2) by (simp add: new)
qed

text \<open>
  Least recently used, not least recently inserted. A block that was just read
  is still served after the next insertion, whatever that insertion evicts, as long
  as the two blocks fit together under the bound; and the inserted block is served.
\<close>

lemma read_block_survives_insert:
  assumes "enabled c" and "cache_inv c" and "fits c b'"
    and "fst (cache_get c h) = Some b"
    and "length b + length b' \<le> unat (max_bytes c)"
    and "fmlookup (blocks (inner c)) h' = None"
  shows "fst (cache_get (cache_insert (snd (cache_get c h)) h' b') h) = Some b \<and>
         fst (cache_get (cache_insert (snd (cache_get c h)) h' b') h') = Some b'"
proof -
  let ?c1 = "snd (cache_get c h)" and ?m = "unat (max_bytes c)"
  let ?c2 = "cache_insert ?c1 h' b'"
  have i: "inner_inv (inner c)" and hit: "map_of (entries_of (inner c)) h = Some b"
    using assms(1,2,4) cache_get_entries(1) [OF assms(1)]
    by (auto simp: cache_inv_def lru_get_Some)
  have inv1: "cache_inv ?c1" and en1: "enabled ?c1" and fit1: "fits ?c1 b'"
    using assms(1-3) by (simp_all add: cache_inv_get enabled_def fits_def cache_get_frame)
  let ?es = "filter (\<lambda>e. fst e \<noteq> h) (entries_of (inner c))"
  have ents1: "entries_of (inner ?c1) = ?es @ [(h, b)]"
    using assms(1) i hit by (simp add: cache_get_entries lru_get_def)
  have inv2: "inner_inv (inner ?c2)" and en2: "enabled ?c2"
    using cache_inv_insert [OF inv1 fit1, of h'] en1
    by (simp_all add: cache_inv_def enabled_def cache_insert_frame)
  have "map_of (entries_of (inner ?c1)) h' = None"
    using assms(6) inv1 by (simp add: map_of_entries_of cache_inv_def cache_get_frame)
  then have "entries_of (inner ?c2) = lru_trim ?m (?es @ [(h, b), (h', b')])"
    using en1 inv1 fit1 assms(5) ents1
    by (simp add: cache_insert_entries cache_inv_def lru_insert_def cache_get_frame)
  moreover have "\<exists>es'. lru_trim ?m (es @ [(h, b), (h', b')]) = es' @ [(h, b), (h', b')]" for es
    using assms(5) by (induction es) auto
  ultimately obtain es' where "entries_of (inner ?c2) = es' @ [(h, b), (h', b')]" by metis
  moreover have "distinct (map fst (entries_of (inner ?c2)))"
    using inv2 by (simp add: inner_inv_def)
  ultimately have "map_of (entries_of (inner ?c2)) h = Some b"
    and "map_of (entries_of (inner ?c2)) h' = Some b'"
    by (auto simp: map_add_dom_app_simps(3) dom_map_of_conv_image_fst)
  then show ?thesis
    using en2 inv2 by (simp add: cache_get_entries lru_get_Some)
qed

text \<open>
  A bound of zero disables the cache: whatever is done to it, it holds nothing
  and serves nothing.
\<close>

lemma zero_disables_cache:
  "stats (cache_run (cache_new 0) ops) = (0, 0) \<and> fst (cache_get (cache_run (cache_new 0) ops) h) = None"
proof -
  have "cache_step (cache_new 0) op = cache_new 0" for op
    by (cases op) (simp_all add: cache_get_def cache_insert_def enabled_def cache_new_def)
  then have "cache_run (cache_new 0) ops = cache_new 0" by (induction ops) simp_all
  then show ?thesis
    by (simp add: stats_def cache_get_def enabled_def cache_new_def inner_default_def fcard.rep_eq)
qed

text \<open>
  The loop step by step: how often it has turned, and that it turns only while over the bound.
\<close>

definition evict_step :: "inner \<Rightarrow> inner" where
  "evict_step i = (case order i of [] \<Rightarrow> i | e # rest \<Rightarrow> evict_front e rest i)"

lemma order_evict_step: "order (evict_step i) = tl (order i)"
  by (auto simp: evict_step_def evict_front_def split: list.splits option.splits)

text \<open>
  C7: after any sequence of reads and insertions on a fresh cache, the queue and the
  map hold the same keys, the running total is exactly the number of bytes held and
  never wraps, and it never exceeds the configured bound.
\<close>

theorem block_cache_run_invariant:
  assumes "unat m \<le> 2 ^ 63" and "\<forall>op\<in>set ops. op_ok op"
  shows "cache_inv (cache_run (cache_new m) ops) \<and>
         check_invariants (cache_run (cache_new m) ops) \<and>
         snd (stats (cache_run (cache_new m) ops)) \<le> m \<and>
         held_bytes (inner (cache_run (cache_new m) ops)) \<le> unat m"
proof -
  let ?c = "cache_run (cache_new m) ops"
  have max: "max_bytes ?c = m" by (simp add: cache_run_frame cache_new_def)
  have inv: "cache_inv ?c"
    using assms by (intro cache_run_inv cache_inv_new) (simp_all add: cache_new_def)
  then show ?thesis
    using cache_inv_bound [OF inv] max by (simp add: cache_inv_check stats_def)
qed

theorem block_cache_run_invariant_witness:
  "unat (250 :: usize) \<le> 2 ^ 63 \<and>
   cache_inv (cache_run (cache_new 250)
     [OpInsert [1] (replicate 100 0), OpInsert [2] (replicate 100 0), OpGet [1],
      OpInsert [3] (replicate 100 0)])"
  using block_cache_run_invariant [of 250
    "[OpInsert [1] (replicate 100 0), OpInsert [2] (replicate 100 0), OpGet [1],
      OpInsert [3] (replicate 100 0)]"]
  by simp

text \<open>
  C8: the cache refines the LRU list. After any sequence of operations on a fresh,
  enabled cache the entries it holds, in its order of eviction, are those of the
  abstract list after the same operations, and a read answers what the list holds.
\<close>

theorem block_cache_refines_lru:
  assumes "0 < m" and "unat m \<le> 2 ^ 63" and "\<forall>op\<in>set ops. op_ok op"
  shows "entries_of (inner (cache_run (cache_new m) ops)) = lru_run (unat m) [] ops \<and>
         (\<forall>h. fst (cache_get (cache_run (cache_new m) ops) h) = map_of (lru_run (unat m) [] ops) h)"
  using cache_run_entries [of "cache_new m" ops] lookup_after_run [OF assms] assms
  by (simp add: cache_inv_new) (simp add: cache_new_def enabled_def)

theorem block_cache_refines_lru_witness:
  "entries_of (inner (cache_run (cache_new 3)
     [OpInsert [1] [7], OpInsert [2] [8, 9], OpGet [1], OpInsert [3] [5]])) =
   [([1], [7]), ([3], [5])]"
  using block_cache_refines_lru [of 3
    "[OpInsert [1] [7], OpInsert [2] [8, 9], OpGet [1], OpInsert [3] [5]]"]
  by (simp add: lru_get_def lru_insert_def total_len_def)

text \<open>
  C35: the eviction loop ends. From any state at all, even one whose running total is wrong,
  it turns at most once for every key in the queue, takes keys off the front only, turns only
  while the total is over the bound, and stops with the total within the bound or the queue
  empty.
\<close>

theorem eviction_ends:
  "\<exists>n\<le>length (order i). evict m i = (evict_step ^^ n) i \<and> order (evict m i) = drop n (order i) \<and>
     (bytes (evict m i) \<le> m \<or> order (evict m i) = []) \<and> (\<forall>k<n. m < bytes ((evict_step ^^ k) i))"
proof (induction m i rule: evict.induct)
  case (1 m i)
  show ?case
  proof (cases "m < bytes i \<and> order i \<noteq> []")
    case True
    then obtain e rest where ord: "order i = e # rest" by (cases "order i") auto
    have step: "evict_step i = evict_front e rest i" by (simp add: evict_step_def ord)
    obtain n where n: "n \<le> length rest" "evict m (evict_step i) = (evict_step ^^ n) (evict_step i)"
      "order (evict m (evict_step i)) = drop n rest"
      "bytes (evict m (evict_step i)) \<le> m \<or> order (evict m (evict_step i)) = []"
      "\<forall>k<n. m < bytes ((evict_step ^^ k) (evict_step i))"
      using "1.IH" [OF conjunct1 [OF True] ord, folded step, unfolded order_evict_step ord list.sel] by blast
    have "evict m i = evict m (evict_step i)"
      using True by (subst evict.simps) (simp add: ord step)
    moreover have "m < bytes ((evict_step ^^ k) i)" if "k < Suc n" for k
      using that n(5) True by (cases k) (auto simp: funpow_Suc_right simp del: funpow.simps)
    ultimately show ?thesis
      using n by (intro exI [of _ "Suc n"]) (auto simp: ord funpow_Suc_right simp del: funpow.simps)
  next
    case False
    then have "evict m i = i" by (subst evict.simps) (auto split: list.splits)
    then show ?thesis using False by (intro exI [of _ 0]) auto
  qed
qed

theorem eviction_ends_witness:
  "order (evict 0 \<lparr>blocks = fmempty, order = [[1], [2]], bytes = 5\<rparr>) = []"
proof -
  let ?i = "\<lparr>blocks = fmempty, order = [[1], [2]], bytes = 5\<rparr> :: inner"
  have "bytes ((evict_step ^^ k) ?i) = 5" if "k \<le> 2" for k
    using that by (auto simp: numeral_2_eq_2 le_Suc_eq evict_step_def evict_front_def)
  moreover have len: "length (order ?i) = 2" by simp
  moreover obtain n where "n \<le> 2" "evict 0 ?i = (evict_step ^^ n) ?i"
    "bytes (evict 0 ?i) \<le> 0 \<or> order (evict 0 ?i) = []"
    using eviction_ends [of ?i 0, unfolded len] by blast
  ultimately have "bytes (evict 0 ?i) = 5" "bytes (evict 0 ?i) \<le> 0 \<or> order (evict 0 ?i) = []" by simp_all
  then show ?thesis by simp
qed

end
