(* ===== verification/Proxy_State.thy ===== *)
theory Proxy_State
  imports Network Rpc_Client Users Block_Cache
begin

text \<open>
  The shared state of the proxy (\<open>State\<close> of \<open>src/state.rs\<close>) with the operations on it:
  \<open>network_params\<close>, which asks bitcoind for its chain once, and \<open>get_peers\<close>; and the peer
  list with its pool of connections (\<open>Peers\<close>, \<open>Peer\<close>, \<open>PeerHandle\<close> and
  \<open>RecyclableConnection\<close> of \<open>src/fetch_blocks.rs\<close>).

  What changes is \<open>pstate\<close>, an extension of the client's state; what does not, and every
  parameter of the model, is \<open>env\<close>. The channel of capacity one in which a peer's idle
  connection waits is an entry of \<open>chans\<close>: it is open while the peer list it belongs to is
  the current one, and it holds a connection or nothing. A list refresh started in the
  background is counted by \<open>refreshes\<close> until \<open>finish_refresh\<close> runs it.
\<close>

section \<open>State\<close>

text \<open>An open stream: where it was dialled and the socket behind it.\<close>

record stream =
  dialled :: string
  socket :: nat

datatype peer_connection = Direct stream | Proxied stream

fun stream_of :: "peer_connection \<Rightarrow> stream" where
  "stream_of (Direct a) = a"
| "stream_of (Proxied a) = a"

record peer =
  peer_addr :: string
  peer_chan :: nat

record peers =
  fetched :: "time option"
  peer_list :: "peer list"

record peer_handle =
  handle_addr :: string
  handle_conn :: "peer_connection option"
  handle_send :: nat

record recyclable =
  rc_conn :: peer_connection
  rc_send :: nat

type_synonym channels = "(nat, peer_connection option) fmap"

record 'w pstate = "'w sys" +
  users_map :: users
  network :: "network_params option"
  current_peers :: peers
  chans :: channels
  next_chan :: nat
  refreshes :: nat
  cache :: block_cache

text \<open>
  Failures of the peer-to-peer code. A deadline of \<open>tokio::time::timeout\<close> is an error of the
  operation that was under way when it passed.
\<close>

datatype io_failure = Io string | Elapsed

datatype call_error = CallClient client_error | CallRpc rpc_error

record 'w p2p =
  instant_now :: "'w \<Rightarrow> time \<times> 'w"
  system_secs :: "'w \<Rightarrow> u64 \<times> 'w"
  tcp_connect :: "string \<Rightarrow> 'w \<Rightarrow> (io_failure + nat) \<times> 'w"
  socks_connect :: "string \<Rightarrow> string \<Rightarrow> 'w \<Rightarrow> (io_failure + nat) \<times> 'w"
  tcp_nodelay :: "nat \<Rightarrow> 'w \<Rightarrow> (io_failure + unit) \<times> 'w"
  write_msg :: "nat \<Rightarrow> raw_message \<Rightarrow> 'w \<Rightarrow> (io_failure + unit) \<times> 'w"
  flush_stream :: "nat \<Rightarrow> 'w \<Rightarrow> (io_failure + unit) \<times> 'w"
  read_msg :: "nat \<Rightarrow> 'w \<Rightarrow> (io_failure + raw_message) \<times> 'w"
  race :: "'w \<Rightarrow> bool \<times> 'w"

record 'w env =
  env_lib :: lib
  env_net :: "'w net"
  env_text :: text_lib
  env_btc :: bitcoin_lib
  env_auth :: auth_lib
  env_p2p :: "'w p2p"
  env_uri :: string
  env_tor :: "tor_state option"
  env_i2p_proxy :: "string option"
  env_max_peer_age :: time
  env_patience :: nat
  env_show_update :: "call_error \<Rightarrow> string"

text \<open>A parameter's operation on the world, lifted to the state.\<close>

definition on_world :: "('w \<Rightarrow> 'r \<times> 'w) \<Rightarrow> ('w, 'z) sys_scheme \<Rightarrow> 'r \<times> ('w, 'z) sys_scheme" where
  "on_world f s = (case f (world s) of (r, w) \<Rightarrow> (r, s\<lparr>world := w\<rparr>))"

section \<open>Asking bitcoind\<close>

text \<open>\<open>rpc_client.call(..).await?.into_result()?\<close> with a request of the proxy's own.\<close>

definition own_call :: "'w env \<Rightarrow> own_method \<Rightarrow> json \<Rightarrow> (json \<Rightarrow> serde_error + 'r) \<Rightarrow>
    ('w, 'z) sys_scheme \<Rightarrow> (call_error + 'r) \<times> ('w, 'z) sys_scheme" where
  "own_call E m ps de s =
     (case call (env_lib E) (env_net E) (env_uri E) (method_str m) (de_response de) (own_request m ps) s of
        (Inl e, s1) \<Rightarrow> (Inl (CallClient e), s1)
      | (Inr res, s1) \<Rightarrow> (map_sum CallRpc id (into_result (show_serde (env_lib E)) (de Null) res), s1))"

fun rpc_error_of_call :: "lib \<Rightarrow> call_error \<Rightarrow> rpc_error" where
  "rpc_error_of_call L (CallClient e) = rpc_error_of_client L e"
| "rpc_error_of_call L (CallRpc e) = e"

datatype params_error = ParamsCall call_error | ParamsNetwork network_error

definition network_params_of :: "'w env \<Rightarrow> 'w pstate \<Rightarrow> (params_error + network_params) \<times> 'w pstate" where
  "network_params_of E s =
     (case network s of
        Some np \<Rightarrow> (Inr np, s)
      | None \<Rightarrow>
          bind_res (map_err ParamsCall (own_call E GetBlockchainInfo no_params (de_blockchain_info (env_text E))))
            (\<lambda>info s1.
               case from_blockchain_info (env_btc E) info of
                 Inl e \<Rightarrow> (Inl (ParamsNetwork e), s1)
               | Inr np \<Rightarrow> (Inr np, s1\<lparr>network := Some np\<rparr>)) s)"

section \<open>Peers\<close>

definition peers_new :: peers where
  "peers_new = \<lparr>fetched = None, peer_list = []\<rparr>"

text \<open>The age of a list that was fetched is read off the clock; one that never was is stale.\<close>

definition stale :: "'w env \<Rightarrow> peers \<Rightarrow> 'w pstate \<Rightarrow> bool \<times> 'w pstate" where
  "stale E ps s =
     (case fetched ps of
        Some f \<Rightarrow> apfst (\<lambda>now. now - f > env_max_peer_age E) (on_world (instant_now (env_p2p E)) s)
      | None \<Rightarrow> (True, s))"

definition peers_is_empty :: "peers \<Rightarrow> bool" where
  "peers_is_empty ps \<longleftrightarrow> peer_list ps = []"

text \<open>\<open>Peer::new\<close>: a fresh channel, empty.\<close>

definition peer_new :: "string \<Rightarrow> 'w pstate \<Rightarrow> peer \<times> 'w pstate" where
  "peer_new addr s =
     (\<lparr>peer_addr = addr, peer_chan = next_chan s\<rparr>,
      s\<lparr>chans := fmupd (next_chan s) None (chans s), next_chan := Suc (next_chan s)\<rparr>)"

fun peers_of :: "string list \<Rightarrow> 'w pstate \<Rightarrow> peer list \<times> 'w pstate" where
  "peers_of [] s = ([], s)"
| "peers_of (a # as) s =
     (case peer_new a s of (p, s1) \<Rightarrow> (case peers_of as s1 of (ps, s2) \<Rightarrow> (p # ps, s2)))"

definition selected :: "peer_info list \<Rightarrow> string list" where
  "selected infos =
     map pi_addr
       (filter (\<lambda>p. ''NETWORK'' |\<in>| servicesnames p \<and> ''WITNESS'' |\<in>| servicesnames p)
         (filter (\<lambda>p. \<not> inbound p) infos))"

definition peers_updated :: "'w env \<Rightarrow> 'w pstate \<Rightarrow> (call_error + peers) \<times> 'w pstate" where
  "peers_updated E =
     bind_res (own_call E GetPeerInfo no_params (de_list de_peer_info))
       (\<lambda>infos s1.
          case peers_of (selected infos) s1 of
            (ps, s2) \<Rightarrow>
              (case on_world (instant_now (env_p2p E)) s2 of
                 (now, s3) \<Rightarrow> (Inr \<lparr>fetched = Some now, peer_list = ps\<rparr>, s3)))"

text \<open>
  The spawned task of \<open>get_peers\<close>: the new list replaces the old one, whose channels lose
  their only receivers and close.
\<close>

definition install_peers :: "peers \<Rightarrow> 'w pstate \<Rightarrow> 'w pstate" where
  "install_peers ps s =
     s\<lparr>current_peers := ps,
       chans := fmdrop_set (peer_chan ` set (peer_list (current_peers s))) (chans s)\<rparr>"

definition refresh_peers :: "'w env \<Rightarrow> 'w pstate \<Rightarrow> (call_error + peers) \<times> 'w pstate" where
  "refresh_peers E = bind_res (peers_updated E) (\<lambda>ps s1. (Inr ps, install_peers ps s1))"

definition finish_refresh :: "'w env \<Rightarrow> 'w pstate \<Rightarrow> 'w pstate" where
  "finish_refresh E s =
     (if refreshes s = 0 then s else snd (refresh_peers E (s\<lparr>refreshes := refreshes s - 1\<rparr>)))"

text \<open>\<open>Peer::handle\<close>: takes the waiting connection, if there is one.\<close>

definition peer_handle_of :: "peer \<Rightarrow> 'w pstate \<Rightarrow> peer_handle \<times> 'w pstate" where
  "peer_handle_of p s =
     (case fmlookup (chans s) (peer_chan p) of
        Some (Some c) \<Rightarrow>
          (\<lparr>handle_addr = peer_addr p, handle_conn = Some c, handle_send = peer_chan p\<rparr>,
           s\<lparr>chans := fmupd (peer_chan p) None (chans s)\<rparr>)
      | _ \<Rightarrow> (\<lparr>handle_addr = peer_addr p, handle_conn = None, handle_send = peer_chan p\<rparr>, s))"

fun handles :: "peer list \<Rightarrow> 'w pstate \<Rightarrow> peer_handle list \<times> 'w pstate" where
  "handles [] s = ([], s)"
| "handles (p # ps) s =
     (case peer_handle_of p s of (h, s1) \<Rightarrow> (case handles ps s1 of (hs, s2) \<Rightarrow> (h # hs, s2)))"

definition get_peers :: "'w env \<Rightarrow> 'w pstate \<Rightarrow> (call_error + peer_handle list) \<times> 'w pstate" where
  "get_peers E s =
     (let ps = current_peers s in
      case stale E ps s of
        (old, s1) \<Rightarrow>
          if old then
            (if peers_is_empty ps then
               bind_res (refresh_peers E) (\<lambda>ps' s2. apfst Inr (handles (peer_list ps') s2)) s1
             else apfst Inr (handles (peer_list ps) (s1\<lparr>refreshes := Suc (refreshes s1)\<rparr>)))
          else apfst Inr (handles (peer_list ps) s1))"

text \<open>\<open>RecyclableConnection::recycle\<close>: \<open>try_send\<close> fails, and drops it, when full or closed.\<close>

definition recycle :: "recyclable \<Rightarrow> 'w pstate \<Rightarrow> 'w pstate" where
  "recycle rc s =
     (if fmlookup (chans s) (rc_send rc) = Some None
      then s\<lparr>chans := fmupd (rc_send rc) (Some (rc_conn rc)) (chans s)\<rparr>
      else s)"

section \<open>Frames\<close>

text \<open>What talking to bitcoind leaves alone: everything but credentials and world.\<close>

definition sys_frame :: "('w, 'z) sys_scheme \<Rightarrow> ('w, 'z) sys_scheme \<Rightarrow> bool" where
  "sys_frame s s1 \<longleftrightarrow> sys.more s1 = sys.more s"

lemma sys_frame_preorder [simp]: "reflp sys_frame" "transp sys_frame"
  by (auto simp: sys_frame_def reflp_def transp_def)

lemma sys_frame_steps [simp]:
  "sys_frame s (snd (load_auth L N s))" "sys_frame s (snd (http_send N req s))"
  "sys_frame s (snd (read_body N resp s))" "sys_frame s (snd (on_world f s))"
  by (simp_all add: sys_frame_def load_auth_def http_send_def read_body_def on_world_def split: prod.splits)

interpretation frame: client_effect L N sys_frame for L :: lib and N :: "'w net"
  by unfold_locales (simp_all add: sys_frame_def load_auth_def read_body_def split: prod.splits)

lemma sys_frame_call: "sys_frame s (snd (call L N uri name de req s))"
  by (rule frame.effect_call) (simp add: frame.may_send_def)

lemma sys_frame_own_call: "own_call E m ps de s = (r, s1) \<Longrightarrow> sys_frame s s1"
  using sys_frame_call [of s "env_lib E" "env_net E" "env_uri E" "method_str m" "de_response de" "own_request m ps"]
  by (auto simp: own_call_def split: prod.splits sum.splits)

text \<open>The selectors of the extension, over a frame.\<close>

lemma sys_frame_fields:
  fixes s s1 :: "'w pstate"
  assumes "sys_frame s s1"
  shows "users_map s1 = users_map s" "network s1 = network s" "current_peers s1 = current_peers s"
    "chans s1 = chans s" "next_chan s1 = next_chan s" "refreshes s1 = refreshes s" "cache s1 = cache s"
  using assms by (cases s; cases s1; simp add: sys_frame_def)+

section \<open>The pool\<close>

text \<open>A connection that may serve a peer: it was dialled at that peer's address.\<close>

definition conn_for :: "network_params option \<Rightarrow> string \<Rightarrow> peer_connection \<Rightarrow> bool" where
  "conn_for net addr c \<longleftrightarrow> (\<exists>np. net = Some np \<and> dialled (stream_of c) = with_port np addr)"

definition pool_inv :: "'w pstate \<Rightarrow> bool" where
  "pool_inv s \<longleftrightarrow>
     distinct (map peer_chan (peer_list (current_peers s))) \<and>
     fset (fmdom (chans s)) = peer_chan ` set (peer_list (current_peers s)) \<and>
     (\<forall>c. c |\<in>| fmdom (chans s) \<longrightarrow> c < next_chan s) \<and>
     (\<forall>p\<in>set (peer_list (current_peers s)). \<forall>c. fmlookup (chans s) (peer_chan p) = Some (Some c) \<longrightarrow>
        conn_for (network s) (peer_addr p) c)"

text \<open>A handle belongs to its peer, if that peer is still listed.\<close>

definition send_ok :: "'w pstate \<Rightarrow> string \<Rightarrow> nat \<Rightarrow> bool" where
  "send_ok s addr c \<longleftrightarrow> (\<forall>p\<in>set (peer_list (current_peers s)). peer_chan p = c \<longrightarrow> peer_addr p = addr)"

definition handle_ok :: "'w pstate \<Rightarrow> peer_handle \<Rightarrow> bool" where
  "handle_ok s h \<longleftrightarrow> send_ok s (handle_addr h) (handle_send h) \<and>
     (\<forall>c. handle_conn h = Some c \<longrightarrow> conn_for (network s) (handle_addr h) c)"

text \<open>What the peer code keeps while a block is fetched: list, channels and the chain once known.\<close>

definition peer_frame :: "'w pstate \<Rightarrow> 'w pstate \<Rightarrow> bool" where
  "peer_frame s s1 \<longleftrightarrow>
     users_map s1 = users_map s \<and> current_peers s1 = current_peers s \<and> next_chan s1 = next_chan s \<and>
     refreshes s1 = refreshes s \<and> cache s1 = cache s \<and> fmdom (chans s1) = fmdom (chans s) \<and>
     (\<forall>np. network s = Some np \<longrightarrow> network s1 = Some np)"

lemma peer_frame_preorder [simp]: "reflp peer_frame" "transp peer_frame"
  by (auto simp: peer_frame_def reflp_def transp_def)

lemma peer_frame_sys: "sys_frame s s1 \<Longrightarrow> peer_frame s s1"
  by (simp add: peer_frame_def sys_frame_fields)

lemma conn_for_mono: "peer_frame s s1 \<Longrightarrow> conn_for (network s) a c \<Longrightarrow> conn_for (network s1) a c"
  by (auto simp: conn_for_def peer_frame_def)

lemma send_ok_mono: "peer_frame s s1 \<Longrightarrow> send_ok s1 a c = send_ok s a c"
  by (simp add: send_ok_def peer_frame_def)

lemma handle_ok_mono: "peer_frame s s1 \<Longrightarrow> handle_ok s h \<Longrightarrow> handle_ok s1 h"
  unfolding handle_ok_def by (simp add: send_ok_mono conn_for_mono)

lemma pool_inv_mono:
  assumes "peer_frame s s1" and "chans s1 = chans s" and "pool_inv s"
  shows "pool_inv s1"
proof -
  have "current_peers s1 = current_peers s" "next_chan s1 = next_chan s"
    using assms(1) by (simp_all add: peer_frame_def)
  then show ?thesis
    using assms(2,3) conn_for_mono [OF assms(1)] unfolding pool_inv_def by simp
qed

lemma pool_inv_sys: "sys_frame s s1 \<Longrightarrow> pool_inv s \<Longrightarrow> pool_inv s1"
  by (rule pool_inv_mono) (auto simp: peer_frame_sys sys_frame_fields)

lemma peers_of_effect:
  assumes "peers_of as s = (ps, s1)"
  shows "map peer_addr ps = as \<and> map peer_chan ps = [next_chan s..<next_chan s + length as] \<and>
     (\<forall>c. fmlookup (chans s1) c =
        (if next_chan s \<le> c \<and> c < next_chan s + length as then Some None else fmlookup (chans s) c)) \<and>
     s1 = s\<lparr>chans := chans s1, next_chan := next_chan s + length as\<rparr>"
  using assms
proof (induction as arbitrary: s ps s1)
  case (Cons a as)
  let ?s = "snd (peer_new a s)"
  obtain qs where qs: "peers_of as ?s = (qs, s1)" "ps = fst (peer_new a s) # qs"
    using Cons.prems by (auto split: prod.splits)
  note IH = Cons.IH [OF qs(1)]
  have n: "next_chan ?s = Suc (next_chan s)" "chans ?s = fmupd (next_chan s) None (chans s)"
    by (simp_all add: peer_new_def)
  have "[next_chan s..<next_chan s + length (a # as)] = next_chan s # [Suc (next_chan s)..<Suc (next_chan s) + length as]"
    by (subst upt_conv_Cons) simp_all
  moreover have "\<forall>c. fmlookup (chans s1) c =
      (if next_chan s \<le> c \<and> c < next_chan s + length (a # as) then Some None else fmlookup (chans s) c)"
    using IH n by auto
  moreover have "s1 = s\<lparr>chans := chans s1, next_chan := next_chan s + length (a # as)\<rparr>"
    using IH by (simp add: peer_new_def)
  ultimately show ?case
    using IH qs(2) n by (simp add: peer_new_def)
qed auto

lemma peers_of_fields:
  assumes "peers_of as s = (ps, s1)"
  shows "users_map s1 = users_map s" "network s1 = network s" "cache s1 = cache s" "refreshes s1 = refreshes s"
    "current_peers s1 = current_peers s" "next_chan s1 = next_chan s + length as"
proof -
  have s1: "s1 = s\<lparr>chans := chans s1, next_chan := next_chan s + length as\<rparr>"
    using peers_of_effect [OF assms] by blast
  show "users_map s1 = users_map s" "network s1 = network s" "cache s1 = cache s" "refreshes s1 = refreshes s"
    "current_peers s1 = current_peers s" "next_chan s1 = next_chan s + length as"
    by (subst s1, simp)+
qed

text \<open>Installing a list: its channels are new and empty, and the only ones left.\<close>

lemma install_effect:
  fixes f :: "time option"
  assumes inv: "pool_inv s" and p: "peers_of as s = (ps, s1)"
  defines "s2 \<equiv> install_peers \<lparr>fetched = f, peer_list = ps\<rparr> s1"
  shows "pool_inv s2" and "\<And>p. p \<in> set ps \<Longrightarrow> fmlookup (chans s2) (peer_chan p) = Some None \<and> next_chan s \<le> peer_chan p"
proof -
  note eff = peers_of_effect [OF p]
  note f1 = peers_of_fields [OF p]
  have old: "c < next_chan s" if "c \<in> peer_chan ` set (peer_list (current_peers s))" for c
    using that inv by (simp add: pool_inv_def)
  have dom: "c \<in> peer_chan ` set (peer_list (current_peers s))" if "fmlookup (chans s) c = Some x" for c x
    using fmdomI [OF that] inv by (simp add: pool_inv_def)
  have chans2: "fmlookup (chans s2) c =
      (if next_chan s \<le> c \<and> c < next_chan s + length as then Some None else None)" for c
    using eff old dom by (fastforce simp: s2_def install_peers_def f1 split: if_splits)
  have chan_set: "peer_chan ` set ps = {next_chan s..<next_chan s + length as}"
    using arg_cong [OF conjunct1 [OF conjunct2 [OF eff]], of set] by simp
  then show "fmlookup (chans s2) (peer_chan p) = Some None \<and> next_chan s \<le> peer_chan p" if "p \<in> set ps" for p
    using that chans2 by auto
  have fld: "current_peers s2 = \<lparr>fetched = f, peer_list = ps\<rparr>" "next_chan s2 = next_chan s + length as"
    "network s2 = network s"
    by (simp_all add: s2_def install_peers_def f1)
  have "fset (fmdom (chans s2)) = {next_chan s..<next_chan s + length as}"
    using chans2 by (auto simp: fmlookup_dom_iff split: if_splits)
  moreover have "distinct (map peer_chan ps)" using eff by simp
  ultimately show "pool_inv s2"
    unfolding pool_inv_def fld chan_set [symmetric] using chan_set chans2 by (auto split: if_splits)
qed

lemma refresh_effect:
  assumes inv: "pool_inv s" and run: "refresh_peers E s = (r, s2)"
  shows "pool_inv s2 \<and> network s2 = network s \<and> cache s2 = cache s \<and> users_map s2 = users_map s \<and>
    refreshes s2 = refreshes s \<and>
    (case r of
       Inl e \<Rightarrow> current_peers s2 = current_peers s \<and> chans s2 = chans s
     | Inr ps \<Rightarrow> current_peers s2 = ps \<and>
         (\<exists>infos s1. own_call E GetPeerInfo no_params (de_list de_peer_info) s = (Inr infos, s1) \<and>
            map peer_addr (peer_list ps) = selected infos) \<and>
         (\<forall>p\<in>set (peer_list ps). fmlookup (chans s2) (peer_chan p) = Some None))"
proof -
  obtain r1 s1 where c: "own_call E GetPeerInfo no_params (de_list de_peer_info) s = (r1, s1)" by fastforce
  note fr = sys_frame_own_call [OF c]
  note fld = sys_frame_fields [OF fr]
  have inv1: "pool_inv s1" using fr inv by (rule pool_inv_sys)
  show ?thesis
  proof (cases r1)
    case (Inl e)
    then show ?thesis
      using run c fld inv1 by (auto simp: refresh_peers_def peers_updated_def bind_res_def)
  next
    case (Inr infos)
    obtain ps s3 where p: "peers_of (selected infos) s1 = (ps, s3)" by fastforce
    obtain now w where w: "instant_now (env_p2p E) (world s3) = (now, w)" by fastforce
    let ?ps = "\<lparr>fetched = Some now, peer_list = ps\<rparr>"
    have rs: "r = Inr ?ps" "s2 = (install_peers ?ps s3)\<lparr>world := w\<rparr>"
      using run c Inr p w
      by (auto simp: refresh_peers_def peers_updated_def bind_res_def on_world_def install_peers_def)
    note ins = install_effect [OF inv1 p, where f = "Some now"]
    have "pool_inv s2" using ins(1) by (simp add: rs pool_inv_def)
    moreover have "map peer_addr ps = selected infos" using peers_of_effect [OF p] by simp
    ultimately show ?thesis
      using ins(2) peers_of_fields [OF p] fld c Inr by (simp add: rs install_peers_def)
  qed
qed

lemma peer_handle_effect:
  assumes inv: "pool_inv s" and p: "p \<in> set (peer_list (current_peers s))"
    and run: "peer_handle_of p s = (h, s1)"
  shows "peer_frame s s1 \<and> pool_inv s1 \<and> handle_ok s1 h \<and> handle_addr h = peer_addr p \<and>
    network s1 = network s \<and> sys.truncate s1 = sys.truncate s"
proof -
  have dom: "peer_chan p |\<in>| fmdom (chans s)" using inv p by (auto simp: pool_inv_def)
  have uniq: "q = p" if "q \<in> set (peer_list (current_peers s))" "peer_chan q = peer_chan p" for q
    using that p inv by (auto simp: pool_inv_def distinct_map inj_on_def)
  have "send_ok s (peer_addr p) (peer_chan p)" using uniq by (auto simp: send_ok_def)
  moreover have "conn_for (network s) (peer_addr p) c" if "fmlookup (chans s) (peer_chan p) = Some (Some c)" for c
    using that p inv by (simp add: pool_inv_def)
  moreover have "pool_inv (s\<lparr>chans := fmupd (peer_chan p) None (chans s)\<rparr>)"
    using inv dom by (auto simp: pool_inv_def insert_absorb split: if_splits)
  ultimately show ?thesis
    using run inv dom
    by (auto simp: peer_handle_of_def peer_frame_def handle_ok_def send_ok_def sys.truncate_def finsert_absorb
        split: option.splits)
qed

lemma handles_effect:
  assumes "pool_inv s" and "set ps \<subseteq> set (peer_list (current_peers s))" and "handles ps s = (hs, s1)"
  shows "peer_frame s s1 \<and> pool_inv s1 \<and> (\<forall>h\<in>set hs. handle_ok s1 h) \<and>
    map handle_addr hs = map peer_addr ps \<and> network s1 = network s \<and> sys.truncate s1 = sys.truncate s"
  using assms
proof (induction ps arbitrary: s hs s1)
  case (Cons p ps)
  obtain h s2 where h: "peer_handle_of p s = (h, s2)" by fastforce
  obtain hs' where hs: "handles ps s2 = (hs', s1)" "hs = h # hs'"
    using Cons.prems(3) h by (auto split: prod.splits)
  note eff = peer_handle_effect [OF Cons.prems(1) _ h]
  have e: "peer_frame s s2" "pool_inv s2" "handle_ok s2 h" "handle_addr h = peer_addr p"
    "network s2 = network s" "sys.truncate s2 = sys.truncate s"
    using eff Cons.prems(2) by auto
  have "set ps \<subseteq> set (peer_list (current_peers s2))"
    using e(1) Cons.prems(2) by (simp add: peer_frame_def)
  note IH = Cons.IH [OF e(2) this hs(1)]
  have "peer_frame s s1" using e(1) IH transpD [OF peer_frame_preorder(2)] by blast
  then show ?case using IH e hs(2) handle_ok_mono by auto
qed (simp add: peer_frame_def)

lemma recycle_effect:
  assumes inv: "pool_inv s" and ok: "send_ok s addr (rc_send rc)" and c: "conn_for (network s) addr (rc_conn rc)"
  shows "pool_inv (recycle rc s) \<and> peer_frame s (recycle rc s)"
proof (cases "fmlookup (chans s) (rc_send rc) = Some None")
  case True
  then have dom: "rc_send rc |\<in>| fmdom (chans s)" by (rule fmdomI)
  have "pool_inv (s\<lparr>chans := fmupd (rc_send rc) (Some (rc_conn rc)) (chans s)\<rparr>)"
    using inv ok c dom by (auto simp: pool_inv_def send_ok_def insert_absorb split: if_splits)
  then show ?thesis using True dom by (simp add: recycle_def peer_frame_def finsert_absorb)
qed (simp add: recycle_def inv reflpD [OF peer_frame_preorder(1)])

lemma network_params_effect:
  assumes "network_params_of E s = (r, s1)"
  shows "peer_frame s s1 \<and> chans s1 = chans s \<and>
    (case r of Inl e \<Rightarrow> network s1 = network s | Inr np \<Rightarrow> network s1 = Some np)"
proof (cases "network s")
  case None
  obtain r1 s2 where c: "own_call E GetBlockchainInfo no_params (de_blockchain_info (env_text E)) s = (r1, s2)"
    by fastforce
  note f = sys_frame_own_call [OF c]
  have "peer_frame s s2" using f by (rule peer_frame_sys)
  then show ?thesis
    using assms None c sys_frame_fields [OF f]
    by (cases r1)
      (auto simp: network_params_of_def bind_res_def map_err_def peer_frame_def split: sum.splits)
qed (use assms in \<open>auto simp: network_params_of_def peer_frame_def\<close>)

lemma truncate_handles: "handles ps s = (hs, s1) \<Longrightarrow> sys.truncate s1 = sys.truncate s"
proof (induction ps arbitrary: s hs s1)
  case (Cons p ps)
  then show ?case
    by (auto simp: peer_handle_of_def sys.truncate_def split: prod.splits option.splits)
qed simp

text \<open>Asking for the age of the list changes the world at most.\<close>

lemma stale_world:
  fixes s :: "'w pstate"
  obtains old w where "stale E ps s = (old, s\<lparr>world := w\<rparr>)"
proof (cases "fetched ps")
  case None
  then have "stale E ps s = (True, s\<lparr>world := world s\<rparr>)" by (simp add: stale_def)
  then show ?thesis by (rule that)
next
  case (Some f)
  obtain now w where "instant_now (env_p2p E) (world s) = (now, w)" by fastforce
  then have "stale E ps s = (now - f > env_max_peer_age E, s\<lparr>world := w\<rparr>)"
    using Some by (simp add: stale_def on_world_def)
  then show ?thesis by (rule that)
qed

text \<open>Peers whose channels are open and empty hand out no connection.\<close>

lemma handles_fresh:
  "\<forall>p\<in>set ps. fmlookup (chans s) (peer_chan p) = Some None \<Longrightarrow>
   handles ps s = (map (\<lambda>p. \<lparr>handle_addr = peer_addr p, handle_conn = None, handle_send = peer_chan p\<rparr>) ps, s)"
  by (induction ps) (simp_all add: peer_handle_of_def)

lemma get_peers_effect:
  assumes inv: "pool_inv s" and run: "get_peers E s = (r, s1)"
  shows "pool_inv s1 \<and> cache s1 = cache s \<and> users_map s1 = users_map s \<and> network s1 = network s \<and>
    (\<forall>hs. r = Inr hs \<longrightarrow> (\<forall>h\<in>set hs. handle_ok s1 h))"
proof -
  obtain old w where w: "stale E (current_peers s) s = (old, s\<lparr>world := w\<rparr>)" by (rule stale_world)
  have inv1: "pool_inv (s\<lparr>world := w\<rparr>)" "pool_inv (s\<lparr>world := w, refreshes := n\<rparr>)" for n
    using inv by (simp_all add: pool_inv_def)
  have direct: ?thesis
    if "handles (peer_list (current_peers s)) s0 = (hs, s1)" "r = Inr hs"
      "s0 = s\<lparr>world := w\<rparr> \<or> s0 = s\<lparr>world := w, refreshes := n\<rparr>" for s0 hs n
  proof -
    have "pool_inv s0" "current_peers s0 = current_peers s" "cache s0 = cache s" "users_map s0 = users_map s"
      "network s0 = network s" using that(3) inv1 by auto
    moreover have "set (peer_list (current_peers s)) \<subseteq> set (peer_list (current_peers s0))"
      using calculation(2) by simp
    ultimately show ?thesis
      using handles_effect [OF _ _ that(1)] that(2) by (simp add: peer_frame_def)
  qed
  show ?thesis
  proof (cases "old \<and> peers_is_empty (current_peers s)")
    case True
    obtain r2 s2 where ref: "refresh_peers E (s\<lparr>world := w\<rparr>) = (r2, s2)" by fastforce
    note eff = refresh_effect [OF inv1(1) ref]
    show ?thesis
    proof (cases r2)
      case (Inl e)
      then show ?thesis
        using run True w ref eff by (auto simp: get_peers_def bind_res_def Let_def)
    next
      case (Inr ps)
      obtain hs s3 where hs: "handles (peer_list ps) s2 = (hs, s3)" by fastforce
      have "r = Inr hs" "s1 = s3"
        using run True w ref Inr hs by (auto simp: get_peers_def bind_res_def Let_def)
      then show ?thesis
        using handles_effect [OF _ _ hs] eff Inr by (simp add: peer_frame_def)
    qed
  next
    case False
    then obtain s0 hs where "handles (peer_list (current_peers s)) s0 = (hs, s1)" "r = Inr hs"
      "s0 = s\<lparr>world := w\<rparr> \<or> s0 = s\<lparr>world := w, refreshes := Suc (refreshes s)\<rparr>"
      using run w by (fastforce simp: get_peers_def Let_def apfst_def map_prod_def
          split: prod.splits if_splits)
    then show ?thesis by (rule direct)
  qed
qed

section \<open>A concrete environment\<close>

text \<open>
  For witnesses: the world is what the peer will send; bitcoind answers a call by its
  method; every connection succeeds.
\<close>

definition demo_method :: "json \<Rightarrow> string" where
  "demo_method v = (case v of Object es \<Rightarrow> (case map_of es ''method'' of Some (String m) \<Rightarrow> m | _ \<Rightarrow> []) | _ \<Rightarrow> [])"

definition demo_node_lib :: "(string \<Rightarrow> json) \<Rightarrow> lib" where
  "demo_node_lib answer = demo_lib\<lparr>to_string := (\<lambda>v. Inr (demo_method v)),
     parse_json := (\<lambda>b. Inr (answer (map (\<lambda>c. char_of (unat c)) b)))\<rparr>"

definition demo_node_net :: "raw_message list net" where
  "demo_node_net = \<lparr>net_fs = \<lparr>fs_metadata = (\<lambda>p w. (Inl ''none'', w)), fs_read_to_string = (\<lambda>p w. (Inl ''none'', w))\<rparr>,
     http = (\<lambda>r w. (Inr \<lparr>resp_status = OK, resp_headers = [], resp_body = as_bytes (out_body r)\<rparr>, w)),
     to_bytes = (\<lambda>r w. (Inr (resp_body r), w))\<rparr>"

definition demo_p2p :: "raw_message list p2p" where
  "demo_p2p = \<lparr>instant_now = (\<lambda>w. (1000, w)), system_secs = (\<lambda>w. (5, w)),
     tcp_connect = (\<lambda>a w. (Inr 3, w)), socks_connect = (\<lambda>p a w. (Inr 4, w)),
     tcp_nodelay = (\<lambda>k w. (Inl (Io ''nodelay''), w)), write_msg = (\<lambda>k m w. (Inr (), w)), flush_stream = (\<lambda>k w. (Inr (), w)),
     read_msg = (\<lambda>k w. case w of [] \<Rightarrow> (Inl Elapsed, []) | m # ms \<Rightarrow> (Inr m, ms)),
     race = (\<lambda>w. (True, w))\<rparr>"

definition demo_env :: "(string \<Rightarrow> json) \<Rightarrow> raw_message list env" where
  "demo_env answer = \<lparr>env_lib = demo_node_lib answer, env_net = demo_node_net, env_text = demo_text,
     env_btc = demo_btc, env_auth = demo_auth, env_p2p = demo_p2p, env_uri = ''http://127.0.0.1:8332/'',
     env_tor = None, env_i2p_proxy = None, env_max_peer_age = 300, env_patience = 4,
     env_show_update = (\<lambda>e. ''peers'')\<rparr>"

definition demo_state :: "raw_message list \<Rightarrow> raw_message list pstate" where
  "demo_state w = \<lparr>auth = AuthConst ''u'' ''p'' ''Basic x'', world = w, users_map = demo_users,
     network = None, current_peers = peers_new, chans = fmempty, next_chan = 0, refreshes = 0,
     cache = cache_new 1000\<rparr>"

lemma demo_pool_inv [simp]: "pool_inv (demo_state w)"
  by (simp add: pool_inv_def demo_state_def peers_new_def)

lemma chars_as_bytes: "map (\<lambda>c. char_of (unat c)) (as_bytes s) = s"
  by (simp add: as_bytes_def comp_def del: of_char_of)

lemma demo_own_call:
  assumes "auth s = AuthConst ''u'' ''p'' ''Basic x''"
    and "de_response de (answer (method_str m)) = Inr \<lparr>resp_id = None, error = None, result = Some x\<rparr>"
  shows "own_call (demo_env answer) m ps de s = (Inr x, s)"
proof -
  have body: "demo_method (own_request m ps) = method_str m"
    by (simp add: demo_method_def own_request_def ser_request_with_def ser_method_def)
  have "call (demo_node_lib answer) demo_node_net uri name (de_response de) (own_request m ps) s =
      (Inr \<lparr>resp_id = None, error = None, result = Some x\<rparr>, s)" for uri name
    using assms
    by (simp add: call_def demo_node_lib_def demo_lib_def demo_node_net_def load_auth_def http_send_def
        read_body_def body chars_as_bytes)
  then show ?thesis by (simp add: own_call_def demo_env_def into_result_def)
qed

section \<open>Properties\<close>

text \<open>
  C28: a refresh lists exactly the peers that can serve a block. When bitcoind answers
  \<open>getpeerinfo\<close>, the list becomes its outbound peers that offer both \<open>NETWORK\<close> and \<open>WITNESS\<close>,
  in its order, each with a channel of its own and no connection; the pool stays sound. When
  the call fails, the old list and its idle connections stay.
\<close>

theorem refresh_selects_peers:
  assumes "pool_inv s" and "own_call E GetPeerInfo no_params (de_list de_peer_info) s = (r, s1)"
  shows "case r of
      Inl e \<Rightarrow> \<exists>s2. refresh_peers E s = (Inl e, s2) \<and> current_peers s2 = current_peers s \<and> chans s2 = chans s
    | Inr infos \<Rightarrow> \<exists>ps s2. refresh_peers E s = (Inr ps, s2) \<and> current_peers s2 = ps \<and> pool_inv s2 \<and>
        map peer_addr (peer_list ps) =
          map pi_addr (filter (\<lambda>p. \<not> inbound p \<and> {''NETWORK'', ''WITNESS''} \<subseteq> fset (servicesnames p)) infos) \<and>
        (\<forall>p\<in>set (peer_list ps). fmlookup (chans s2) (peer_chan p) = Some None)"
proof -
  obtain r2 s2 where run: "refresh_peers E s = (r2, s2)" by fastforce
  note eff = refresh_effect [OF assms(1) run]
  have sel: "selected infos =
      map pi_addr (filter (\<lambda>p. \<not> inbound p \<and> {''NETWORK'', ''WITNESS''} \<subseteq> fset (servicesnames p)) infos)" for infos
    by (simp add: selected_def conj_commute conj_left_commute)
  show ?thesis
  proof (cases r)
    case (Inl e)
    then have "r2 = Inl e"
      using run assms(2) by (simp add: refresh_peers_def peers_updated_def bind_res_def)
    then show ?thesis using run eff Inl by auto
  next
    case (Inr infos)
    then obtain ps where "r2 = Inr ps"
      using run assms(2) by (auto simp: refresh_peers_def peers_updated_def bind_res_def split: prod.splits)
    then show ?thesis using run eff Inr assms(2) sel by auto
  qed
qed

theorem refresh_selects_peers_witness:
  "\<exists>ps s2. refresh_peers (demo_env (\<lambda>m. Object [(''result'', Array [
        Object [(''addr'', String ''a:1''), (''inbound'', Bool True), (''servicesnames'', Array [String ''NETWORK'', String ''WITNESS''])],
        Object [(''addr'', String ''b:1''), (''inbound'', Bool False), (''servicesnames'', Array [String ''NETWORK''])],
        Object [(''addr'', String ''c:1''), (''inbound'', Bool False), (''servicesnames'', Array [String ''WITNESS'', String ''NETWORK''])]])]))
      (demo_state []) = (Inr ps, s2) \<and> map peer_addr (peer_list ps) = [''c:1'']"
proof -
  let ?info = "\<lambda>a i sv. \<lparr>pi_addr = a, servicesnames = sv, inbound = i\<rparr>"
  let ?infos = "[?info ''a:1'' True {|''NETWORK'', ''WITNESS''|}, ?info ''b:1'' False {|''NETWORK''|},
     ?info ''c:1'' False {|''WITNESS'', ''NETWORK''|}]"
  let ?answer = "\<lambda>m :: string. Object [(''result'', Array [
        Object [(''addr'', String ''a:1''), (''inbound'', Bool True), (''servicesnames'', Array [String ''NETWORK'', String ''WITNESS''])],
        Object [(''addr'', String ''b:1''), (''inbound'', Bool False), (''servicesnames'', Array [String ''NETWORK''])],
        Object [(''addr'', String ''c:1''), (''inbound'', Bool False), (''servicesnames'', Array [String ''WITNESS'', String ''NETWORK''])]])]"
  have "own_call (demo_env ?answer) GetPeerInfo no_params (de_list de_peer_info) (demo_state []) =
      (Inr ?infos, demo_state [])"
    by (rule demo_own_call)
      (simp_all add: demo_state_def de_response_def optional_def field_def de_peer_info_def required_def)
  from refresh_selects_peers [OF demo_pool_inv this] show ?thesis by auto
qed

text \<open>
  C29: a stale list serves while it is refreshed, an empty one waits. With a list that is not
  empty, asking for peers never fails and asks bitcoind nothing, whatever the list's age: it
  returns the listed peers at once and only notes that a refresh is to run, when the list is too
  old or was never fetched. A stale list that is empty waits for the refresh: when that fails,
  so does asking for peers, with its error; when it gives a list, the peers of the new list are
  returned, with no connection yet, and no refresh is left to run. A list that is empty but was
  fetched recently is not refreshed: there are no peers.
\<close>

theorem stale_list_still_serves:
  assumes "pool_inv s" and "instant_now (env_p2p E) (world s) = (now, w)"
  shows "let ps = current_peers s;
             old = (case fetched ps of None \<Rightarrow> True | Some f \<Rightarrow> now - f > env_max_peer_age E);
             s0 = (case fetched ps of None \<Rightarrow> s | Some f \<Rightarrow> s\<lparr>world := w\<rparr>) in
         (peer_list ps \<noteq> [] \<longrightarrow>
            (\<exists>hs s1. get_peers E s = (Inr hs, s1) \<and> map handle_addr hs = map peer_addr (peer_list ps) \<and>
               auth s1 = auth s \<and> world s1 = world s0 \<and> current_peers s1 = ps \<and>
               refreshes s1 = refreshes s + (if old then 1 else 0))) \<and>
         (peer_list ps = [] \<and> old \<longrightarrow>
            (case refresh_peers E s0 of
               (Inl e, s1) \<Rightarrow> get_peers E s = (Inl e, s1)
             | (Inr new, s1) \<Rightarrow>
                 get_peers E s = (Inr (map (\<lambda>p. \<lparr>handle_addr = peer_addr p, handle_conn = None, handle_send = peer_chan p\<rparr>)
                   (peer_list new)), s1) \<and>
                 current_peers s1 = new \<and> refreshes s1 = refreshes s)) \<and>
         (peer_list ps = [] \<and> \<not> old \<longrightarrow> get_peers E s = (Inr [], s0))"
proof -
  define ps where "ps = current_peers s"
  define old where "old = (case fetched ps of None \<Rightarrow> True | Some f \<Rightarrow> now - f > env_max_peer_age E)"
  define s0 where "s0 = (case fetched ps of None \<Rightarrow> s | Some f \<Rightarrow> s\<lparr>world := w\<rparr>)"
  have st: "stale E ps s = (old, s0)"
    using assms(2) by (simp add: stale_def old_def s0_def on_world_def split: option.splits)
  have s0: "pool_inv s0" "current_peers s0 = ps" "auth s0 = auth s" "refreshes s0 = refreshes s"
    using assms(1) by (auto simp: s0_def ps_def pool_inv_def split: option.splits)
  have full: "\<exists>hs s1. get_peers E s = (Inr hs, s1) \<and> map handle_addr hs = map peer_addr (peer_list ps) \<and>
      auth s1 = auth s \<and> world s1 = world s0 \<and> current_peers s1 = ps \<and>
      refreshes s1 = refreshes s + (if old then 1 else 0)" if "peer_list ps \<noteq> []"
  proof -
    define t where "t = (if old then s0\<lparr>refreshes := Suc (refreshes s0)\<rparr> else s0)"
    obtain hs s1 where hs: "handles (peer_list ps) t = (hs, s1)" by fastforce
    have t: "pool_inv t" "current_peers t = ps" "auth t = auth s" "world t = world s0"
      "refreshes t = refreshes s + (if old then 1 else 0)"
      using s0 by (simp_all add: t_def pool_inv_def)
    then have eff: "peer_frame t s1" "map handle_addr hs = map peer_addr (peer_list ps)"
      "sys.truncate s1 = sys.truncate t"
      using handles_effect [OF _ _ hs] by simp_all
    have "get_peers E s = (Inr hs, s1)"
      using hs that by (cases old) (simp_all add: get_peers_def st peers_is_empty_def Let_def t_def flip: ps_def)
    then show ?thesis using eff t by (simp add: sys.truncate_def peer_frame_def)
  qed
  have waits: "case refresh_peers E s0 of
       (Inl e, s1) \<Rightarrow> get_peers E s = (Inl e, s1)
     | (Inr new, s1) \<Rightarrow>
         get_peers E s = (Inr (map (\<lambda>p. \<lparr>handle_addr = peer_addr p, handle_conn = None, handle_send = peer_chan p\<rparr>)
           (peer_list new)), s1) \<and>
         current_peers s1 = new \<and> refreshes s1 = refreshes s" if "peer_list ps = []" "old"
  proof -
    obtain r s1 where ref: "refresh_peers E s0 = (r, s1)" by fastforce
    show ?thesis
      using that refresh_effect [OF s0(1) ref] s0(4) handles_fresh [of _ s1]
      by (cases r) (simp_all add: ref get_peers_def st peers_is_empty_def bind_res_def Let_def flip: ps_def)
  qed
  have none: "get_peers E s = (Inr [], s0)" if "peer_list ps = []" "\<not> old"
    using that by (simp add: get_peers_def st Let_def flip: ps_def)
  show ?thesis
    unfolding Let_def ps_def [symmetric] old_def [symmetric] s0_def [symmetric]
    by (intro conjI impI; (elim conjE)?) (fact full waits none)+
qed

theorem stale_list_still_serves_witness:
  "(\<exists>hs s1. get_peers (demo_env (\<lambda>m. Null))
      ((demo_state [])\<lparr>current_peers := \<lparr>fetched = Some 1, peer_list = [\<lparr>peer_addr = ''a:1'', peer_chan = 0\<rparr>]\<rparr>,
        chans := fmupd 0 None fmempty, next_chan := 1\<rparr>) = (Inr hs, s1) \<and>
      map handle_addr hs = [''a:1''] \<and> refreshes s1 = 1) \<and>
   get_peers (demo_env (\<lambda>m. Null)) ((demo_state [])\<lparr>current_peers := \<lparr>fetched = Some 900, peer_list = []\<rparr>\<rparr>) =
     (Inr [], (demo_state [])\<lparr>current_peers := \<lparr>fetched = Some 900, peer_list = []\<rparr>\<rparr>)"
proof -
  let ?E = "demo_env (\<lambda>m. Null)"
  let ?s = "(demo_state [])\<lparr>current_peers := \<lparr>fetched = Some 1, peer_list = [\<lparr>peer_addr = ''a:1'', peer_chan = 0\<rparr>]\<rparr>,
        chans := fmupd 0 None fmempty, next_chan := 1\<rparr>"
  let ?t = "(demo_state [])\<lparr>current_peers := \<lparr>fetched = Some 900, peer_list = []\<rparr>\<rparr>"
  have inv: "pool_inv ?s" "pool_inv ?t" by (simp_all add: pool_inv_def demo_state_def)
  have clock: "instant_now (env_p2p ?E) (world ?s) = (1000, [])" "instant_now (env_p2p ?E) (world ?t) = (1000, [])"
    and age: "env_max_peer_age ?E = 300" and w: "?t\<lparr>world := []\<rparr> = ?t" "refreshes ?s = 0"
    by (simp_all add: demo_env_def demo_p2p_def demo_state_def)
  have "\<exists>hs s1. get_peers ?E ?s = (Inr hs, s1) \<and> map handle_addr hs = [''a:1''] \<and> refreshes s1 = 1"
    using stale_list_still_serves [OF inv(1) clock(1)] age w(2) by (auto simp: Let_def)
  moreover have "get_peers ?E ?t = (Inr [], ?t)"
    using stale_list_still_serves [OF inv(2) clock(2)] age w(1) by (simp add: Let_def)
  ultimately show ?thesis by blast
qed

end
