(* ===== verification/Peer_Fetch.thy ===== *)
theory Peer_Fetch
  imports Proxy_State
begin

text \<open>
  Fetching a block (\<open>src/fetch_blocks.rs\<close>): connecting to a peer, the exchange with it, the
  walk over the peers, and \<open>fetch_block_raw\<close>, which asks the cache, then bitcoind, then the
  peers. Peers are tried one after the other, in the order in which the stream of handles
  yields them: \<open>StreamExt::then\<close> starts a peer's exchange when the previous one is over.

  How many messages of a peer are read before the deadline passes is the parameter
  \<open>env_patience\<close>; a read may also report the deadline itself.
\<close>

section \<open>Connecting\<close>

datatype fetch_error =
    FetchParams params_error
  | FetchRoute string
  | FetchIo io_failure
  | WitnessCheckFailed blockhash
  | MerkleCheckFailed blockhash
  | UnexpectedHash blockhash blockhash

text \<open>An operation of the peer-to-peer parameters as a step of the fetch.\<close>

definition io :: "('w \<Rightarrow> (io_failure + 'a) \<times> 'w) \<Rightarrow> 'w pstate \<Rightarrow> (fetch_error + 'a) \<times> 'w pstate" where
  "io f = map_err FetchIo (on_world f)"

fun open_stream :: "'w env \<Rightarrow> route \<Rightarrow> 'w pstate \<Rightarrow> (fetch_error + peer_connection) \<times> 'w pstate" where
  "open_stream E (DialDirect addr) =
     bind_res (io (tcp_connect (env_p2p E) addr)) (\<lambda>k. return_ok (Direct \<lparr>dialled = addr, socket = k\<rparr>))"
| "open_stream E (DialProxied proxy addr) =
     bind_res (io (socks_connect (env_p2p E) proxy addr)) (\<lambda>k. return_ok (Proxied \<lparr>dialled = addr, socket = k\<rparr>))"

text \<open>A failure to set the option is only logged.\<close>

definition set_nodelay :: "'w env \<Rightarrow> peer_connection \<Rightarrow> 'w pstate \<Rightarrow> (fetch_error + unit) \<times> 'w pstate" where
  "set_nodelay E c s = (case on_world (tcp_nodelay (env_p2p E) (socket (stream_of c))) s of (_, s1) \<Rightarrow> (Inr (), s1))"

definition handshake :: "'w env \<Rightarrow> u32 \<Rightarrow> nat \<Rightarrow> 'w pstate \<Rightarrow> (fetch_error + unit) \<times> 'w pstate" where
  "handshake E m k s =
     (case on_world (system_secs (env_p2p E)) s of
        (secs, s1) \<Rightarrow>
          bind_res (io (write_msg (env_p2p E) k (version_message m secs))) (\<lambda>_.
          bind_res (io (flush_stream (env_p2p E) k)) (\<lambda>_.
          bind_res (io (read_msg (env_p2p E) k)) (\<lambda>_.
          bind_res (io (read_msg (env_p2p E) k)) (\<lambda>_.
          bind_res (io (write_msg (env_p2p E) k (ver_ack m))) (\<lambda>_.
          io (flush_stream (env_p2p E) k)))))) s1)"

definition connect :: "'w env \<Rightarrow> string \<Rightarrow> 'w pstate \<Rightarrow> (fetch_error + peer_connection) \<times> 'w pstate" where
  "connect E addr =
     bind_res (map_err FetchParams (network_params_of E)) (\<lambda>np.
       case choose_route (env_tor E) (env_i2p_proxy E) (with_port np addr) of
         Inl e \<Rightarrow> return_err (FetchRoute e)
       | Inr r \<Rightarrow>
           bind_res (open_stream E r) (\<lambda>c.
           bind_res (set_nodelay E c) (\<lambda>_.
           bind_res (handshake E (magic np) (socket (stream_of c))) (\<lambda>_. return_ok c))))"

definition handle_connect :: "'w env \<Rightarrow> peer_handle \<Rightarrow> 'w pstate \<Rightarrow> (fetch_error + recyclable) \<times> 'w pstate" where
  "handle_connect E h =
     (case handle_conn h of
        Some c \<Rightarrow> return_ok \<lparr>rc_conn = c, rc_send = handle_send h\<rparr>
      | None \<Rightarrow>
          bind_res (connect E (handle_addr h)) (\<lambda>c. return_ok \<lparr>rc_conn = c, rc_send = handle_send h\<rparr>))"

section \<open>The exchange with a peer\<close>

definition judge :: "bitcoin_lib \<Rightarrow> blockhash \<Rightarrow> block \<Rightarrow> fetch_error + block" where
  "judge B h b =
     (let returned_hash = block_hash B b; merkle_check = check_merkle_root B b;
          witness_check = check_witnesses B b in
      if returned_hash = h then
        (if merkle_check then (if witness_check then Inr b else Inl (WitnessCheckFailed h))
         else Inl (MerkleCheckFailed h))
      else Inl (UnexpectedHash h returned_hash))"

fun receive_block :: "'w env \<Rightarrow> u32 \<Rightarrow> blockhash \<Rightarrow> nat \<Rightarrow> nat \<Rightarrow> 'w pstate \<Rightarrow> (fetch_error + block) \<times> 'w pstate" where
  "receive_block E m h k 0 = return_err (FetchIo Elapsed)"
| "receive_block E m h k (Suc n) =
     bind_res (io (read_msg (env_p2p E) k)) (\<lambda>msg.
       case msg_payload msg of
         BlockMsg b \<Rightarrow> (\<lambda>s. (judge (env_btc E) h b, s))
       | Ping p \<Rightarrow>
           bind_res (io (write_msg (env_p2p E) k (pong_message m p))) (\<lambda>_. receive_block E m h k n)
       | _ \<Rightarrow> receive_block E m h k n)"

definition fetch_block_from_peer :: "'w env \<Rightarrow> blockhash \<Rightarrow> recyclable \<Rightarrow> 'w pstate \<Rightarrow>
    (fetch_error + block \<times> recyclable) \<times> 'w pstate" where
  "fetch_block_from_peer E h rc =
     bind_res (map_err FetchParams (network_params_of E)) (\<lambda>np.
     bind_res (io (write_msg (env_p2p E) (socket (stream_of (rc_conn rc))) (get_block_message (magic np) h))) (\<lambda>_.
     bind_res (receive_block E (magic np) h (socket (stream_of (rc_conn rc))) (env_patience E)) (\<lambda>b.
     return_ok (b, rc))))"

definition try_peer :: "'w env \<Rightarrow> blockhash \<Rightarrow> peer_handle \<Rightarrow> 'w pstate \<Rightarrow>
    (fetch_error + block \<times> recyclable) \<times> 'w pstate" where
  "try_peer E h p = bind_res (handle_connect E p) (fetch_block_from_peer E h)"

fun fetch_block_from_peers :: "'w env \<Rightarrow> blockhash \<Rightarrow> peer_handle list \<Rightarrow> 'w pstate \<Rightarrow>
    block option \<times> 'w pstate" where
  "fetch_block_from_peers E h [] s = (None, s)"
| "fetch_block_from_peers E h (p # ps) s =
     (case try_peer E h p s of
        (Inr (b, conn), s1) \<Rightarrow> (Some b, recycle conn s1)
      | (Inl e, s1) \<Rightarrow> fetch_block_from_peers E h ps s1)"

section \<open>A block by its hash\<close>

definition fetch_block_from_self :: "'w env \<Rightarrow> blockhash \<Rightarrow> 'w pstate \<Rightarrow>
    (rpc_error + bytes option) \<times> 'w pstate" where
  "fetch_block_from_self E h s =
     (case own_call E GetBlock (get_block_params (env_text E) h (Some 0))
             (de_either (de_hex (env_text E)) (de_get_block_result (env_text E))) s of
        (Inr b, s1) \<Rightarrow>
          (case into_left b of
             Some data \<Rightarrow> (Inr (Some data), s1)
           | None \<Rightarrow> (Inl (rpc_error_of_anyhow ''unexpected response for getblock''), s1))
      | (Inl (CallRpc e), s1) \<Rightarrow>
          (if code e = MISC_ERROR_CODE \<and> message e = PRUNE_ERROR_MESSAGE then (Inr None, s1) else (Inl e, s1))
      | (Inl (CallClient e), s1) \<Rightarrow> (Inl (rpc_error_of_client (env_lib E) e), s1))"

text \<open>The part of \<open>fetch_block_raw\<close> that runs when bitcoind has pruned the block.\<close>

definition fetch_pruned :: "'w env \<Rightarrow> blockhash \<Rightarrow> 'w pstate \<Rightarrow> (rpc_error + bytes option) \<times> 'w pstate" where
  "fetch_pruned E h =
     bind_res (map_err (\<lambda>e. rpc_error_of_anyhow (env_show_update E e)) (get_peers E)) (\<lambda>peers s.
       case fetch_block_from_peers E h peers s of
         (None, s1) \<Rightarrow> (Inr None, s1)
       | (Some b, s1) \<Rightarrow>
           (case encode_block (env_btc E) b of
              Inl e \<Rightarrow> (Inl (rpc_error_of_anyhow e), s1)
            | Inr serialized \<Rightarrow>
                (Inr (Some serialized), s1\<lparr>cache := cache_insert (cache s1) h serialized\<rparr>)))"

definition fetch_block_raw :: "'w env \<Rightarrow> blockhash \<Rightarrow> 'w pstate \<Rightarrow>
    (rpc_error + bytes option) \<times> 'w pstate" where
  "fetch_block_raw E h s =
     (case cache_get (cache s) h of
        (Some b, c) \<Rightarrow> (Inr (Some b), s\<lparr>cache := c\<rparr>)
      | (None, c) \<Rightarrow>
          bind_res (fetch_block_from_self E h)
            (\<lambda>res. case res of Some b \<Rightarrow> return_ok (Some b) | None \<Rightarrow> fetch_pruned E h) (s\<lparr>cache := c\<rparr>))"

definition fetch_block :: "'w env \<Rightarrow> blockhash \<Rightarrow> 'w pstate \<Rightarrow> (rpc_error + block option) \<times> 'w pstate" where
  "fetch_block E h =
     bind_res (fetch_block_raw E h) (\<lambda>res.
       case res of
         None \<Rightarrow> return_ok None
       | Some data \<Rightarrow>
           (case decode_block (env_btc E) data of
              Inl e \<Rightarrow> return_err (rpc_error_of_anyhow e)
            | Inr b \<Rightarrow> return_ok (Some b)))"

section \<open>Library lemmas\<close>

text \<open>A block the proxy may serve for a hash, and the bytes of one.\<close>

definition valid_block :: "bitcoin_lib \<Rightarrow> blockhash \<Rightarrow> block \<Rightarrow> bool" where
  "valid_block B h b \<longleftrightarrow> block_hash B b = h \<and> check_merkle_root B b \<and> check_witnesses B b"

definition valid_bytes :: "bitcoin_lib \<Rightarrow> blockhash \<Rightarrow> bytes \<Rightarrow> bool" where
  "valid_bytes B h data \<longleftrightarrow> (\<exists>b. valid_block B h b \<and> encode_block B b = Inr data)"

lemma judge_Inr_iff: "judge B h b = Inr b' \<longleftrightarrow> b' = b \<and> valid_block B h b"
  by (auto simp: judge_def valid_block_def Let_def)

lemma sys_frame_io: "stays_in sys_frame (io f :: 'w pstate \<Rightarrow> (fetch_error + 'a) \<times> 'w pstate)"
  unfolding io_def by (rule stays_in_simple) (simp add: stays_in_def)

lemma sys_frame_bind_res:
  "stays_in sys_frame m \<Longrightarrow> (\<And>x. stays_in sys_frame (f x)) \<Longrightarrow> stays_in sys_frame (bind_res m f)"
  by (rule stays_in_bind_res) simp_all

lemmas sys_frame_rules = sys_frame_bind_res sys_frame_io stays_in_simple(1) stays_in_simple(2)

lemma sys_frame_open_stream: "stays_in sys_frame (open_stream E r)"
  by (cases r) (auto intro!: sys_frame_rules)

lemma sys_frame_set_nodelay: "stays_in sys_frame (set_nodelay E c)"
  by (simp add: stays_in_def set_nodelay_def sys_frame_def on_world_def split: prod.splits)

lemma sys_frame_handshake: "stays_in sys_frame (handshake E m k)"
proof -
  have "stays_in sys_frame
      (bind_res (io (write_msg (env_p2p E) k (version_message m secs))) (\<lambda>_.
       bind_res (io (flush_stream (env_p2p E) k)) (\<lambda>_.
       bind_res (io (read_msg (env_p2p E) k)) (\<lambda>_.
       bind_res (io (read_msg (env_p2p E) k)) (\<lambda>_.
       bind_res (io (write_msg (env_p2p E) k (ver_ack m))) (\<lambda>_.
       io (flush_stream (env_p2p E) k))))) ))" for secs
    by (intro sys_frame_rules)
  then have "sys_frame s1 (snd (bind_res (io (write_msg (env_p2p E) k (version_message m secs))) (\<lambda>_.
       bind_res (io (flush_stream (env_p2p E) k)) (\<lambda>_.
       bind_res (io (read_msg (env_p2p E) k)) (\<lambda>_.
       bind_res (io (read_msg (env_p2p E) k)) (\<lambda>_.
       bind_res (io (write_msg (env_p2p E) k (ver_ack m))) (\<lambda>_.
       io (flush_stream (env_p2p E) k))))) ) s1))" for secs s1
    by (simp add: stays_in_def)
  moreover have "sys_frame s s1" if "on_world (system_secs (env_p2p E)) s = (r, s1)" for s s1 :: "'a pstate" and r
    using that sys_frame_steps(4) [of s "system_secs (env_p2p E)"] by simp
  ultimately show ?thesis
    using transpD [OF sys_frame_preorder(2)]
    by (fastforce simp: stays_in_def handshake_def split: prod.splits)
qed

lemma sys_frame_receive_block: "stays_in sys_frame (receive_block E m h k n)"
proof (induction n)
  case (Suc n)
  have "stays_in sys_frame (\<lambda>s. (judge (env_btc E) h b, s))" for b
    by (simp add: stays_in_def reflpD [OF sys_frame_preorder(1)])
  then show ?case
    using Suc by (auto intro!: sys_frame_rules split: payload.splits)
qed (simp add: stays_in_simple)

text \<open>What an exchange with one peer keeps: everything but world, credentials and the known chain.\<close>

definition quiet_frame :: "'w pstate \<Rightarrow> 'w pstate \<Rightarrow> bool" where
  "quiet_frame s s1 \<longleftrightarrow> peer_frame s s1 \<and> chans s1 = chans s"

lemma quiet_frame_preorder [simp]: "reflp quiet_frame" "transp quiet_frame"
  by (auto simp: quiet_frame_def peer_frame_def reflp_def transp_def)

lemma quiet_frame_of_sys: "stays_in sys_frame m \<Longrightarrow> stays_in quiet_frame m"
  by (simp add: stays_in_def quiet_frame_def peer_frame_sys sys_frame_fields)

lemma quiet_frame_bind_res:
  "stays_in quiet_frame m \<Longrightarrow> (\<And>x. stays_in quiet_frame (f x)) \<Longrightarrow> stays_in quiet_frame (bind_res m f)"
  by (rule stays_in_bind_res) simp_all

lemma quiet_frame_params: "stays_in quiet_frame (map_err f (network_params_of E))"
  by (rule stays_in_simple) (metis network_params_effect prod.collapse quiet_frame_def stays_in_def)

lemmas quiet_frame_rules = quiet_frame_bind_res quiet_frame_params quiet_frame_of_sys [OF sys_frame_io]
  quiet_frame_of_sys [OF sys_frame_open_stream] quiet_frame_of_sys [OF sys_frame_set_nodelay]
  quiet_frame_of_sys [OF sys_frame_handshake]
  quiet_frame_of_sys [OF sys_frame_receive_block] stays_in_simple(1,2) [OF quiet_frame_preorder(1)]

lemma quiet_frame_connect: "stays_in quiet_frame (connect E addr)"
  unfolding connect_def by (auto intro!: quiet_frame_rules split: sum.splits)

lemma quiet_frame_try_peer: "stays_in quiet_frame (try_peer E h p)"
  unfolding try_peer_def handle_connect_def fetch_block_from_peer_def
  by (auto intro!: quiet_frame_rules quiet_frame_connect split: option.splits)

lemma open_stream_dialled:
  "open_stream E r s = (Inr c, s1) \<Longrightarrow>
   dialled (stream_of c) = (case r of DialDirect a \<Rightarrow> a | DialProxied p a \<Rightarrow> a)"
  by (cases r) (auto simp: bind_res_Inr_iff)

lemma connect_conn_for:
  assumes "connect E addr s = (Inr c, s1)"
  shows "conn_for (network s1) addr c"
proof -
  from assms obtain np s2 where np: "network_params_of E s = (Inr np, s2)"
    and rest: "(case choose_route (env_tor E) (env_i2p_proxy E) (with_port np addr) of
         Inl e \<Rightarrow> return_err (FetchRoute e)
       | Inr r \<Rightarrow>
           bind_res (open_stream E r) (\<lambda>c.
           bind_res (set_nodelay E c) (\<lambda>_.
           bind_res (handshake E (magic np) (socket (stream_of c))) (\<lambda>_. return_ok c)))) s2 = (Inr c, s1)"
    unfolding connect_def bind_res_Inr_iff [of "map_err _ _"] map_err_Inr_iff by blast
  from rest obtain r s3 s5 s4 where r: "choose_route (env_tor E) (env_i2p_proxy E) (with_port np addr) = Inr r"
    and o: "open_stream E r s2 = (Inr c, s3)"
    and n: "set_nodelay E c s3 = (Inr (), s5)"
    and h: "handshake E (magic np) (socket (stream_of c)) s5 = (Inr (), s4)" "s1 = s4"
    by (cases "choose_route (env_tor E) (env_i2p_proxy E) (with_port np addr)")
      (auto simp: bind_res_Inr_iff)
  have "network s2 = Some np" using network_params_effect [OF np] by simp
  moreover have "network s3 = network s2"
    using stays_inD [OF sys_frame_open_stream o] by (rule sys_frame_fields(2))
  moreover have "network s5 = network s3"
    using stays_inD [OF sys_frame_set_nodelay n] by (rule sys_frame_fields(2))
  moreover have "network s4 = network s5"
    using stays_inD [OF sys_frame_handshake h(1)] by (rule sys_frame_fields(2))
  moreover have "dialled (stream_of c) = with_port np addr"
    using open_stream_dialled [OF o] r
    by (auto simp: choose_route_def Let_def split: if_splits option.splits)
  ultimately show ?thesis using h(2) by (simp add: conn_for_def)
qed

lemma receive_block_valid:
  "receive_block E m h k n s = (Inr b, s1) \<Longrightarrow> valid_block (env_btc E) h b"
proof (induction n arbitrary: s s1)
  case (Suc n)
  from Suc.prems obtain msg s2 where "io (read_msg (env_p2p E) k) s = (Inr msg, s2)"
    and "(case msg_payload msg of
         BlockMsg b \<Rightarrow> (\<lambda>s. (judge (env_btc E) h b, s))
       | Ping p \<Rightarrow> bind_res (io (write_msg (env_p2p E) k (pong_message m p))) (\<lambda>_. receive_block E m h k n)
       | _ \<Rightarrow> receive_block E m h k n) s2 = (Inr b, s1)"
    unfolding receive_block.simps bind_res_Inr_iff by blast
  then show ?case
    using Suc.IH by (auto simp: judge_Inr_iff bind_res_Inr_iff split: payload.splits)
qed simp

lemma try_peer_Inr:
  assumes ok: "handle_ok s p" and run: "try_peer E h p s = (Inr (b, rc), s1)"
  shows "valid_block (env_btc E) h b \<and> rc_send rc = handle_send p \<and>
    conn_for (network s1) (handle_addr p) (rc_conn rc)"
proof -
  from run obtain s2 where c: "handle_connect E p s = (Inr rc, s2)"
    and f: "fetch_block_from_peer E h rc s2 = (Inr (b, rc), s1)"
    by (auto simp: try_peer_def fetch_block_from_peer_def bind_res_Inr_iff)
  have fr: "quiet_frame s2 s1"
    using f unfolding fetch_block_from_peer_def
    by (rule stays_inD [rotated]) (auto intro!: quiet_frame_rules)
  have "rc_send rc = handle_send p"
    using c by (auto simp: handle_connect_def bind_res_Inr_iff split: option.splits)
  moreover have "conn_for (network s2) (handle_addr p) (rc_conn rc)"
    using c ok connect_conn_for
    by (auto simp: handle_connect_def bind_res_Inr_iff handle_ok_def split: option.splits)
  moreover have "valid_block (env_btc E) h b"
    using f by (auto simp: fetch_block_from_peer_def bind_res_Inr_iff dest: receive_block_valid)
  ultimately show ?thesis using fr conn_for_mono by (auto simp: quiet_frame_def)
qed

lemma fetch_from_peers_effect:
  assumes "pool_inv s" and "\<forall>p\<in>set ps. handle_ok s p" and "fetch_block_from_peers E h ps s = (r, s1)"
  shows "pool_inv s1 \<and> peer_frame s s1 \<and> (\<forall>b. r = Some b \<longrightarrow> valid_block (env_btc E) h b)"
  using assms
proof (induction ps arbitrary: s)
  case Nil
  then show ?case by (simp add: reflpD [OF peer_frame_preorder(1)])
next
  case (Cons p ps)
  obtain rp s2 where tp: "try_peer E h p s = (rp, s2)" by fastforce
  have fr: "quiet_frame s s2" using stays_inD [OF quiet_frame_try_peer tp] .
  then have inv2: "pool_inv s2" using pool_inv_mono Cons.prems(1) by (auto simp: quiet_frame_def)
  show ?case
  proof (cases rp)
    case (Inl e)
    have "\<forall>q\<in>set ps. handle_ok s2 q" using Cons.prems(2) fr handle_ok_mono by (auto simp: quiet_frame_def)
    from Cons.IH [OF inv2 this] show ?thesis
      using Cons.prems(3) tp Inl fr transpD [OF peer_frame_preorder(2)] by (auto simp: quiet_frame_def)
  next
    case (Inr br)
    obtain b rc where br: "br = (b, rc)" by fastforce
    have ok: "valid_block (env_btc E) h b" "rc_send rc = handle_send p"
      "conn_for (network s2) (handle_addr p) (rc_conn rc)"
      using try_peer_Inr [OF _ tp [unfolded Inr br]] Cons.prems(2) by simp_all
    have "send_ok s2 (handle_addr p) (rc_send rc)"
      using Cons.prems(2) fr ok(2) send_ok_mono by (auto simp: handle_ok_def quiet_frame_def)
    from recycle_effect [OF inv2 this ok(3)] show ?thesis
      using Cons.prems(3) tp Inr br fr ok(1) transpD [OF peer_frame_preorder(2)] by (auto simp: quiet_frame_def)
  qed
qed

text \<open>The invariant of the state: a sound pool, and a cache of valid blocks only.\<close>

definition proxy_inv :: "'w env \<Rightarrow> 'w pstate \<Rightarrow> bool" where
  "proxy_inv E s \<longleftrightarrow> pool_inv s \<and> cache.all_held (valid_bytes (env_btc E)) (cache s)"

lemma proxy_inv_sys: "sys_frame s s1 \<Longrightarrow> proxy_inv E s \<Longrightarrow> proxy_inv E s1"
  by (simp add: proxy_inv_def pool_inv_sys sys_frame_fields)

lemma sys_frame_fetch_self: "fetch_block_from_self E h s = (r, s1) \<Longrightarrow> sys_frame s s1"
  by (auto simp: fetch_block_from_self_def split: prod.splits sum.splits call_error.splits option.splits if_splits
      dest: sys_frame_own_call)

lemma fetch_pruned_effect:
  assumes inv: "proxy_inv E s" and run: "fetch_pruned E h s = (r, s1)"
  shows "proxy_inv E s1 \<and> users_map s1 = users_map s \<and> (\<forall>np. network s = Some np \<longrightarrow> network s1 = Some np) \<and>
    (\<forall>data. r = Inr (Some data) \<longrightarrow> valid_bytes (env_btc E) h data \<and>
       cache s1 = cache_insert (cache s) h data)"
proof -
  obtain rp s2 where gp: "get_peers E s = (rp, s2)" by fastforce
  have g: "pool_inv s2" "cache s2 = cache s" "users_map s2 = users_map s" "network s2 = network s"
    "\<forall>hs. rp = Inr hs \<longrightarrow> (\<forall>h\<in>set hs. handle_ok s2 h)"
    using get_peers_effect [OF _ gp] inv by (simp_all add: proxy_inv_def)
  show ?thesis
  proof (cases rp)
    case (Inl e)
    then show ?thesis
      using run gp g inv by (auto simp: fetch_pruned_def bind_res_def map_err_def proxy_inv_def)
  next
    case (Inr hs)
    obtain rb s3 where fp: "fetch_block_from_peers E h hs s2 = (rb, s3)" by fastforce
    have f: "pool_inv s3" "peer_frame s2 s3" "\<forall>b. rb = Some b \<longrightarrow> valid_block (env_btc E) h b"
      using fetch_from_peers_effect [OF g(1) _ fp] g(5) Inr by auto
    have c3: "cache s3 = cache s" "users_map s3 = users_map s" "\<forall>np. network s = Some np \<longrightarrow> network s3 = Some np"
      using f(2) g by (simp_all add: peer_frame_def)
    have held: "cache.all_held (valid_bytes (env_btc E)) (cache s)" using inv by (simp add: proxy_inv_def)
    have res: "(r, s1) = (case rb of
         None \<Rightarrow> (Inr None, s3)
       | Some b \<Rightarrow>
           (case encode_block (env_btc E) b of
              Inl e \<Rightarrow> (Inl (rpc_error_of_anyhow e), s3)
            | Inr d \<Rightarrow> (Inr (Some d), s3\<lparr>cache := cache_insert (cache s3) h d\<rparr>)))"
      using run gp Inr fp by (simp add: fetch_pruned_def bind_res_def map_err_def split: option.splits)
    show ?thesis
    proof (cases rb)
      case None
      then show ?thesis using res f(1) c3 held by (simp add: proxy_inv_def)
    next
      case (Some b)
      have "valid_block (env_btc E) h b" using f(3) Some by simp
      then have ok: "valid_bytes (env_btc E) h d" if "encode_block (env_btc E) b = Inr d" for d
        using that by (auto simp: valid_bytes_def)
      have "pool_inv (s3\<lparr>cache := c\<rparr>)" for c using f(1) by (simp add: pool_inv_def)
      then show ?thesis
        using res Some f(1) c3 held ok cache.all_held_store
        by (cases "encode_block (env_btc E) b") (auto simp: proxy_inv_def)
    qed
  qed
qed

abbreviation local_answer :: "'w env \<Rightarrow> blockhash \<Rightarrow> 'w pstate \<Rightarrow>
    (call_error + (bytes, get_block_result) either) \<times> 'w pstate" where
  "local_answer E h \<equiv> own_call E GetBlock (get_block_params (env_text E) h (Some 0))
     (de_either (de_hex (env_text E)) (de_get_block_result (env_text E)))"

lemma fetch_self_Some:
  "fetch_block_from_self E h s = (Inr (Some data), s1) \<Longrightarrow> local_answer E h s = (Inr (Left data), s1)"
  by (auto simp: fetch_block_from_self_def split: prod.splits sum.splits call_error.splits option.splits if_splits
      elim!: into_left.elims)

lemma cache_miss: "fst (cache_get c h) = None \<Longrightarrow> snd (cache_get c h) = c"
  by (auto simp: cache_get_def split: if_splits option.splits)

lemma fetch_block_raw_miss:
  assumes "fst (cache_get (cache s) h) = None"
  shows "fetch_block_raw E h s =
     bind_res (fetch_block_from_self E h)
       (\<lambda>res. case res of Some b \<Rightarrow> return_ok (Some b) | None \<Rightarrow> fetch_pruned E h) s"
  using assms cache_miss [OF assms] by (auto simp: fetch_block_raw_def split: prod.splits)

lemma fetch_block_raw_hit:
  "fst (cache_get (cache s) h) = Some b \<Longrightarrow>
   fetch_block_raw E h s = (Inr (Some b), s\<lparr>cache := snd (cache_get (cache s) h)\<rparr>)"
  by (auto simp: fetch_block_raw_def split: prod.splits)

lemma fetch_block_raw_effect:
  assumes inv: "proxy_inv E s" and run: "fetch_block_raw E h s = (r, s1)"
  shows "proxy_inv E s1 \<and> users_map s1 = users_map s \<and> (\<forall>np. network s = Some np \<longrightarrow> network s1 = Some np) \<and>
    (\<forall>data. r = Inr (Some data) \<longrightarrow>
       valid_bytes (env_btc E) h data \<or> (\<exists>s2. local_answer E h s = (Inr (Left data), s2)))"
proof (cases "fst (cache_get (cache s) h)")
  case (Some b)
  have "valid_bytes (env_btc E) h b"
    using inv Some cache.lookup_held unfolding proxy_inv_def by blast
  moreover have "proxy_inv E (s\<lparr>cache := snd (cache_get (cache s) h)\<rparr>)"
    using inv cache.all_held_lookup by (auto simp: proxy_inv_def pool_inv_def)
  ultimately show ?thesis using run fetch_block_raw_hit [OF Some] by auto
next
  case None
  obtain rs s2 where fs: "fetch_block_from_self E h s = (rs, s2)" by fastforce
  note fr = sys_frame_fetch_self [OF fs]
  have inv2: "proxy_inv E s2" using fr inv by (rule proxy_inv_sys)
  note fld = sys_frame_fields [OF fr]
  consider (err) e where "rs = Inl e" | (found) d where "rs = Inr (Some d)" | (pruned) "rs = Inr None"
    by (metis option.exhaust sumE)
  then show ?thesis
  proof cases
    case pruned
    then have "fetch_pruned E h s2 = (r, s1)"
      using run fs by (simp add: fetch_block_raw_miss [OF None] bind_res_def)
    from fetch_pruned_effect [OF inv2 this] show ?thesis using fld by auto
  next
    case found
    then have "r = Inr (Some d)" "s1 = s2"
      using run fs by (simp_all add: fetch_block_raw_miss [OF None] bind_res_def return_ok_def)
    then show ?thesis using inv2 fld fetch_self_Some [OF fs [unfolded found]] by auto
  next
    case err
    then show ?thesis
      using run fs inv2 fld by (auto simp: fetch_block_raw_miss [OF None] bind_res_def)
  qed
qed

lemma lookup_after_insert:
  assumes "cache_inv c" and "unat (max_bytes c) \<le> 2 ^ 63" and "enabled c"
    and "length b \<le> unat (max_bytes c)" and "length b < 2 ^ 63" and "fst (cache_get c h) = None"
  shows "fst (cache_get (cache_insert c h b) h) = Some b"
proof -
  let ?m = "unat (max_bytes c)"
  have inv: "inner_inv (inner c)" using assms(1) by (simp add: cache_inv_def)
  have fit: "fits c b" using assms by (intro fitsI) auto
  have inv': "inner_inv (inner (cache_insert c h b))"
    using cache_inv_insert [OF assms(1) fit] by (simp add: cache_inv_def)
  have en': "enabled (cache_insert c h b)" using assms(3) by (simp add: enabled_def cache_insert_frame)
  have new: "map_of (entries_of (inner c)) h = None"
    using assms(3,6) by (simp add: cache_get_entries [OF assms(3) inv] lru_get_Some)
  have "entries_of (inner (cache_insert c h b)) = lru_trim ?m (entries_of (inner c) @ [(h, b)])"
    using new assms(4) by (simp add: cache_insert_entries [OF assms(3) inv fit] lru_insert_def)
  then obtain es where es: "entries_of (inner (cache_insert c h b)) = es @ [(h, b)]"
    using lru_trim_last [of "(h, b)" ?m] assms(4) by auto
  have "distinct (map fst (es @ [(h, b)]))"
    using inv' unfolding es [symmetric] keys_entries_of by (simp add: inner_inv_def)
  then have "map_of (es @ [(h, b)]) h = Some b" by (force simp: map_add_def split: option.splits dest: map_of_SomeD)
  then show ?thesis
    by (simp add: cache_get_entries [OF en' inv'] lru_get_Some es)
qed

section \<open>Properties\<close>

text \<open>
  C3: no peer can make the proxy serve a block that is not the one asked for. From any state
  whose pool is sound and whose cache holds valid blocks only, whatever the peers send and
  whatever the network does, the bytes answered for a hash are either bitcoind's own answer
  or the serialization of a block that has this hash and passes the merkle and the witness
  check; and afterwards the pool is sound and every cached block is valid for its key.
\<close>

theorem served_blocks_are_valid:
  assumes "proxy_inv E s" and "fetch_block_raw E h s = (r, s1)"
  shows "pool_inv s1 \<and>
    (\<forall>k d. contents_of (cache s1) k = Some d \<longrightarrow> (\<exists>b. valid_block (env_btc E) k b \<and> encode_block (env_btc E) b = Inr d)) \<and>
    (\<forall>data. r = Inr (Some data) \<longrightarrow>
       (\<exists>b. valid_block (env_btc E) h b \<and> encode_block (env_btc E) b = Inr data) \<or>
       (\<exists>s2. local_answer E h s = (Inr (Left data), s2)))"
  using fetch_block_raw_effect [OF assms]
  by (simp add: proxy_inv_def cache.all_held_def valid_bytes_def)

text \<open>
  C15: what bitcoind says of a block it still has is final. When the cache does not hold the
  block, bitcoind's bytes are answered verbatim and nothing is cached, no peer is contacted
  and the peer list is not even looked at; an error other than the one for pruned data is
  passed on as it is; only that one sends the proxy to the peers.
\<close>

theorem bitcoind_decides:
  assumes "fst (cache_get (cache s) h) = None" and "local_answer E h s = (r, s1)"
  shows "(\<forall>data. r = Inr (Left data) \<longrightarrow> fetch_block_raw E h s = (Inr (Some data), s1)) \<and>
    (\<forall>e. r = Inl (CallRpc e) \<longrightarrow> (code e, message e) \<noteq> (MISC_ERROR_CODE, PRUNE_ERROR_MESSAGE) \<longrightarrow>
       fetch_block_raw E h s = (Inl e, s1)) \<and>
    (\<forall>e. r = Inl (CallRpc e) \<longrightarrow> (code e, message e) = (MISC_ERROR_CODE, PRUNE_ERROR_MESSAGE) \<longrightarrow>
       fetch_block_raw E h s = fetch_pruned E h s1) \<and>
    cache s1 = cache s \<and> current_peers s1 = current_peers s \<and> chans s1 = chans s \<and> network s1 = network s"
  using assms(2) sys_frame_fields [OF sys_frame_own_call [OF assms(2)]]
  by (auto simp: fetch_block_raw_miss [OF assms(1)] bind_res_def fetch_block_from_self_def return_ok_def)

text \<open>
  C20: the same block is not pulled twice. Once a pruned block came from a peer and fits the
  cache, asking for it again answers the same bytes from memory: credentials, world, peer
  list and pool are untouched, even if the environment has changed in between.
\<close>

theorem refetch_is_served_from_cache:
  assumes "fst (cache_get (cache s) h) = None" and "fetch_block_from_self E h s = (Inr None, s0)"
    and "proxy_inv E s" and "fetch_block_raw E h s = (Inr (Some data), s1)"
    and "cache_inv (cache s)" and "enabled (cache s)" and "unat (max_bytes (cache s)) \<le> 2 ^ 63"
    and "length data \<le> unat (max_bytes (cache s))" and "length data < 2 ^ 63"
  shows "\<exists>c. fetch_block_raw E' h s1 = (Inr (Some data), s1\<lparr>cache := c\<rparr>)"
proof -
  note fr = sys_frame_fetch_self [OF assms(2)]
  have "fetch_pruned E h s0 = (Inr (Some data), s1)"
    using assms(2,4) by (simp add: fetch_block_raw_miss [OF assms(1)] bind_res_def)
  then have "cache s1 = cache_insert (cache s) h data"
    using fetch_pruned_effect [OF proxy_inv_sys [OF fr assms(3)]] sys_frame_fields(7) [OF fr] by simp
  then have "fst (cache_get (cache s1) h) = Some data"
    using lookup_after_insert [OF assms(5,7,6,8,9,1)] by simp
  from fetch_block_raw_hit [OF this] show ?thesis by blast
qed

text \<open>
  A peer that delivers: after \<open>n\<close> other messages, each \<open>Ping\<close> among them answered, it sends
  the block.
\<close>

inductive delivers :: "'w p2p \<Rightarrow> u32 \<Rightarrow> nat \<Rightarrow> block \<Rightarrow> nat \<Rightarrow> 'w \<Rightarrow> 'w \<Rightarrow> bool" for P m k b where
  now: "read_msg P k w = (Inr msg, w1) \<Longrightarrow> msg_payload msg = BlockMsg b \<Longrightarrow> delivers P m k b 0 w w1"
| ping: "read_msg P k w = (Inr msg, w1) \<Longrightarrow> msg_payload msg = Ping p \<Longrightarrow>
     write_msg P k (pong_message m p) w1 = (Inr (), w2) \<Longrightarrow> delivers P m k b n w2 w3 \<Longrightarrow>
     delivers P m k b (Suc n) w w3"
| noise: "read_msg P k w = (Inr msg, w1) \<Longrightarrow> (\<forall>p. msg_payload msg \<noteq> Ping p) \<Longrightarrow>
     (\<forall>c. msg_payload msg \<noteq> BlockMsg c) \<Longrightarrow> delivers P m k b n w1 w2 \<Longrightarrow> delivers P m k b (Suc n) w w2"

lemma receive_block_delivers:
  assumes "delivers (env_p2p E) m k b n w w1" and "n < patience"
  shows "receive_block E m h k patience (s\<lparr>world := w\<rparr>) = (judge (env_btc E) h b, s\<lparr>world := w1\<rparr>)"
  using assms
proof (induction arbitrary: patience rule: delivers.induct)
  case (now w msg w1)
  then show ?case
    by (cases patience) (simp_all add: bind_res_def io_def map_err_def on_world_def)
next
  case (ping w msg w1 p w2 n w3)
  then show ?case
    by (cases patience) (simp_all add: bind_res_def io_def map_err_def on_world_def)
next
  case (noise w msg w1 n w2)
  then show ?case
    by (cases patience; cases "msg_payload msg")
      (simp_all add: bind_res_def io_def map_err_def on_world_def)
qed

section \<open>A pruned block, fetched\<close>

definition demo_header_result :: block_header_result where
  "demo_header_result = \<lparr>bh_hash = [9], confirmations = -1, height = 7, version = 2, version_hex = None,
     merkleroot = [3], time = 4, mediantime = None, nonce = 6, bits = ''1d'', difficulty = 8,
     chainwork = [9], n_tx = 2, previousblockhash = Some [0], nextblockhash = None\<rparr>"

definition demo_answers :: "string \<Rightarrow> json" where
  "demo_answers m =
     (if m = ''getblock'' then
        Object [(''error'', Object [(''code'', Number (NegInt (-1))), (''message'', String PRUNE_ERROR_MESSAGE)])]
      else if m = ''getpeerinfo'' then
        Object [(''result'', Array [Object [(''addr'', String ''p:1''), (''inbound'', Bool False),
          (''servicesnames'', Array [String ''NETWORK'', String ''WITNESS''])]])]
      else if m = ''getblockheader'' then Object [(''result'', ser_header demo_text demo_header_result)]
      else if m = ''decoderawtransaction'' then Object [(''result'', Object [(''txid'', String ''t'')])]
      else Object [(''result'', Object [(''chain'', String ''main'')])])"

definition demo_messages :: "raw_message list" where
  "demo_messages = map (\<lambda>p. \<lparr>msg_magic = 0xD9B4BEF9, msg_payload = p\<rparr>)
     [OtherMessage ''version'', Verack, Ping 7, BlockMsg demo_block]"

lemma demo_inv: "proxy_inv (demo_env a) (demo_state w)"
  by (simp add: proxy_inv_def cache.all_held_def contents_of_def)
     (simp add: demo_state_def cache_new_def inner_default_def)

lemma demo_miss: "fst (cache_get (cache (demo_state w)) h) = None"
  by (simp add: demo_state_def cache_get_def cache_new_def inner_default_def)

lemma demo_own_call_error:
  assumes "auth s = AuthConst ''u'' ''p'' ''Basic x''"
    and "de_response de (answer (method_str m)) = Inr \<lparr>resp_id = None, error = Some e, result = None\<rparr>"
  shows "own_call (demo_env answer) m ps de s = (Inl (CallRpc e), s)"
proof -
  have body: "demo_method (own_request m ps) = method_str m"
    by (simp add: demo_method_def own_request_def ser_request_with_def ser_method_def)
  have "call (demo_node_lib answer) demo_node_net uri name (de_response de) (own_request m ps) s =
      (Inr \<lparr>resp_id = None, error = Some e, result = None\<rparr>, s)" for uri name
    using assms
    by (simp add: call_def demo_node_lib_def demo_lib_def demo_node_net_def load_auth_def http_send_def
        read_body_def body chars_as_bytes)
  then show ?thesis by (simp add: own_call_def demo_env_def into_result_def)
qed

lemma demo_pruned:
  assumes "auth s = AuthConst ''u'' ''p'' ''Basic x''"
  shows "local_answer (demo_env demo_answers) h s =
    (Inl (CallRpc \<lparr>code = -1, message = PRUNE_ERROR_MESSAGE, status = None\<rparr>), s)"
  by (rule demo_own_call_error [OF assms])
    (simp add: demo_answers_def de_response_def de_rpc_error_def optional_def required_def field_def)

lemma demo_self: "fetch_block_from_self (demo_env demo_answers) h (demo_state w) = (Inr None, demo_state w)"
  using demo_pruned [of "demo_state w" h]
  by (simp add: fetch_block_from_self_def demo_state_def MISC_ERROR_CODE_def)

lemma demo_getpeerinfo:
  assumes "auth s = AuthConst ''u'' ''p'' ''Basic x''"
  shows "own_call (demo_env demo_answers) GetPeerInfo no_params (de_list de_peer_info) s =
    (Inr [\<lparr>pi_addr = ''p:1'', servicesnames = {|''NETWORK'', ''WITNESS''|}, inbound = False\<rparr>], s)"
  by (rule demo_own_call [OF assms])
    (simp add: demo_answers_def de_response_def de_peer_info_def optional_def required_def field_def)

lemma demo_chain:
  assumes "auth s = AuthConst ''u'' ''p'' ''Basic x''"
  shows "own_call (demo_env demo_answers) GetBlockchainInfo no_params (de_blockchain_info demo_text) s =
    (Inr \<lparr>chain = ''main'', signet_challenge = None\<rparr>, s)"
  by (rule demo_own_call [OF assms])
    (simp add: demo_answers_def de_response_def de_blockchain_info_def optional_def required_def field_def)

definition demo_listed :: "raw_message list pstate" where
  "demo_listed = (demo_state demo_messages)\<lparr>
     current_peers := \<lparr>fetched = Some 1000, peer_list = [\<lparr>peer_addr = ''p:1'', peer_chan = 0\<rparr>]\<rparr>,
     chans := fmupd 0 None fmempty, next_chan := 1\<rparr>"

definition demo_np :: network_params where
  "demo_np = \<lparr>magic = 0xD9B4BEF9, default_peer_port = 8333\<rparr>"

definition demo_conn :: peer_connection where
  "demo_conn = Direct \<lparr>dialled = ''p:1'', socket = 3\<rparr>"

lemma demo_get_peers:
  "get_peers (demo_env demo_answers) (demo_state demo_messages) =
     (Inr [\<lparr>handle_addr = ''p:1'', handle_conn = None, handle_send = 0\<rparr>], demo_listed)"
proof -
  let ?s = "demo_state demo_messages"
  have clock: "on_world (instant_now (env_p2p (demo_env demo_answers))) s = (1000, s)" for s :: "raw_message list pstate"
    by (simp add: on_world_def demo_env_def demo_p2p_def)
  have a: "auth ?s = AuthConst ''u'' ''p'' ''Basic x''" by (simp add: demo_state_def)
  have "peers_updated (demo_env demo_answers) ?s =
      (Inr \<lparr>fetched = Some 1000, peer_list = [\<lparr>peer_addr = ''p:1'', peer_chan = 0\<rparr>]\<rparr>,
       ?s\<lparr>chans := fmupd 0 None fmempty, next_chan := 1\<rparr>)"
    unfolding peers_updated_def bind_res_def demo_getpeerinfo [OF a]
    by (simp add: selected_def peer_new_def clock demo_state_def)
  then have "refresh_peers (demo_env demo_answers) ?s = (Inr (current_peers demo_listed), demo_listed)"
    by (simp add: refresh_peers_def bind_res_def install_peers_def demo_listed_def)
      (simp add: demo_state_def peers_new_def)
  moreover have "stale (demo_env demo_answers) (current_peers ?s) ?s = (True, ?s)" "peers_is_empty (current_peers ?s)"
    by (simp_all add: demo_state_def peers_new_def stale_def peers_is_empty_def)
  moreover have "handles (peer_list (current_peers demo_listed)) demo_listed =
      ([\<lparr>handle_addr = ''p:1'', handle_conn = None, handle_send = 0\<rparr>], demo_listed)"
    by (simp add: demo_listed_def peer_handle_of_def)
  ultimately show ?thesis by (simp add: get_peers_def Let_def bind_res_def)
qed

lemma demo_delivers: "delivers demo_p2p m 3 demo_block (Suc 0) (drop 2 demo_messages) []"
proof (rule delivers.ping)
  let ?msg = "\<lambda>p. \<lparr>msg_magic = 0xD9B4BEF9, msg_payload = p\<rparr>"
  show "read_msg demo_p2p 3 (drop 2 demo_messages) = (Inr (?msg (Ping 7)), [?msg (BlockMsg demo_block)])"
    by (simp add: demo_p2p_def demo_messages_def)
  show "write_msg demo_p2p 3 (pong_message m 7) [?msg (BlockMsg demo_block)] = (Inr (), [?msg (BlockMsg demo_block)])"
    by (simp add: demo_p2p_def)
  show "delivers demo_p2p m 3 demo_block 0 [?msg (BlockMsg demo_block)] []"
    by (rule delivers.now [where msg = "?msg (BlockMsg demo_block)"]) (simp_all add: demo_p2p_def)
qed simp

lemma demo_try_peer:
  "try_peer (demo_env demo_answers) [9] \<lparr>handle_addr = ''p:1'', handle_conn = None, handle_send = 0\<rparr> demo_listed =
     (Inr (demo_block, \<lparr>rc_conn = demo_conn, rc_send = 0\<rparr>), demo_listed\<lparr>world := [], network := Some demo_np\<rparr>)"
proof -
  let ?E = "demo_env demo_answers"
  have a: "auth demo_listed = AuthConst ''u'' ''p'' ''Basic x''" "network demo_listed = None"
    by (simp_all add: demo_listed_def demo_state_def)
  have np: "network_params_of ?E demo_listed = (Inr demo_np, demo_listed\<lparr>network := Some demo_np\<rparr>)"
    using demo_chain [OF a(1)] a(2)
    by (simp add: network_params_of_def bind_res_def map_err_def from_blockchain_info_def demo_np_def)
      (simp add: demo_env_def)
  have route: "choose_route (env_tor ?E) (env_i2p_proxy ?E) (with_port demo_np ''p:1'') = Inr (DialDirect ''p:1'')"
    by (simp add: with_port_def choose_route_def host_of_def rsplit_once_def ends_with_def starts_with_def
        demo_env_def)
  have ops: "env_p2p ?E = demo_p2p" "env_btc ?E = demo_btc" "env_patience ?E = 4" by (simp_all add: demo_env_def)
  have conn: "connect ?E ''p:1'' demo_listed = (Inr demo_conn,
      demo_listed\<lparr>world := drop 2 demo_messages, network := Some demo_np\<rparr>)"
    unfolding connect_def bind_res_def map_err_def np
    by (simp add: route ops io_def map_err_def on_world_def bind_res_def demo_p2p_def set_nodelay_def handshake_def
        return_ok_def demo_conn_def demo_messages_def demo_listed_def demo_state_def)
  have "judge demo_btc [9] demo_block = Inr demo_block"
    using demo_block_ok by (simp add: judge_Inr_iff valid_block_def)
      (simp add: demo_btc_def demo_block_def demo_header_def)
  then have "receive_block ?E (magic demo_np) [9] 3 4 (s\<lparr>world := drop 2 demo_messages\<rparr>) =
      (Inr demo_block, s\<lparr>world := []\<rparr>)" for s
    using receive_block_delivers [of ?E, unfolded ops, OF demo_delivers, of 4 "magic demo_np" "[9]" s] by simp
  from this [of "demo_listed\<lparr>network := Some demo_np\<rparr>"] show ?thesis
    by (simp add: try_peer_def handle_connect_def bind_res_def conn return_ok_def fetch_block_from_peer_def
        network_params_of_def map_err_def io_def on_world_def ops demo_conn_def)
      (simp add: demo_p2p_def bind_res_def return_ok_def)
qed

lemma demo_fetch:
  "fetch_block_raw (demo_env demo_answers) [9] (demo_state demo_messages) =
     (Inr (Some [9]), demo_listed\<lparr>world := [], network := Some demo_np,
        chans := fmupd 0 (Some demo_conn) (chans demo_listed), cache := cache_insert (cache_new 1000) [9] [9]\<rparr>)"
proof -
  have "encode_block (env_btc (demo_env demo_answers)) demo_block = Inr [9]"
    by (simp add: demo_env_def demo_btc_def demo_block_def demo_header_def)
  then show ?thesis
    unfolding fetch_block_raw_miss [OF demo_miss] bind_res_def demo_self
    by (simp add: fetch_pruned_def bind_res_def map_err_def demo_get_peers demo_try_peer recycle_def)
      (simp add: demo_listed_def demo_state_def)
qed

theorem served_blocks_are_valid_witness:
  "\<exists>b. valid_block demo_btc [9] b \<and> encode_block demo_btc b = Inr [9]"
proof -
  have "auth (demo_state demo_messages) = AuthConst ''u'' ''p'' ''Basic x''" by (simp add: demo_state_def)
  then have "\<forall>data s2. local_answer (demo_env demo_answers) [9] (demo_state demo_messages) \<noteq> (Inr (Left data), s2)"
    by (simp add: demo_pruned)
  moreover have "env_btc (demo_env demo_answers) = demo_btc" by (simp add: demo_env_def)
  ultimately show ?thesis
    using served_blocks_are_valid [OF demo_inv demo_fetch] by simp
qed

theorem bitcoind_decides_witness:
  "\<exists>s1. local_answer (demo_env demo_answers) [9] (demo_state demo_messages) =
      (Inl (CallRpc \<lparr>code = -1, message = PRUNE_ERROR_MESSAGE, status = None\<rparr>), s1) \<and>
    fetch_block_raw (demo_env demo_answers) [9] (demo_state demo_messages) =
      fetch_pruned (demo_env demo_answers) [9] s1"
proof -
  have a: "auth (demo_state demo_messages) = AuthConst ''u'' ''p'' ''Basic x''" by (simp add: demo_state_def)
  have "(-1 :: i64, PRUNE_ERROR_MESSAGE) = (MISC_ERROR_CODE, PRUNE_ERROR_MESSAGE)" by (simp add: MISC_ERROR_CODE_def)
  then show ?thesis
    using bitcoind_decides [OF demo_miss demo_pruned [OF a, of "[9]"]] demo_pruned [OF a, of "[9]"] by simp
qed

theorem refetch_is_served_from_cache_witness:
  "\<exists>s1 c. fetch_block_raw (demo_env demo_answers) [9] (demo_state demo_messages) = (Inr (Some [9]), s1) \<and>
     fetch_block_raw (demo_env (\<lambda>m. Null)) [9] s1 = (Inr (Some [9]), s1\<lparr>cache := c\<rparr>)"
proof -
  have "cache (demo_state demo_messages) = cache_new 1000" by (simp add: demo_state_def)
  then have "cache_inv (cache (demo_state demo_messages))" "enabled (cache (demo_state demo_messages))"
    "max_bytes (cache (demo_state demo_messages)) = 1000"
    by (simp_all add: cache_inv_new enabled_def) (simp_all add: cache_new_def)
  with refetch_is_served_from_cache [OF demo_miss demo_self demo_inv demo_fetch]
  show ?thesis using demo_fetch by simp
qed

end
