(* ===== verification/Intercept.thy ===== *)
theory Intercept
  imports Peer_Fetch
begin

text \<open>
  What the proxy does with a call of an authenticated user (\<open>User::intercept\<close>,
  \<open>intercept_raw_transaction\<close> and \<open>interceptable\<close> of \<open>src/users.rs\<close>): refuse it, answer it,
  or leave it to be forwarded. An outcome is \<open>Inl\<close> the error of a refusal, \<open>Inr (Some r)\<close> an
  answer, \<open>Inr None\<close> a call to forward; indexing past the end of the parameters panics.

  The halves of a \<open>try_join!\<close> run concurrently; which of them ends first is asked of the
  world (\<open>race\<close>), and the first error drops the other half.
\<close>

section \<open>Operations\<close>

definition get_at :: "'a list \<Rightarrow> nat \<Rightarrow> 'a option" where
  "get_at xs i = (if i < length xs then Some (xs ! i) else None)"

definition try_join :: "bool \<Rightarrow> ('s \<Rightarrow> ('e + 'a) \<times> 's) \<Rightarrow> ('s \<Rightarrow> ('e + 'b) \<times> 's) \<Rightarrow> 's \<Rightarrow> ('e + 'a \<times> 'b) \<times> 's" where
  "try_join left_first a b =
     (if left_first then bind_res a (\<lambda>x. bind_res b (\<lambda>y. return_ok (x, y)))
      else bind_res b (\<lambda>y. bind_res a (\<lambda>x. return_ok (x, y))))"

definition raced :: "'w env \<Rightarrow> ('w pstate \<Rightarrow> ('e + 'a) \<times> 'w pstate) \<Rightarrow> ('w pstate \<Rightarrow> ('e + 'b) \<times> 'w pstate) \<Rightarrow>
    'w pstate \<Rightarrow> ('e + 'a \<times> 'b) \<times> 'w pstate" where
  "raced E a b s =
     (case on_world (race (env_p2p E)) s of (left_first, s1) \<Rightarrow> try_join left_first a b s1)"

definition allowed :: "user \<Rightarrow> string \<Rightarrow> bool" where
  "allowed u m = (case allowed_calls u of None \<Rightarrow> True | Some ac \<Rightarrow> m |\<in>| ac)"

definition method_not_allowed :: rpc_error where
  "method_not_allowed = \<lparr>code = METHOD_NOT_ALLOWED_ERROR_CODE, message = METHOD_NOT_ALLOWED_ERROR_MESSAGE,
     status = Some FORBIDDEN\<rparr>"

definition answer_with :: "generic_request \<Rightarrow> json \<Rightarrow> json rpc_response" where
  "answer_with req v = \<lparr>resp_id = req_id req, error = None, result = Some v\<rparr>"

definition answer_misc :: "generic_request \<Rightarrow> string \<Rightarrow> json rpc_response" where
  "answer_misc req msg = \<lparr>resp_id = req_id req,
     error = Some \<lparr>code = MISC_ERROR_CODE, message = msg, status = None\<rparr>, result = None\<rparr>"

text \<open>The shared calls: the header of a block, verbose.\<close>

definition header_call :: "'w env \<Rightarrow> blockhash \<Rightarrow> 'w pstate \<Rightarrow>
    (rpc_error + (bytes, block_header_result) either) \<times> 'w pstate" where
  "header_call E h =
     map_err (rpc_error_of_call (env_lib E))
       (own_call E GetBlockHeader (get_block_header_params (env_text E) h (Some True))
         (de_either (de_hex (env_text E)) (de_header (env_text E))))"

subsection \<open>\<open>getblock\<close>\<close>

definition intercept_block_hex :: "'w env \<Rightarrow> generic_request \<Rightarrow> blockhash \<Rightarrow> 'w pstate \<Rightarrow> outcome \<times> 'w pstate" where
  "intercept_block_hex E req h s =
     (case fetch_block_raw E h s of
        (Inr (Some b), s1) \<Rightarrow> (Inr (Some (answer_with req (String (hex_encode (env_text E) b)))), s1)
      | (Inr None, s1) \<Rightarrow> (Inr (Some (answer_misc req PRUNE_ERROR_MESSAGE)), s1)
      | (Inl e, s1) \<Rightarrow> (Inr (Some (response_of_error e)), s1))"

definition block_result :: "bitcoin_lib \<Rightarrow> block_header_result \<Rightarrow> block \<Rightarrow> get_block_result" where
  "block_result B header b =
     (let size = block_size B b; strippedsize = block_strippedsize B b in
      \<lparr>gb_header = header, gb_size = size,
       gb_strippedsize = (if strippedsize \<noteq> size then Some strippedsize else None),
       gb_weight = block_weight B b, gb_tx = map (txid_of B) (txdata b)\<rparr>)"

definition intercept_block_verbose :: "'w env \<Rightarrow> generic_request \<Rightarrow> blockhash \<Rightarrow> 'w pstate \<Rightarrow> outcome \<times> 'w pstate" where
  "intercept_block_verbose E req h s =
     (case raced E (header_call E h) (fetch_block E h) s of
        (Inr (header, Some b), s1) \<Rightarrow>
          (case into_right header of
             None \<Rightarrow> (Inl (rpc_error_of_anyhow ''unexpected response for getblockheader''), s1)
           | Some hdr \<Rightarrow>
               (Inr (Some (answer_with req
                  (to_value (ser_get_block_result (env_text E) (block_result (env_btc E) hdr b))))), s1))
      | (Inr (_, None), s1) \<Rightarrow> (Inr (Some (answer_misc req PRUNE_ERROR_MESSAGE)), s1)
      | (Inl e, s1) \<Rightarrow> (Inr (Some (response_of_error e)), s1))"

definition with_block_hash :: "'w env \<Rightarrow> json list \<Rightarrow> (blockhash \<Rightarrow> 'w pstate \<Rightarrow> outcome \<times> 'w pstate) \<Rightarrow>
    'w pstate \<Rightarrow> (panic + outcome) \<times> 'w pstate" where
  "with_block_hash E ps f s =
     (case get_at ps 0 of
        None \<Rightarrow> (Inl IndexOutOfBounds, s)
      | Some v \<Rightarrow>
          (case de_hash (env_text E) v of
             Inl e \<Rightarrow> (Inr (Inl (rpc_error_of_anyhow (show_serde (env_lib E) e))), s)
           | Inr h \<Rightarrow> apfst Inr (f h s)))"

definition intercept_get_block :: "'w env \<Rightarrow> generic_request \<Rightarrow> json list \<Rightarrow> 'w pstate \<Rightarrow>
    (panic + outcome) \<times> 'w pstate" where
  "intercept_get_block E req ps s =
     (case (case get_at ps 1 of Some v \<Rightarrow> v | None \<Rightarrow> json_u64 1) of
        Number n \<Rightarrow>
          if as_u64 n = Some 0 then with_block_hash E ps (intercept_block_hex E req) s
          else if as_u64 n = Some 1 then with_block_hash E ps (intercept_block_verbose E req) s
          else (Inr (Inr None), s)
      | _ \<Rightarrow> (Inr (Inr None), s))"

subsection \<open>\<open>getrawtransaction\<close>\<close>

definition interceptable :: "text_lib \<Rightarrow> json list \<Rightarrow> (txid \<times> bool \<times> blockhash) option" where
  "interceptable T ps =
     Option.bind (get_at ps 2) (\<lambda>v2.
     case de_hash T v2 of
       Inl _ \<Rightarrow> None
     | Inr h \<Rightarrow>
         Option.bind
           (case get_at ps 1 of
              None \<Rightarrow> Some False
            | Some Null \<Rightarrow> Some False
            | Some (Bool b) \<Rightarrow> Some b
            | Some (Number n) \<Rightarrow>
                if as_u64 n = Some 0 then Some False else if as_u64 n = Some 1 then Some True else None
            | _ \<Rightarrow> None) (\<lambda>verbose.
         Option.bind (get_at ps 0) (\<lambda>v0.
         case de_hash T v0 of Inl _ \<Rightarrow> None | Inr t \<Rightarrow> Some (t, verbose, h))))"

text \<open>What the proxy adds to the transaction as bitcoind decodes it.\<close>

definition add_chain_members :: "text_lib \<Rightarrow> string \<Rightarrow> blockhash \<Rightarrow> block_header_result \<Rightarrow> json_object \<Rightarrow> json_object" where
  "add_chain_members T hex h header obj =
     (let in_active_chain = (0 \<le>s confirmations header);
          obj1 = map_insert ''confirmations''
                   (json_i32 (if in_active_chain then confirmations header else 0))
                   (map_insert ''blockhash'' (ser_hash T h)
                     (map_insert ''hex'' (String hex)
                       (map_insert ''in_active_chain'' (Bool in_active_chain) obj)))
      in if in_active_chain
         then map_insert ''blocktime'' (json_u64 (time header)) (map_insert ''time'' (json_u64 (time header)) obj1)
         else obj1)"

definition render_verbose :: "'w env \<Rightarrow> generic_request \<Rightarrow> blockhash \<Rightarrow> string \<Rightarrow> 'w pstate \<Rightarrow> outcome \<times> 'w pstate" where
  "render_verbose E req h hex s =
     (case raced E
             (map_err (rpc_error_of_call (env_lib E))
               (own_call E DecodeRawTransaction (decode_raw_transaction_params hex) de_value))
             (header_call E h) s of
        (Inr (decoded, header), s1) \<Rightarrow>
          (case into_right header of
             None \<Rightarrow> (Inr (Some (response_of_error
                       (rpc_error_of_anyhow ''unexpected response for getblockheader''))), s1)
           | Some hdr \<Rightarrow>
               (Inr (Some (answer_with req
                  (case decoded of
                     Object obj \<Rightarrow> Object (add_chain_members (env_text E) hex h hdr obj)
                   | _ \<Rightarrow> decoded))), s1))
      | (Inl e, s1) \<Rightarrow> (Inr (Some (response_of_error e)), s1))"

definition intercept_raw_transaction :: "'w env \<Rightarrow> generic_request \<Rightarrow> json list \<Rightarrow> 'w pstate \<Rightarrow> outcome \<times> 'w pstate" where
  "intercept_raw_transaction E req ps s =
     (case interceptable (env_text E) ps of
        None \<Rightarrow> (Inr None, s)
      | Some (t, verbose, h) \<Rightarrow>
          (case fetch_block E h s of
             (Inr (Some b), s1) \<Rightarrow>
               (case find (\<lambda>tx. txid_of (env_btc E) tx = t) (txdata b) of
                  None \<Rightarrow> (Inr (Some (answer_misc req ''No such transaction found in the provided block.'')), s1)
                | Some tx \<Rightarrow>
                    (let hex = hex_encode (env_text E) (serialize_tx (env_btc E) tx) in
                     if \<not> verbose then (Inr (Some (answer_with req (String hex))), s1)
                     else render_verbose E req h hex s1))
           | (Inr None, s1) \<Rightarrow> (Inr (Some (answer_misc req PRUNE_ERROR_MESSAGE)), s1)
           | (Inl e, s1) \<Rightarrow> (Inr (Some (response_of_error e)), s1)))"

subsection \<open>\<open>User::intercept\<close>\<close>

definition intercept :: "'w env \<Rightarrow> user \<Rightarrow> generic_request \<Rightarrow> 'w pstate \<Rightarrow> (panic + outcome) \<times> 'w pstate" where
  "intercept E u req s =
     (if allowed u (rpc_method req) then
        (case params req of
           PArray ps \<Rightarrow>
             if fetch_blocks u \<and> rpc_method req = method_str GetBlock then intercept_get_block E req ps s
             else if fetch_blocks u \<and> rpc_method req = method_str GetRawTransaction
             then apfst Inr (intercept_raw_transaction E req ps s)
             else (Inr (Inr None), s)
         | PObject _ \<Rightarrow> (Inr (Inr None), s))
      else (Inr (Inl method_not_allowed), s))"

section \<open>Library lemmas\<close>

text \<open>The bytes the proxy answers from: a valid block's, or bitcoind's own.\<close>

definition trusted_bytes :: "'w env \<Rightarrow> blockhash \<Rightarrow> 'w pstate \<Rightarrow> bytes \<Rightarrow> bool" where
  "trusted_bytes E h s data \<longleftrightarrow>
     valid_bytes (env_btc E) h data \<or> (\<exists>s2. local_answer E h s = (Inr (Left data), s2))"

lemma fetch_block_trusted:
  assumes "proxy_inv E s" and "fetch_block E h s = (Inr (Some b), s1)"
  shows "\<exists>data. trusted_bytes E h s data \<and> decode_block (env_btc E) data = Inr b"
proof -
  from assms(2) obtain res s2 where r: "fetch_block_raw E h s = (Inr res, s2)"
    and d: "(case res of None \<Rightarrow> return_ok None
       | Some data \<Rightarrow> (case decode_block (env_btc E) data of
              Inl e \<Rightarrow> return_err (rpc_error_of_anyhow e) | Inr b \<Rightarrow> return_ok (Some b))) s2 = (Inr (Some b), s1)"
    unfolding fetch_block_def bind_res_Inr_iff by blast
  from d obtain data where "res = Some data" "decode_block (env_btc E) data = Inr b"
    by (auto split: option.splits sum.splits)
  then show ?thesis
    using fetch_block_raw_effect [OF assms(1) r] by (auto simp: trusted_bytes_def)
qed

text \<open>Both halves of a join that succeeds have succeeded, the second from a state the first left intact.\<close>

lemma raced_Inr:
  fixes E :: "'w env"
  assumes "raced E a b s = (Inr (x, y), s1)" and "stays_in sys_frame a"
  shows "\<exists>t t1 u u1. sys_frame s t \<and> b t = (Inr y, t1) \<and> a u = (Inr x, u1)"
proof -
  obtain l and s0 :: "'w pstate" where w: "on_world (race (env_p2p E)) s = (l, s0)" by fastforce
  have f: "sys_frame s s0" using sys_frame_steps(4) [of s "race (env_p2p E)"] w by simp
  have j: "try_join l a b s0 = (Inr (x, y), s1)" using assms(1) w by (simp add: raced_def)
  show ?thesis
  proof (cases l)
    case True
    then obtain t t1 where a: "a s0 = (Inr x, t)" and "b t = (Inr y, t1)"
      using j by (auto simp: try_join_def bind_res_Inr_iff)
    moreover have "sys_frame s t" using transpD [OF sys_frame_preorder(2) f stays_inD [OF assms(2) a]] .
    ultimately show ?thesis by blast
  next
    case False
    then show ?thesis using j f by (auto simp: try_join_def bind_res_Inr_iff)
  qed
qed

lemma sys_frame_asked: "stays_in sys_frame (map_err f (own_call E m ps de))"
  by (rule stays_in_simple) (metis prod.collapse stays_in_def sys_frame_own_call)

lemma into_right_Some: "into_right x = Some r \<longleftrightarrow> x = Right r"
  by (cases x) auto

lemma as_u64_PosInt: "as_u64 n = Some k \<longleftrightarrow> n = PosInt k"
  by (cases n) auto

text \<open>The calls the proxy answers itself for a user that may fetch blocks.\<close>

definition answers_itself :: "text_lib \<Rightarrow> user \<Rightarrow> generic_request \<Rightarrow> bool" where
  "answers_itself T u req \<longleftrightarrow> fetch_blocks u \<and>
     (case params req of
        PObject _ \<Rightarrow> False
      | PArray ps \<Rightarrow>
          rpc_method req = ''getblock'' \<and> (length ps < 2 \<or> ps ! 1 \<in> {json_u64 0, json_u64 1}) \<or>
          rpc_method req = ''getrawtransaction'' \<and> interceptable T ps \<noteq> None)"

lemma intercept_block_answers:
  "fst (intercept_block_hex E req h s) \<noteq> Inr None" "fst (intercept_block_verbose E req h s) \<noteq> Inr None"
  "fst (intercept_block_hex E req h s) \<noteq> Inl e"
  "fst (intercept_block_verbose E req h s) = Inl e \<Longrightarrow> status e = None"
  by (auto simp: intercept_block_hex_def intercept_block_verbose_def rpc_error_of_anyhow_def
      split: prod.splits sum.splits option.splits)

lemma with_block_hash_cases:
  "(\<And>h. fst (f h s) \<noteq> Inr None) \<Longrightarrow> fst (with_block_hash E ps f s) \<noteq> Inr (Inr None)"
  "fst (with_block_hash E ps f s) = Inl p \<longleftrightarrow> ps = [] \<and> p = IndexOutOfBounds"
  "(\<And>h e. fst (f h s) = Inl e \<Longrightarrow> status e = None) \<Longrightarrow> fst (with_block_hash E ps f s) = Inr (Inl e) \<Longrightarrow> status e = None"
  "snd (with_block_hash E [] f s) = s"
  by (auto simp: with_block_hash_def get_at_def rpc_error_of_anyhow_def split: option.splits sum.splits if_splits)

text \<open>The three ways \<open>getblock\<close> goes, by its verbosity.\<close>

lemma intercept_get_block_cases [case_names verbose hex forward]:
  obtains "length ps < 2 \<or> ps ! 1 = json_u64 1"
      "intercept_get_block E req ps s = with_block_hash E ps (intercept_block_verbose E req) s"
  | "\<not> length ps < 2" "ps ! 1 = json_u64 0"
      "intercept_get_block E req ps s = with_block_hash E ps (intercept_block_hex E req) s"
  | "\<not> length ps < 2" "ps ! 1 \<notin> {json_u64 0, json_u64 1}" "intercept_get_block E req ps s = (Inr (Inr None), s)"
proof (cases "length ps < 2")
  case True
  then show ?thesis using that(1) by (simp add: intercept_get_block_def get_at_def json_u64_def)
next
  case False
  show ?thesis
  proof (cases "ps ! 1")
    case (Number n)
    then show ?thesis
      using False that by (auto simp: intercept_get_block_def get_at_def json_u64_def as_u64_PosInt)
  qed (use False that(3) in \<open>simp_all add: intercept_get_block_def get_at_def json_u64_def\<close>)
qed

lemma intercept_get_block_forward:
  "fst (intercept_get_block E req ps s) = Inr (Inr None) \<longleftrightarrow>
     \<not> (length ps < 2 \<or> ps ! 1 \<in> {json_u64 0, json_u64 1})"
  "\<not> (length ps < 2 \<or> ps ! 1 \<in> {json_u64 0, json_u64 1}) \<Longrightarrow> snd (intercept_get_block E req ps s) = s"
proof -
  have w: "fst (with_block_hash E ps (intercept_block_hex E req) s) \<noteq> Inr (Inr None)"
    "fst (with_block_hash E ps (intercept_block_verbose E req) s) \<noteq> Inr (Inr None)"
    by (rule with_block_hash_cases(1), rule intercept_block_answers)+
  show "fst (intercept_get_block E req ps s) = Inr (Inr None) \<longleftrightarrow>
     \<not> (length ps < 2 \<or> ps ! 1 \<in> {json_u64 0, json_u64 1})"
  proof (cases ps E req s rule: intercept_get_block_cases)
    case verbose
    then show ?thesis using w(2) by auto
  next
    case hex
    then show ?thesis using w(1) by auto
  next
    case forward
    then show ?thesis by (simp del: One_nat_def)
  qed
  show "snd (intercept_get_block E req ps s) = s" if "\<not> (length ps < 2 \<or> ps ! 1 \<in> {json_u64 0, json_u64 1})"
  proof (cases ps E req s rule: intercept_get_block_cases)
    case forward
    then show ?thesis by simp
  qed (use that in auto)
qed

lemma intercept_get_block_panic:
  "fst (intercept_get_block E req ps s) = Inl p \<longleftrightarrow> ps = [] \<and> p = IndexOutOfBounds"
  by (cases ps E req s rule: intercept_get_block_cases) (auto simp: with_block_hash_cases(2))

lemma intercept_get_block_nil: "snd (intercept_get_block E req [] s) = s"
  by (cases "[] :: json list" E req s rule: intercept_get_block_cases) (simp_all add: with_block_hash_cases(4))

lemma intercept_get_block_refusal:
  "fst (intercept_get_block E req ps s) = Inr (Inl e) \<Longrightarrow> status e = None"
  using with_block_hash_cases(3) [of "intercept_block_verbose E req" s E ps e, OF intercept_block_answers(4)]
    with_block_hash_cases(3) [of "intercept_block_hex E req" s E ps e] intercept_block_answers(3) [of E req _ s]
  by (cases ps E req s rule: intercept_get_block_cases) auto

lemma intercept_raw_forward:
  "fst (intercept_raw_transaction E req ps s) = Inr None \<longleftrightarrow> interceptable (env_text E) ps = None"
  "interceptable (env_text E) ps = None \<Longrightarrow> snd (intercept_raw_transaction E req ps s) = s"
  unfolding intercept_raw_transaction_def render_verbose_def
  by (auto simp: Let_def split: prod.splits sum.splits option.splits if_splits)

lemma intercept_raw_refusal: "fst (intercept_raw_transaction E req ps s) \<noteq> Inl e"
  unfolding intercept_raw_transaction_def render_verbose_def
  by (auto simp: Let_def split: prod.splits sum.splits option.splits if_splits)

section \<open>The example's block\<close>

lemma demo_hash_nine: "de_hash demo_text (String [char_of (9 :: nat)]) = Inr [9]"
  using as_bytes_chars [of "[9]"] by (simp add: de_hash_def demo_text_def as_bytes_def)

lemma demo_fetch_block:
  "\<exists>s1. fetch_block (demo_env demo_answers) [9] (demo_state demo_messages) = (Inr (Some demo_block), s1) \<and>
     auth s1 = AuthConst ''u'' ''p'' ''Basic x''"
proof -
  have "decode_block demo_btc [9] = Inr demo_block" by (simp add: demo_btc_def)
  moreover have "env_btc (demo_env demo_answers) = demo_btc" by (simp add: demo_env_def)
  moreover have "auth demo_listed = AuthConst ''u'' ''p'' ''Basic x''" by (simp add: demo_listed_def demo_state_def)
  ultimately show ?thesis using demo_fetch by (simp add: fetch_block_def bind_res_def return_ok_def)
qed

section \<open>Properties\<close>

text \<open>
  C10: a call outside a user's list is refused and does nothing. It is answered 403 with no
  effect on any part of the state; and a refusal that carries an HTTP status is never given
  for any other reason.
\<close>

theorem calls_outside_the_list_are_refused:
  "(\<not> allowed u (rpc_method req) \<longrightarrow> intercept E u req s = (Inr (Inl method_not_allowed), s)) \<and>
   (\<forall>e. fst (intercept E u req s) = Inr (Inl e) \<longrightarrow> status e \<noteq> None \<longrightarrow>
      \<not> allowed u (rpc_method req) \<and> status e = Some FORBIDDEN)"
proof (intro conjI allI impI)
  fix e assume a: "fst (intercept E u req s) = Inr (Inl e)" and st: "status e \<noteq> None"
  then have "\<not> allowed u (rpc_method req)"
    using intercept_get_block_refusal [of E req _ s e] intercept_raw_refusal [of E req _ s e]
    by (auto simp: intercept_def split: generic_rpc_params.splits if_splits)
  with a show "\<not> allowed u (rpc_method req)" "status e = Some FORBIDDEN"
    by (auto simp: intercept_def method_not_allowed_def)
qed (simp add: intercept_def)

theorem calls_outside_the_list_are_refused_witness:
  "intercept (demo_env demo_answers) (demo_user\<lparr>allowed_calls := Some {|''getinfo''|}\<rparr>) (demo_req ''stop'' None)
     (demo_state []) = (Inr (Inl method_not_allowed), demo_state [])"
  by (rule calls_outside_the_list_are_refused [THEN conjunct1, rule_format])
     (simp add: allowed_def demo_req_def)

lemma intercept_forward_iff:
  "intercept E u req s = (Inr (Inr None), s1) \<longleftrightarrow>
     s1 = s \<and> allowed u (rpc_method req) \<and> \<not> answers_itself (env_text E) u req"
proof -
  have gb: "intercept_get_block E req ps s = (Inr (Inr None), s1) \<longleftrightarrow>
      s1 = s \<and> \<not> (length ps < 2 \<or> ps ! 1 \<in> {json_u64 0, json_u64 1})" for ps
    using intercept_get_block_forward(1) [of E req ps s] intercept_get_block_forward(2) [of ps E req s] by (cases "intercept_get_block E req ps s") auto
  have rt: "apfst Inr (intercept_raw_transaction E req ps s) = (Inr (Inr None), s1) \<longleftrightarrow>
      s1 = s \<and> interceptable (env_text E) ps = None" for ps
    using intercept_raw_forward(1) [of E req ps s] intercept_raw_forward(2) [of E ps req s] by (cases "intercept_raw_transaction E req ps s") auto
  show ?thesis
    by (auto simp: intercept_def answers_itself_def gb rt simp del: One_nat_def not_None_eq split: generic_rpc_params.splits)
qed

lemma intercept_left:
  "intercept E u req s = (Inr (Inr None), s1) \<Longrightarrow>
     allowed u (rpc_method req) \<and> \<not> answers_itself (env_text E) u req"
  by (simp add: intercept_forward_iff)

text \<open>
  C11: exactly the calls the proxy cannot improve on are forwarded, untouched. An allowed call
  is left to bitcoind, with nothing asked and nothing changed before, unless the user may
  fetch blocks and the call is \<open>getblock\<close> with verbosity 0 or 1 (1 when it is not given) or
  \<open>getrawtransaction\<close> with a block hash, by position.
\<close>

theorem forwarded_calls_are_untouched:
  "intercept E u req s = (Inr (Inr None), s1) \<longleftrightarrow>
     s1 = s \<and> allowed u (rpc_method req) \<and> \<not> answers_itself (env_text E) u req"
  by (rule intercept_forward_iff)

text \<open>
  C37: \<open>getblock\<close> with no parameters panics. For a user that may call \<open>getblock\<close> and fetch
  blocks, an empty parameter array makes the proxy index past its end, since the verbosity
  defaults to 1 before the hash is looked for; no other call makes it panic.
\<close>

theorem getblock_without_parameters_panics:
  "intercept E u req s = (Inl p, s1) \<longleftrightarrow>
     p = IndexOutOfBounds \<and> s1 = s \<and> allowed u ''getblock'' \<and> fetch_blocks u \<and>
     rpc_method req = ''getblock'' \<and> params req = PArray []"
proof -
  have "intercept_get_block E req ps s = (Inl p, s1) \<longleftrightarrow> ps = [] \<and> p = IndexOutOfBounds \<and> s1 = s" for ps
    using intercept_get_block_panic [of E req ps s p] intercept_get_block_nil [of E req s]
    by (cases "intercept_get_block E req ps s") auto
  moreover have "apfst Inr x \<noteq> (Inl p, s1)" for x :: "outcome \<times> 'a pstate"
    by (cases x) simp
  ultimately show ?thesis
    by (auto simp: intercept_def split: generic_rpc_params.splits)
qed

text \<open>
  C16: an answered block is the block asked for. When a \<open>getblock\<close> with verbosity 0 is
  answered with a result, it is the hexadecimal form of bytes that bitcoind gave for that
  hash itself or that are the serialization of a block with this hash that passes the merkle
  and the witness check; a block that nobody has is bitcoind's own error for pruned data.
\<close>

theorem answered_block_is_the_one_asked_for:
  assumes "proxy_inv E s" and "allowed u ''getblock''" and "fetch_blocks u"
    and "rpc_method req = ''getblock''" and "params req = PArray [v, json_u64 0]"
    and "de_hash (env_text E) v = Inr h" and "intercept E u req s = (Inr (Inr (Some res)), s1)"
  shows "case result res of
      Some w \<Rightarrow> error res = None \<and> resp_id res = req_id req \<and>
        (\<exists>data. w = String (hex_encode (env_text E) data) \<and> trusted_bytes E h s data)
    | None \<Rightarrow> res = answer_misc req PRUNE_ERROR_MESSAGE \<or> (\<exists>e. fst (fetch_block_raw E h s) = Inl e \<and> error res = Some e)"
proof -
  obtain r s2 where raw: "fetch_block_raw E h s = (r, s2)" by fastforce
  have "fst (intercept_block_hex E req h s) = Inr (Some res)"
    using assms(2-7)
    by (cases "intercept_block_hex E req h s")
      (auto simp: intercept_def intercept_get_block_def with_block_hash_def get_at_def json_u64_def)
  then show ?thesis
    using raw fetch_block_raw_effect [OF assms(1) raw]
    by (cases r)
      (auto simp: intercept_block_hex_def answer_with_def answer_misc_def response_of_error_def trusted_bytes_def
        split: option.splits)
qed

theorem answered_block_is_the_one_asked_for_witness:
  "\<exists>res s1. intercept (demo_env demo_answers) demo_user
       \<lparr>jsonrpc = None, req_id = Some Null, rpc_method = ''getblock'', params = PArray [String [char_of (9 :: nat)], json_u64 0]\<rparr>
       (demo_state demo_messages) = (Inr (Inr (Some res)), s1) \<and>
     (case result res of
        Some w \<Rightarrow> \<exists>data. w = String (hex_encode demo_text data) \<and>
          trusted_bytes (demo_env demo_answers) [9] (demo_state demo_messages) data
      | None \<Rightarrow> False)"
proof -
  let ?E = "demo_env demo_answers" and ?s = "demo_state demo_messages"
  let ?req = "\<lparr>jsonrpc = None, req_id = Some Null, rpc_method = ''getblock'',
     params = PArray [String [char_of (9 :: nat)], json_u64 0]\<rparr> :: generic_request"
  let ?res = "answer_with ?req (String (hex_encode demo_text [9]))"
  have T: "env_text ?E = demo_text" by (simp add: demo_env_def)
  have c: "(of_char (char_of (9 :: nat) :: char) :: u8) = 9"
    using as_bytes_chars [of "[9]"] by (simp add: as_bytes_def)
  have h: "de_hash (env_text ?E) (String [char_of (9 :: nat)]) = Inr [9]"
    unfolding T by (simp add: de_hash_def demo_text_def as_bytes_def c)
  have run: "\<exists>s1. intercept ?E demo_user ?req ?s = (Inr (Inr (Some ?res)), s1)"
    using h demo_fetch
    by (simp add: intercept_def allowed_def demo_user_def intercept_get_block_def with_block_hash_def get_at_def
        json_u64_def intercept_block_hex_def T)
  then obtain s1 where "intercept ?E demo_user ?req ?s = (Inr (Inr (Some ?res)), s1)" by blast
  from answered_block_is_the_one_asked_for [OF demo_inv _ _ _ _ h this] show ?thesis
    using \<open>intercept ?E demo_user ?req ?s = _\<close>
    by (auto simp: allowed_def demo_user_def answer_with_def T)
qed

text \<open>What a call of the proxy's own returns was read from JSON; so a header it returns is well formed.\<close>

lemma own_call_reads: "own_call E m ps de s = (Inr x, s1) \<Longrightarrow> \<exists>v. de v = Inr x"
proof -
  assume run: "own_call E m ps de s = (Inr x, s1)"
  then obtain res s2 where c: "call (env_lib E) (env_net E) (env_uri E) (method_str m) (de_response de) (own_request m ps) s = (Inr res, s2)"
    and x: "into_result (show_serde (env_lib E)) (de Null) res = Inr x"
    by (auto simp: own_call_def split: prod.splits sum.splits elim!: map_sum_InrE)
  obtain w where "de_response de w = Inr res"
    using c by (auto simp: call_def split: prod.splits sum.splits option.splits)
  then have "result res = Some y \<Longrightarrow> \<exists>v. de v = Inr y" for y
    by (auto dest: de_response_result)
  with x show ?thesis
    by (cases "de Null") (auto simp: into_result_def split: option.splits)
qed

lemma header_call_ok: "text_lib_ok (env_text E) \<Longrightarrow> header_call E h s = (Inr (Right hdr), s1) \<Longrightarrow> header_ok (env_text E) hdr"
proof -
  assume T: "text_lib_ok (env_text E)" and "header_call E h s = (Inr (Right hdr), s1)"
  then obtain v where "de_either (de_hex (env_text E)) (de_header (env_text E)) v = Inr (Right hdr)"
    unfolding header_call_def map_err_Inr_iff by (auto dest!: own_call_reads)
  then have "de_header (env_text E) v = Inr hdr" by (auto simp: de_either_def split: sum.splits)
  with T show ?thesis by (rule de_header_ok)
qed

text \<open>
  C31: a verbose block describes the block asked for. When \<open>getblock\<close> with verbosity 1, or with
  none, is answered with a result, the answer carries the request's id and no error, and
  reading it back gives: the header bitcoind returned for this hash; the ids of all the
  transactions, in order, of a block decoded from trusted bytes of this hash; that block's
  size and weight; and its stripped size exactly when that differs from its size.
\<close>

theorem verbose_block_describes_its_block:
  assumes T: "text_lib_ok (env_text E)" "\<forall>t. hash_text (env_text E) (txid_of (env_btc E) t)"
    and inv: "proxy_inv E s" and u: "allowed u ''getblock''" "fetch_blocks u"
    and req: "rpc_method req = ''getblock''" "params req = PArray (v # rest)"
    and verbosity: "rest = [] \<or> (\<exists>more. rest = json_u64 1 # more)" and h: "de_hash (env_text E) v = Inr h"
    and run: "intercept E u req s = (Inr (Inr (Some res)), s1)" and res: "result res = Some w"
  shows "error res = None \<and> resp_id res = req_id req \<and>
    (\<exists>t data b q q1 r. sys_frame s t \<and> trusted_bytes E h t data \<and> decode_block (env_btc E) data = Inr b \<and>
       de_get_block_result (env_text E) w = Inr r \<and> header_call E h q = (Inr (Right (gb_header r)), q1) \<and>
       gb_tx r = map (txid_of (env_btc E)) (txdata b) \<and> gb_size r = block_size (env_btc E) b \<and>
       gb_weight r = block_weight (env_btc E) b \<and>
       (case gb_strippedsize r of
          None \<Rightarrow> block_strippedsize (env_btc E) b = block_size (env_btc E) b
        | Some n \<Rightarrow> n = block_strippedsize (env_btc E) b \<and> n \<noteq> block_size (env_btc E) b))"
proof -
  have "intercept_get_block E req (v # rest) s = with_block_hash E (v # rest) (intercept_block_verbose E req) s"
    using verbosity by (cases "v # rest" E req s rule: intercept_get_block_cases) (auto simp: json_u64_def)
  then have "intercept_block_verbose E req h s = (Inr (Some res), s1)"
    using run u req h
    by (cases "intercept_block_verbose E req h s") (simp add: intercept_def with_block_hash_def get_at_def)
  then obtain hdr b where join: "raced E (header_call E h) (fetch_block E h) s = (Inr (Right hdr, Some b), s1)"
    and a: "res = answer_with req (to_value (ser_get_block_result (env_text E) (block_result (env_btc E) hdr b)))"
    using res
    by (auto simp: intercept_block_verbose_def answer_misc_def response_of_error_def into_right_Some
        split: prod.splits sum.splits option.splits)
  obtain t t1 q q1 where fr: "sys_frame s t" and f: "fetch_block E h t = (Inr (Some b), t1)"
    and q: "header_call E h q = (Inr (Right hdr), q1)"
    using raced_Inr [OF join] sys_frame_asked unfolding header_call_def by blast
  obtain data where "trusted_bytes E h t data" "decode_block (env_btc E) data = Inr b"
    using fetch_block_trusted [OF proxy_inv_sys [OF fr inv] f] by blast
  moreover have "de_get_block_result (env_text E) w = Inr (block_result (env_btc E) hdr b)"
    using res a T(2) header_call_ok [OF T(1) q]
      get_block_result_reads_back [OF T(1), of "block_result (env_btc E) hdr b"]
    by (simp add: answer_with_def block_result_def Let_def)
  ultimately show ?thesis
    using fr q a by (fastforce simp: answer_with_def block_result_def Let_def)
qed

lemma demo_header_call:
  assumes "auth s = AuthConst ''u'' ''p'' ''Basic x''"
  shows "header_call (demo_env demo_answers) h s = (Inr (Right demo_header_result), s)"
proof -
  have "de_header demo_text (ser_header demo_text demo_header_result) = Inr demo_header_result"
    by (rule header_reads_back) (rule demo_text_ok, simp)
  then have "de_either (de_hex demo_text) (de_header demo_text) (ser_header demo_text demo_header_result) =
      Inr (Right demo_header_result)"
    by (simp add: de_either_def ser_header_def de_hex_def)
  then have "own_call (demo_env demo_answers) GetBlockHeader ps (de_either (de_hex demo_text) (de_header demo_text)) s =
      (Inr (Right demo_header_result), s)" for ps
    by (intro demo_own_call [OF assms])
      (simp add: demo_answers_def de_response_def optional_def required_def field_def ser_header_def)
  then show ?thesis by (simp add: header_call_def map_err_def) (simp add: demo_env_def)
qed

theorem verbose_block_describes_its_block_witness:
  "\<exists>res s1 w r. intercept (demo_env demo_answers) demo_user
       \<lparr>jsonrpc = None, req_id = Some Null, rpc_method = ''getblock'', params = PArray [String [char_of (9 :: nat)]]\<rparr>
       (demo_state demo_messages) = (Inr (Inr (Some res)), s1) \<and>
     error res = None \<and> result res = Some w \<and> de_get_block_result demo_text w = Inr r"
proof -
  let ?E = "demo_env demo_answers" and ?s = "demo_state demo_messages"
  let ?req = "\<lparr>jsonrpc = None, req_id = Some Null, rpc_method = ''getblock'',
     params = PArray [String [char_of (9 :: nat)]]\<rparr> :: generic_request"
  have T: "env_text ?E = demo_text" "env_btc ?E = demo_btc" "race (env_p2p ?E) w = (True, w)" for w
    by (simp_all add: demo_env_def demo_p2p_def)
  have h: "de_hash (env_text ?E) (String [char_of (9 :: nat)]) = Inr [9]"
    unfolding T by (rule demo_hash_nine)
  have a: "auth ?s = AuthConst ''u'' ''p'' ''Basic x''" by (simp add: demo_state_def)
  obtain s1 where "raced ?E (header_call ?E [9]) (fetch_block ?E [9]) ?s =
      (Inr (Right demo_header_result, Some demo_block), s1)"
    using demo_fetch_block
    by (auto simp: raced_def try_join_def bind_res_def return_ok_def on_world_def T demo_header_call [OF a])
  then have run: "intercept ?E demo_user ?req ?s = (Inr (Inr (Some (answer_with ?req
      (to_value (ser_get_block_result demo_text (block_result demo_btc demo_header_result demo_block)))))), s1)"
    using h by (simp add: intercept_def allowed_def demo_user_def intercept_get_block_def with_block_hash_def
        get_at_def json_u64_def intercept_block_verbose_def T)
  have "text_lib_ok (env_text ?E)" "\<forall>t. hash_text (env_text ?E) (txid_of (env_btc ?E) t)"
    unfolding T by (simp_all add: demo_text_ok)
  from verbose_block_describes_its_block [OF this demo_inv _ _ _ _ _ h run] show ?thesis
    using run by (fastforce simp: allowed_def demo_user_def answer_with_def T)
qed

text \<open>
  The members of a verbose transaction: those the proxy writes are the hexadecimal form, the
  block's hash, whether the block is in the active chain, the confirmations (0 for a block off
  it, which bitcoind reports as -1), and, only in the active chain, the time twice; every other
  member is bitcoind's own.
\<close>

definition verbose_member :: "text_lib \<Rightarrow> string \<Rightarrow> blockhash \<Rightarrow> block_header_result \<Rightarrow> json_object \<Rightarrow> string \<Rightarrow> json option" where
  "verbose_member T hex h header obj k =
     (if k = ''hex'' then Some (String hex)
      else if k = ''blockhash'' then Some (ser_hash T h)
      else if k = ''in_active_chain'' then Some (Bool (0 \<le> sint (confirmations header)))
      else if k = ''confirmations'' then
        Some (if 0 \<le> sint (confirmations header) then json_i32 (confirmations header) else json_u64 0)
      else if k \<in> {''time'', ''blocktime''} \<and> 0 \<le> sint (confirmations header) then Some (json_u64 (time header))
      else map_of obj k)"

lemma map_of_add_chain_members: "map_of (add_chain_members T hex h header obj) = verbose_member T hex h header obj"
proof -
  have zero: "json_i32 0 = json_u64 0" by (simp add: json_i32_def json_i64_def json_u64_def)
  show ?thesis
    by (rule ext) (simp add: add_chain_members_def verbose_member_def Let_def map_of_insert word_sle_eq zero)
qed

lemma object_ok_add_chain_members: "object_ok obj \<Longrightarrow> object_ok (add_chain_members T hex h header obj)"
  unfolding add_chain_members_def Let_def by (auto intro!: object_ok_insert)

text \<open>
  A verbose answer: what bitcoind decodes from the hexadecimal form, with those members when it
  is an object, and in the order of the keys if bitcoind's was.
\<close>

definition verbose_answer :: "'w env \<Rightarrow> blockhash \<Rightarrow> string \<Rightarrow> json \<Rightarrow> bool" where
  "verbose_answer E h hex v \<longleftrightarrow> (\<exists>(p :: 'w pstate) p1 (q :: 'w pstate) q1 decoded header.
     own_call E DecodeRawTransaction (decode_raw_transaction_params hex) de_value p = (Inr decoded, p1) \<and>
     header_call E h q = (Inr (Right header), q1) \<and>
     (case decoded of
        Object obj \<Rightarrow> \<exists>es. v = Object es \<and> map_of es = verbose_member (env_text E) hex h header obj \<and>
          (object_ok obj \<longrightarrow> object_ok es)
      | _ \<Rightarrow> v = decoded))"

lemma render_verbose_answer:
  fixes E :: "'w env"
  assumes "render_verbose E req h hex s = (Inr (Some res), s1)" and "result res = Some v"
  shows "verbose_answer E h hex v"
proof -
  let ?decode = "map_err (rpc_error_of_call (env_lib E))
     (own_call E DecodeRawTransaction (decode_raw_transaction_params hex) de_value)"
  obtain decoded header where join: "raced E ?decode (header_call E h) s = (Inr (decoded, Right header), s1)"
    and v: "v = (case decoded of Object obj \<Rightarrow> Object (add_chain_members (env_text E) hex h header obj) | _ \<Rightarrow> decoded)"
    using assms
    by (auto simp: render_verbose_def answer_with_def response_of_error_def into_right_Some
        split: prod.splits sum.splits option.splits)
  obtain p p1 :: "'w pstate" and q q1 where d: "?decode p = (Inr decoded, p1)" and q: "header_call E h q = (Inr (Right header), q1)"
    using raced_Inr [OF join sys_frame_asked] by blast
  from d have "own_call E DecodeRawTransaction (decode_raw_transaction_params hex) de_value p = (Inr decoded, p1)"
    by simp
  moreover have "case decoded of
       Object obj \<Rightarrow> \<exists>es. v = Object es \<and> map_of es = verbose_member (env_text E) hex h header obj \<and>
         (object_ok obj \<longrightarrow> object_ok es)
     | _ \<Rightarrow> v = decoded"
    using v by (auto simp: map_of_add_chain_members intro: object_ok_add_chain_members split: json.splits)
  ultimately show ?thesis using q unfolding verbose_answer_def by blast
qed

text \<open>
  C17: an answered transaction is the one asked for, from the block asked for. A
  \<open>getrawtransaction\<close> that the proxy answers with a result is answered from a transaction
  with that id in a block decoded from trusted bytes of that hash. Its serialization in
  hexadecimal is the result; when the call was verbose the result is what bitcoind decodes
  from that hexadecimal form, with exactly the members that place it in its block replaced
  according to the header bitcoind returned for the hash, and ordered if bitcoind's answer was.
\<close>

theorem answered_transaction_is_in_its_block:
  assumes inv: "proxy_inv E s" and args: "interceptable (env_text E) ps = Some (t, verbose, h)"
    and run: "intercept_raw_transaction E req ps s = (Inr (Some res), s1)" and res: "result res = Some v"
  shows "\<exists>data b tx. trusted_bytes E h s data \<and> decode_block (env_btc E) data = Inr b \<and> tx \<in> set (txdata b) \<and>
    txid_of (env_btc E) tx = t \<and>
    (let hex = hex_encode (env_text E) (serialize_tx (env_btc E) tx) in
     if verbose then verbose_answer E h hex v else v = String hex)"
proof -
  obtain r s2 where f: "fetch_block E h s = (r, s2)" by fastforce
  obtain b where b: "r = Inr (Some b)"
    using run args f res
    by (cases r) (auto simp: intercept_raw_transaction_def answer_misc_def response_of_error_def split: option.splits)
  obtain tx where tx: "find (\<lambda>tx. txid_of (env_btc E) tx = t) (txdata b) = Some tx"
    using run args f b res
    by (cases "find (\<lambda>tx. txid_of (env_btc E) tx = t) (txdata b)")
      (auto simp: intercept_raw_transaction_def answer_misc_def)
  let ?hex = "hex_encode (env_text E) (serialize_tx (env_btc E) tx)"
  have "tx \<in> set (txdata b)" "txid_of (env_btc E) tx = t"
    using tx by (auto simp: find_Some_iff)
  moreover obtain data where "trusted_bytes E h s data" "decode_block (env_btc E) data = Inr b"
    using fetch_block_trusted [OF inv f [unfolded b]] by blast
  moreover have "render_verbose E req h ?hex s2 = (Inr (Some res), s1)" if verbose
    using that run args f b tx by (simp add: intercept_raw_transaction_def Let_def)
  moreover have "v = String ?hex" if "\<not> verbose"
    using that run args f b tx res by (auto simp: intercept_raw_transaction_def Let_def answer_with_def)
  ultimately show ?thesis
    unfolding Let_def using render_verbose_answer [OF _ res, of E req h ?hex s2 s1] by auto
qed

theorem answered_transaction_is_in_its_block_witness:
  "let hash = String [char_of (9 :: nat)]; req = demo_req ''getrawtransaction'' (Some Null) in
   \<exists>res s1. intercept_raw_transaction (demo_env demo_answers) req [String [char_of (2 :: nat)], Bool True, hash]
       (demo_state demo_messages) = (Inr (Some res), s1) \<and> result res \<noteq> None \<and>
     (\<exists>data b tx. trusted_bytes (demo_env demo_answers) [9] (demo_state demo_messages) data \<and>
        decode_block demo_btc data = Inr b \<and> tx \<in> set (txdata b) \<and> txid_of demo_btc tx = [2])"
proof -
  let ?E = "demo_env demo_answers" and ?s = "demo_state demo_messages"
  let ?ps = "[String [char_of (2 :: nat)], Bool True, String [char_of (9 :: nat)]]"
  let ?req = "demo_req ''getrawtransaction'' (Some Null)"
  have T: "env_text ?E = demo_text" "env_btc ?E = demo_btc" "race (env_p2p ?E) w = (True, w)" for w
    by (simp_all add: demo_env_def demo_p2p_def)
  have "(of_char (char_of (2 :: nat) :: char) :: u8) = 2"
    using as_bytes_chars [of "[2]"] by (simp add: as_bytes_def)
  then have args: "interceptable (env_text ?E) ?ps = Some ([2], True, [9])"
    unfolding T using demo_hash_nine by (simp add: interceptable_def get_at_def de_hash_def demo_text_def as_bytes_def)
  obtain s1 where f: "fetch_block ?E [9] ?s = (Inr (Some demo_block), s1)"
    and a: "auth s1 = AuthConst ''u'' ''p'' ''Basic x''"
    using demo_fetch_block by blast
  have tx: "find (\<lambda>tx. txid_of demo_btc tx = [2]) (txdata demo_block) = Some (demo_spend [[7]])"
    by (simp add: demo_btc_def demo_block_def demo_coinbase_def demo_spend_def)
  have "own_call ?E DecodeRawTransaction ps de_value s1 = (Inr (Object [(''txid'', String ''t'')]), s1)" for ps
    by (rule demo_own_call [OF a])
      (simp add: demo_answers_def de_response_def de_value_def optional_def required_def field_def)
  then have "\<exists>v. render_verbose ?E ?req [9] hex s1 = (Inr (Some (answer_with ?req v)), s1)" for hex
    by (auto simp: render_verbose_def raced_def try_join_def bind_res_def return_ok_def on_world_def map_err_def T
        demo_header_call [OF a])
  then obtain v where run: "intercept_raw_transaction ?E ?req ?ps ?s = (Inr (Some (answer_with ?req v)), s1)"
    using f tx args by (auto simp: intercept_raw_transaction_def T Let_def)
  note answered_transaction_is_in_its_block [OF demo_inv args run, unfolded T]
  then show ?thesis
    using run unfolding Let_def by (fastforce simp: answer_with_def)
qed

end
