(* ===== verification/Effects.thy ===== *)
theory Effects
  imports Intercept
begin

text \<open>
  What answering a call does, for any preorder on states. The locale \<open>own_effect\<close> takes one
  that the proxy's own requests to bitcoind stay within; \<open>serve_effect\<close> one that fetching a
  block stays within as well, and shows it of every operation up to \<open>intercept\<close>: what a call
  keeps, what it sends and what steps it is made of are instances.

  The locale \<open>world_effect\<close> gives such a preorder from one on the outside world that every
  outside operation of the environment stays within (files, clock, sockets, the HTTP requests
  the proxy builds for itself). Its instance here is an environment that keeps a log of every
  HTTP request sent to bitcoind, with the log growing by the proxy's own requests only.
\<close>

section \<open>Preorders on states\<close>

text \<open>A request to bitcoind that the proxy builds for itself.\<close>

definition own_out :: "'w env \<Rightarrow> out_request \<Rightarrow> bool" where
  "own_out E q \<longleftrightarrow> out_base q = env_uri E \<and> out_path q = ''/'' \<and>
     (\<exists>m ps. to_string (env_lib E) (own_request m ps) = Inr (out_body q))"

locale own_effect = client_effect "env_lib E" "env_net E" R
  for E :: "'w env" and R :: "'w pstate \<Rightarrow> 'w pstate \<Rightarrow> bool" +
  assumes R_own_http: "own_out E q \<Longrightarrow> R s (snd (http_send (env_net E) q s))"
begin

lemma R_preorder [simp]: "reflp R" "transp R"
  by (auto intro: reflpI transpI R_refl R_trans)

lemma R_bind_res: "stays_in R m \<Longrightarrow> (\<And>x. stays_in R (f x)) \<Longrightarrow> stays_in R (bind_res m f)"
  by (rule stays_in_bind_res) simp_all

lemma R_own_call: "stays_in R (own_call E m ps de)"
proof -
  have "R s (snd (call (env_lib E) (env_net E) (env_uri E) (method_str m) (de_response de) (own_request m ps) s))" for s
    by (rule effect_call) (simp only: may_send_def, intro allI R_own_http, auto simp: own_out_def)
  then show ?thesis
    by (auto simp: stays_in_def own_call_def split: prod.splits sum.splits) (metis snd_conv)+
qed

lemmas R_rules = R_bind_res R_own_call stays_in_simple(3) stays_in_simple(1,2) [OF R_preorder(1)]

lemma R_fetch_self: "stays_in R (fetch_block_from_self E h)"
  using R_own_call [of GetBlock "get_block_params (env_text E) h (Some 0)"
      "de_either (de_hex (env_text E)) (de_get_block_result (env_text E))"]
  by (auto simp: stays_in_def fetch_block_from_self_def
      split: prod.splits sum.splits call_error.splits option.splits if_splits) (metis snd_conv)+

end

locale serve_effect = own_effect E R
  for E :: "'w env" and R :: "'w pstate \<Rightarrow> 'w pstate \<Rightarrow> bool" +
  assumes R_race: "R s (snd (on_world (race (env_p2p E)) s))"
    and R_fetch_raw: "stays_in R (fetch_block_raw E h)"
begin

lemma R_fetch_block: "stays_in R (fetch_block E h)"
  unfolding fetch_block_def by (auto intro!: R_rules R_fetch_raw split: option.splits sum.splits)

lemma R_header_call: "stays_in R (header_call E h)"
  unfolding header_call_def by (intro R_rules)

lemma R_raced:
  assumes "stays_in R a" and "stays_in R b"
  shows "stays_in R (raced E a b)"
  unfolding stays_in_def
proof
  fix s :: "'w pstate"
  obtain l and s1 :: "'w pstate" where 1: "on_world (race (env_p2p E)) s = (l, s1)" by fastforce
  have "R s s1" using R_race [of s] 1 by simp
  moreover have "stays_in R (try_join l a b)"
    unfolding try_join_def using assms by (auto intro!: R_rules)
  ultimately show "R s (snd (raced E a b s))"
    using 1 transpD [OF R_preorder(2)] by (simp add: raced_def stays_in_def)
qed

lemma R_block_hex: "stays_in R (intercept_block_hex E req h)"
  using R_fetch_raw [of h]
  by (auto simp: stays_in_def intercept_block_hex_def split: prod.splits sum.splits option.splits) (metis snd_conv)+

lemma R_block_verbose: "stays_in R (intercept_block_verbose E req h)"
  using R_raced [OF R_header_call [of h] R_fetch_block [of h]]
  by (auto simp: stays_in_def intercept_block_verbose_def split: prod.splits sum.splits option.splits)
    (metis snd_conv)+

lemma R_with_hash: "(\<And>h. stays_in R (f h)) \<Longrightarrow> stays_in R (with_block_hash E ps f)"
  using reflpD [OF R_preorder(1)]
  by (auto simp: stays_in_def with_block_hash_def split: option.splits sum.splits)

lemma R_get_block: "stays_in R (intercept_get_block E req ps)"
  using R_with_hash [of "intercept_block_hex E req" ps, OF R_block_hex]
    R_with_hash [of "intercept_block_verbose E req" ps, OF R_block_verbose] reflpD [OF R_preorder(1)]
  by (auto simp: stays_in_def intercept_get_block_def split: json.splits)

lemma R_render: "stays_in R (render_verbose E req h hex)"
  unfolding stays_in_def
proof
  fix s
  let ?a = "map_err (rpc_error_of_call (env_lib E))
     (own_call E DecodeRawTransaction (decode_raw_transaction_params hex) de_value)"
  obtain r s1 where 1: "raced E ?a (header_call E h) s = (r, s1)" by fastforce
  have "stays_in R (raced E ?a (header_call E h))" by (intro R_raced R_rules R_header_call)
  then have "R s s1" using 1 by (rule stays_inD)
  then show "R s (snd (render_verbose E req h hex s))"
    using 1 by (auto simp: render_verbose_def split: sum.splits option.splits prod.splits)
qed

lemma R_raw_transaction: "stays_in R (intercept_raw_transaction E req ps)"
  unfolding stays_in_def
proof
  fix s
  show "R s (snd (intercept_raw_transaction E req ps s))"
  proof (cases "interceptable (env_text E) ps")
    case None
    then show ?thesis by (simp add: intercept_raw_transaction_def reflpD [OF R_preorder(1)])
  next
    case (Some x)
    obtain t v h where x: "x = (t, v, h)" by (cases x) auto
    obtain r s1 where 1: "fetch_block E h s = (r, s1)" by fastforce
    have f: "R s s1" using R_fetch_block 1 by (rule stays_inD)
    then have "R s (snd (render_verbose E req h hex s1))" for hex
      using R_render [of req h hex] transpD [OF R_preorder(2)] by (auto simp: stays_in_def)
    then show ?thesis
      using Some x 1 f
      by (auto simp: intercept_raw_transaction_def Let_def split: sum.splits option.splits)
  qed
qed

lemma R_intercept: "stays_in R (intercept E u req)"
  using R_get_block [of req] R_raw_transaction [of req] reflpD [OF R_preorder(1)]
  by (auto simp: stays_in_def intercept_def split: generic_rpc_params.splits)

end

section \<open>Preorders on the outside world\<close>

locale world_effect =
  fixes E :: "'w env" and W :: "'w \<Rightarrow> 'w \<Rightarrow> bool"
  assumes W_refl: "W w w"
    and W_trans: "W u v \<Longrightarrow> W v w \<Longrightarrow> W u w"
    and W_metadata: "W w (snd (fs_metadata (net_fs (env_net E)) p w))"
    and W_read: "W w (snd (fs_read_to_string (net_fs (env_net E)) p w))"
    and W_http: "own_out E q \<Longrightarrow> W w (snd (http (env_net E) q w))"
    and W_body: "W w (snd (to_bytes (env_net E) resp w))"
    and W_instant: "W w (snd (instant_now (env_p2p E) w))"
    and W_secs: "W w (snd (system_secs (env_p2p E) w))"
    and W_tcp: "W w (snd (tcp_connect (env_p2p E) a w))"
    and W_socks: "W w (snd (socks_connect (env_p2p E) p a w))"
    and W_nodelay: "W w (snd (tcp_nodelay (env_p2p E) k w))"
    and W_write: "W w (snd (write_msg (env_p2p E) k m w))"
    and W_flush: "W w (snd (flush_stream (env_p2p E) k w))"
    and W_read_msg: "W w (snd (read_msg (env_p2p E) k w))"
    and W_race: "W w (snd (race (env_p2p E) w))"
begin

definition R :: "'w pstate \<Rightarrow> 'w pstate \<Rightarrow> bool" where
  "R s s1 \<longleftrightarrow> W (world s) (world s1)"

lemma R_preorder [simp]: "reflp R" "transp R"
  unfolding R_def reflp_def transp_def by (auto intro: W_refl W_trans)

lemma R_on_world: "(\<And>w. W w (snd (f w))) \<Longrightarrow> stays_in R (on_world f)"
  by (simp add: stays_in_def R_def on_world_def split: prod.splits) (metis snd_conv)

lemma W_try_load:
  assumes "try_load C (net_fs (env_net E)) a w = (r, a1, w1)"
  shows "W w w1"
proof -
  have step: "W w u \<Longrightarrow> fs_read_to_string (net_fs (env_net E)) p u = (x, v) \<Longrightarrow> W w v" for u v p x
    by (metis W_read W_trans snd_conv)
  have "fs_metadata (net_fs (env_net E)) p w = (x, v) \<Longrightarrow> W w v" for p x v
    by (metis W_metadata snd_conv)
  then show ?thesis
    using assms
    by (cases a) (auto simp: W_refl load_and_cache_def load_from_file_def split: prod.splits sum.splits option.splits
        if_splits intro: step)
qed

lemma R_load_auth: "stays_in R (load_auth (env_lib E) (env_net E))"
  using W_try_load by (auto simp: stays_in_def R_def load_auth_def split: prod.splits)

lemma R_read_body: "stays_in R (read_body (env_net E) resp)"
  using W_body by (auto simp: stays_in_def R_def read_body_def split: prod.splits) (metis snd_conv)

end

sublocale world_effect \<subseteq> own: own_effect E R
proof unfold_locales
  fix s t u :: "'w pstate" and resp
  show "R s s" by (rule reflpD [OF R_preorder(1)])
  show "R s t \<Longrightarrow> R t u \<Longrightarrow> R s u" by (rule transpD [OF R_preorder(2)])
  show "R s (snd (load_auth (env_lib E) (env_net E) s))" using R_load_auth by (simp add: stays_in_def)
  show "R s (snd (read_body (env_net E) resp s))" using R_read_body by (simp add: stays_in_def)
  show "R s (snd (http_send (env_net E) q s))" if "own_out E q" for q
    using W_http [OF that, of "world s"] by (cases "http (env_net E) q (world s)") (simp add: R_def http_send_def)
qed

section \<open>Every operation stays within\<close>

context world_effect
begin

lemma R_same_world: "(\<And>s. world (snd (m s)) = world s) \<Longrightarrow> stays_in R m"
  by (simp add: stays_in_def R_def W_refl)

lemma R_network_params: "stays_in R (network_params_of E)"
proof -
  have "stays_in R (bind_res (map_err ParamsCall (own_call E GetBlockchainInfo no_params (de_blockchain_info (env_text E))))
            (\<lambda>info s1. case from_blockchain_info (env_btc E) info of
                 Inl e \<Rightarrow> (Inl (ParamsNetwork e), s1) | Inr np \<Rightarrow> (Inr np, s1\<lparr>network := Some np\<rparr>)))"
    by (intro own.R_rules R_same_world) (simp split: sum.splits)
  then show ?thesis
    by (auto simp: stays_in_def network_params_of_def reflpD [OF R_preorder(1)] split: option.splits)
qed

lemma world_peers_of: "world (snd (peers_of as s)) = world s"
proof -
  obtain ps s1 where p: "peers_of as s = (ps, s1)" by fastforce
  have "s1 = s\<lparr>chans := chans s1, next_chan := next_chan s + length as\<rparr>" using peers_of_effect [OF p] by blast
  then have "world s1 = world (s\<lparr>chans := chans s1, next_chan := next_chan s + length as\<rparr>)" by (rule arg_cong)
  then show ?thesis using p by simp
qed

lemma world_handles: "world (snd (handles ps s)) = world s"
  using truncate_handles [of ps s] by (metis prod.collapse sys.truncate_def sys.select_convs(2) sys.surjective sys.ext_inject)

lemma R_peers_updated: "stays_in R (peers_updated E)"
proof -
  have "stays_in R (\<lambda>s1. case peers_of as s1 of
      (ps, s2) \<Rightarrow> (case on_world (instant_now (env_p2p E)) s2 of
                   (now, s3) \<Rightarrow> (Inr \<lparr>fetched = Some now, peer_list = ps\<rparr> :: call_error + peers, s3)))" for as
    unfolding stays_in_def
  proof
    fix s :: "'w pstate"
    obtain ps s2 where p: "peers_of as s = (ps, s2)" by fastforce
    obtain now w where w: "instant_now (env_p2p E) (world s2) = (now, w)" by fastforce
    have "W (world s) w" using W_instant [of "world s2"] world_peers_of [of as s] p w by simp
    then show "R s (snd (case peers_of as s of
      (ps, s2) \<Rightarrow> (case on_world (instant_now (env_p2p E)) s2 of
                   (now, s3) \<Rightarrow> (Inr \<lparr>fetched = Some now, peer_list = ps\<rparr> :: call_error + peers, s3))))"
      using p w by (simp add: R_def on_world_def)
  qed
  then show ?thesis unfolding peers_updated_def by (intro own.R_rules)
qed

lemma R_refresh_peers: "stays_in R (refresh_peers E)"
  unfolding refresh_peers_def
  by (intro own.R_bind_res R_peers_updated R_same_world) (simp add: install_peers_def)

lemma R_stale: "stays_in R (stale E ps)"
  using R_on_world [OF W_instant]
  by (auto simp: stays_in_def stale_def reflpD [OF R_preorder(1)] split: option.splits)

lemma R_get_peers: "stays_in R (get_peers E)"
  unfolding stays_in_def
proof
  fix s :: "'w pstate"
  obtain old w where w: "stale E (current_peers s) s = (old, s\<lparr>world := w\<rparr>)" by (rule stale_world)
  then have 1: "R s (s\<lparr>world := w\<rparr>)" using stays_inD [OF R_stale] by blast
  have h: "stays_in R (\<lambda>s. apfst Inr (handles ps s))" for ps
    by (rule R_same_world) (simp add: world_handles)
  have "stays_in R (bind_res (refresh_peers E) (\<lambda>ps s2. apfst Inr (handles (peer_list ps) s2)))"
    by (intro own.R_bind_res R_refresh_peers h)
  then have "R s (snd (bind_res (refresh_peers E) (\<lambda>ps s2. apfst Inr (handles (peer_list ps) s2)) (s\<lparr>world := w\<rparr>)))"
    using 1 transpD [OF R_preorder(2)] by (simp add: stays_in_def)
  moreover have "R s (snd (handles ps (s\<lparr>world := w\<rparr>)))" "R s (snd (handles ps (s\<lparr>world := w, refreshes := n\<rparr>)))" for ps n
    using 1 by (simp_all add: R_def world_handles)
  ultimately show "R s (snd (get_peers E s))"
    using w by (cases old) (simp_all add: get_peers_def Let_def)
qed

lemma R_io: "(\<And>w. W w (snd (f w))) \<Longrightarrow> stays_in R (io f)"
  unfolding io_def by (intro stays_in_simple R_on_world)

lemmas R_p2p = R_io [OF W_tcp] R_io [OF W_socks] R_io [OF W_write] R_io [OF W_flush] R_io [OF W_read_msg]

lemma R_open_stream: "stays_in R (open_stream E r)"
  by (cases r) (simp_all, (intro own.R_rules R_p2p)+)

lemma R_set_nodelay: "stays_in R (set_nodelay E c)"
  unfolding stays_in_def
proof
  fix s :: "'w pstate"
  obtain r s1 where "on_world (tcp_nodelay (env_p2p E) (socket (stream_of c))) s = (r, s1)" by fastforce
  then show "R s (snd (set_nodelay E c s))"
    using stays_inD [OF R_on_world [OF W_nodelay]] by (simp add: set_nodelay_def)
qed

lemma R_handshake: "stays_in R (handshake E m k)"
  unfolding stays_in_def
proof
  fix s :: "'w pstate"
  obtain secs and s1 :: "'w pstate" where w: "on_world (system_secs (env_p2p E)) s = (secs, s1)" by fastforce
  have "R s s1" using stays_inD [OF R_on_world [OF W_secs] w] .
  moreover have "stays_in R (bind_res (io (write_msg (env_p2p E) k (version_message m secs))) (\<lambda>_.
       bind_res (io (flush_stream (env_p2p E) k)) (\<lambda>_.
       bind_res (io (read_msg (env_p2p E) k)) (\<lambda>_.
       bind_res (io (read_msg (env_p2p E) k)) (\<lambda>_.
       bind_res (io (write_msg (env_p2p E) k (ver_ack m))) (\<lambda>_.
       io (flush_stream (env_p2p E) k)))))))"
    by (intro own.R_rules R_p2p)
  ultimately show "R s (snd (handshake E m k s))"
    using w transpD [OF R_preorder(2)] by (simp add: handshake_def stays_in_def)
qed

lemma R_receive_block: "stays_in R (receive_block E m h k n)"
proof (induction n)
  case (Suc n)
  have "stays_in R (\<lambda>s. (judge (env_btc E) h b, s))" for b by (rule R_same_world) simp
  with Suc show ?case by (auto intro!: own.R_rules R_p2p split: payload.splits)
qed (auto intro: own.R_rules)

lemma R_connect: "stays_in R (connect E addr)"
  unfolding connect_def
  by (auto intro!: own.R_rules R_network_params R_open_stream R_set_nodelay R_handshake split: sum.splits)

lemma R_try_peer: "stays_in R (try_peer E h p)"
  unfolding try_peer_def handle_connect_def fetch_block_from_peer_def
  by (auto intro!: own.R_rules R_p2p R_network_params R_connect R_receive_block split: option.splits)

lemma R_fetch_from_peers: "stays_in R (fetch_block_from_peers E h ps)"
  unfolding stays_in_def
proof (induction ps)
  case (Cons p ps)
  show ?case
  proof
    fix s
    obtain r s1 where t: "try_peer E h p s = (r, s1)" by fastforce
    have 1: "R s s1" using R_try_peer t by (rule stays_inD)
    have "R s (snd (fetch_block_from_peers E h ps s1))" using 1 Cons transpD [OF R_preorder(2)] by blast
    moreover have "R s (recycle c s1)" for c using 1 by (simp add: R_def recycle_def)
    ultimately show "R s (snd (fetch_block_from_peers E h (p # ps) s))"
      using t by (auto split: sum.splits prod.splits)
  qed
qed (simp add: reflpD [OF R_preorder(1)])

lemma R_fetch_pruned: "stays_in R (fetch_pruned E h)"
proof -
  have "stays_in R (\<lambda>s. case fetch_block_from_peers E h ps s of
         (None, s1) \<Rightarrow> (Inr None :: rpc_error + bytes option, s1)
       | (Some b, s1) \<Rightarrow>
           (case encode_block (env_btc E) b of
              Inl e \<Rightarrow> (Inl (rpc_error_of_anyhow e), s1)
            | Inr d \<Rightarrow> (Inr (Some d), s1\<lparr>cache := cache_insert (cache s1) h d\<rparr>)))" for ps
    unfolding stays_in_def
  proof
    fix s
    obtain r s1 where f: "fetch_block_from_peers E h ps s = (r, s1)" by fastforce
    have "W (world s) (world s1)" using stays_inD [OF R_fetch_from_peers f] by (simp add: R_def)
    then show "R s (snd (case fetch_block_from_peers E h ps s of
         (None, s1) \<Rightarrow> (Inr None :: rpc_error + bytes option, s1)
       | (Some b, s1) \<Rightarrow>
           (case encode_block (env_btc E) b of
              Inl e \<Rightarrow> (Inl (rpc_error_of_anyhow e), s1)
            | Inr d \<Rightarrow> (Inr (Some d), s1\<lparr>cache := cache_insert (cache s1) h d\<rparr>))))"
      using f by (auto simp: R_def split: option.splits sum.splits)
  qed
  then show ?thesis unfolding fetch_pruned_def by (intro own.R_rules R_get_peers)
qed

lemma R_fetch_raw: "stays_in R (fetch_block_raw E h)"
proof -
  let ?m = "bind_res (fetch_block_from_self E h)
      (\<lambda>res. case res of Some b \<Rightarrow> return_ok (Some b) | None \<Rightarrow> fetch_pruned E h)"
  have "stays_in R ?m" by (auto intro!: own.R_rules own.R_fetch_self R_fetch_pruned split: option.splits)
  then have "R (s\<lparr>cache := c\<rparr>) (snd (?m (s\<lparr>cache := c\<rparr>)))" for s c by (simp add: stays_in_def)
  then have "R s (snd (?m (s\<lparr>cache := c\<rparr>)))" for s c by (simp add: R_def)
  then show ?thesis
    by (auto simp: stays_in_def fetch_block_raw_def R_def W_refl split: prod.splits option.splits)
qed

end

sublocale world_effect \<subseteq> serve: serve_effect E R
proof unfold_locales
  show "R s (snd (on_world (race (env_p2p E)) s))" for s
    using R_on_world [OF W_race] by (simp add: stays_in_def)
qed (rule R_fetch_raw)

section \<open>The instance: a log of the requests sent to bitcoind\<close>

text \<open>
  Any environment with a log beside its world: every operation does to the world what it
  did, and an HTTP request is written to the log before it is sent.
\<close>

definition logged :: "('w \<Rightarrow> 'r \<times> 'w) \<Rightarrow> 'w \<times> out_request list \<Rightarrow> 'r \<times> ('w \<times> out_request list)" where
  "logged f wl = (case f (fst wl) of (r, w) \<Rightarrow> (r, (w, snd wl)))"

definition logged_net :: "'w net \<Rightarrow> ('w \<times> out_request list) net" where
  "logged_net N = \<lparr>net_fs = \<lparr>fs_metadata = (\<lambda>p. logged (fs_metadata (net_fs N) p)),
       fs_read_to_string = (\<lambda>p. logged (fs_read_to_string (net_fs N) p))\<rparr>,
     http = (\<lambda>q wl. logged (http N q) (fst wl, snd wl @ [q])),
     to_bytes = (\<lambda>r. logged (to_bytes N r))\<rparr>"

definition logged_p2p :: "'w p2p \<Rightarrow> ('w \<times> out_request list) p2p" where
  "logged_p2p P = \<lparr>instant_now = logged (instant_now P), system_secs = logged (system_secs P),
     tcp_connect = (\<lambda>a. logged (tcp_connect P a)), socks_connect = (\<lambda>p a. logged (socks_connect P p a)),
     tcp_nodelay = (\<lambda>k. logged (tcp_nodelay P k)), write_msg = (\<lambda>k m. logged (write_msg P k m)), flush_stream = (\<lambda>k. logged (flush_stream P k)),
     read_msg = (\<lambda>k. logged (read_msg P k)), race = logged (race P)\<rparr>"

definition logged_env :: "'w env \<Rightarrow> ('w \<times> out_request list) env" where
  "logged_env E = \<lparr>env_lib = env_lib E, env_net = logged_net (env_net E), env_text = env_text E,
     env_btc = env_btc E, env_auth = env_auth E, env_p2p = logged_p2p (env_p2p E), env_uri = env_uri E,
     env_tor = env_tor E, env_i2p_proxy = env_i2p_proxy E, env_max_peer_age = env_max_peer_age E,
     env_patience = env_patience E, env_show_update = env_show_update E\<rparr>"

text \<open>The log grows, by requests that satisfy \<open>P\<close> only.\<close>

definition log_grows :: "(out_request \<Rightarrow> bool) \<Rightarrow> 'w \<times> out_request list \<Rightarrow> 'w \<times> out_request list \<Rightarrow> bool" where
  "log_grows P wl wl1 \<longleftrightarrow> (\<exists>new. snd wl1 = snd wl @ new \<and> (\<forall>q\<in>set new. P q))"

lemma log_grows_preorder: "log_grows P w w" "log_grows P u v \<Longrightarrow> log_grows P v w \<Longrightarrow> log_grows P u w"
proof -
  show "log_grows P w w" by (simp add: log_grows_def)
  show "log_grows P u v \<Longrightarrow> log_grows P v w \<Longrightarrow> log_grows P u w"
    unfolding log_grows_def by (metis UnE append.assoc set_append)
qed

lemma log_grows_logged: "log_grows P w (snd (logged f w))"
  by (simp add: log_grows_def logged_def split: prod.splits)

lemma log_grows_http: "P q \<Longrightarrow> log_grows P w (snd (http (logged_net N) q w))"
  by (auto simp: log_grows_def logged_def logged_net_def split: prod.splits)

lemma logged_env_sel [simp]:
  "env_lib (logged_env E) = env_lib E" "env_net (logged_env E) = logged_net (env_net E)"
  "env_text (logged_env E) = env_text E" "env_btc (logged_env E) = env_btc E"
  "env_auth (logged_env E) = env_auth E" "env_p2p (logged_env E) = logged_p2p (env_p2p E)"
  "env_uri (logged_env E) = env_uri E"
  by (simp_all add: logged_env_def)

lemma own_out_logged: "own_out (logged_env E) q = own_out E q"
  by (simp add: own_out_def)

interpretation logging: world_effect "logged_env E" "log_grows (\<lambda>q. own_out E q \<or> P q)"
  for E :: "'v env" and P :: "out_request \<Rightarrow> bool"
proof unfold_locales
  fix u v w :: "'v \<times> out_request list"
  show "log_grows (\<lambda>q. own_out E q \<or> P q) w w" by (rule log_grows_preorder)
  show "log_grows (\<lambda>q. own_out E q \<or> P q) u v \<Longrightarrow> log_grows (\<lambda>q. own_out E q \<or> P q) v w \<Longrightarrow>
      log_grows (\<lambda>q. own_out E q \<or> P q) u w" by (rule log_grows_preorder)
  show "log_grows (\<lambda>q. own_out E q \<or> P q) w (snd (http (env_net (logged_env E)) q w))"
    if "own_out (logged_env E) q" for q
    using that by (simp add: own_out_logged log_grows_http)
qed (simp_all add: logged_net_def logged_p2p_def log_grows_logged)

end
