(* ===== verification/Proxy_Request.thy ===== *)
theory Proxy_Request
  imports Effects
begin

text \<open>
  \<open>proxy_request\<close> of \<open>src/proxy.rs\<close>, the handler of every HTTP request, what of a request
  reaches bitcoind, and the states a sequence of requests leads to, with background refreshes
  of the peer list ending in between. \<open>sched\<close> and \<open>stage\<close> are the schedule of a batch, as in
  the client.

  Logging is left out; the body of a request is the bytes read from it, or the error of
  reading it.
\<close>

section \<open>The handler\<close>

record http_request =
  rq_method :: string
  rq_path :: string
  rq_authorization :: "bytes option"
  rq_body :: "anyhow_error + bytes"

definition unauthorized :: http_response where
  "unauthorized = \<lparr>resp_status = UNAUTHORIZED,
     resp_headers = [(''www-authenticate'', HeaderText ''Basic realm=\"jsonrpc\"'')], resp_body = []\<rparr>"

definition only_post :: http_response where
  "only_post = \<lparr>resp_status = METHOD_NOT_ALLOWED, resp_headers = [],
     resp_body = as_bytes ''JSONRPC server handles only POST requests''\<rparr>"

definition not_found :: http_response where
  "not_found = \<lparr>resp_status = NOT_FOUND, resp_headers = [], resp_body = []\<rparr>"

definition served_path :: "string \<Rightarrow> bool" where
  "served_path p \<longleftrightarrow> p = ''/'' \<or> p = '''' \<or> starts_with ''/wallet/'' p"

text \<open>\<open>headers.get(AUTHORIZATION).and_then(|auth| users.get(auth))\<close>.\<close>

definition authenticate :: "'w env \<Rightarrow> http_request \<Rightarrow> 'w pstate \<Rightarrow>
    (panic + (string \<times> user) option) \<times> 'w pstate" where
  "authenticate E rq s =
     (case rq_authorization rq of
        None \<Rightarrow> (Inr None, s)
      | Some header \<Rightarrow>
          (case users_get (env_auth E) (net_fs (env_net E)) (users_map s) header (world s) of
             (r, us, w) \<Rightarrow> (r, s\<lparr>users_map := us, world := w\<rparr>)))"

definition parse_request :: "lib \<Rightarrow> bytes \<Rightarrow> serde_error + single_or_batch" where
  "parse_request L data = and_then (parse_json L data) de_single_or_batch"

definition forward_path :: "user \<Rightarrow> http_request \<Rightarrow> string" where
  "forward_path u rq = (case override_wallet u of Some p \<Rightarrow> p | None \<Rightarrow> rq_path rq)"

definition serve_user :: "'w env \<Rightarrow> http_request \<Rightarrow> (generic_request list \<Rightarrow> (nat \<times> generic_request) list) \<Rightarrow>
    forwarding \<Rightarrow> user \<Rightarrow> 'w pstate \<Rightarrow> served \<times> 'w pstate" where
  "serve_user E rq sched stage u s =
     (case rq_body rq of
        Inl e \<Rightarrow> (Inr (Inl e), s)
      | Inr data \<Rightarrow>
          (case parse_request (env_lib E) data of
             Inl e \<Rightarrow>
               (Inr (into_response (to_vec (env_lib E)) (show_serde (env_lib E))
                  (response_of_error (rpc_error_of_serde (show_serde (env_lib E)) e))), s)
           | Inr req \<Rightarrow>
               send (env_lib E) (env_net E) (env_uri E) (forward_path u rq) req
                 (case req of Single _ \<Rightarrow> [] | Batch reqs \<Rightarrow> sched reqs) stage
                 (\<lambda>path q. intercept E u q) s))"

definition proxy_request :: "'w env \<Rightarrow> http_request \<Rightarrow> (generic_request list \<Rightarrow> (nat \<times> generic_request) list) \<Rightarrow>
    forwarding \<Rightarrow> 'w pstate \<Rightarrow> served \<times> 'w pstate" where
  "proxy_request E rq sched stage s =
     (if served_path (rq_path rq) then
        (if rq_method rq = ''POST'' then
           (case authenticate E rq s of
              (Inl p, s1) \<Rightarrow> (Inl p, s1)
            | (Inr None, s1) \<Rightarrow> (Inr (Inr unauthorized), s1)
            | (Inr (Some (name, u)), s1) \<Rightarrow> serve_user E rq sched stage u s1)
         else (Inr (Inr only_post), s))
      else (Inr (Inr not_found), s))"

section \<open>Library lemmas: what a request keeps\<close>

text \<open>Users keep their names, permissions and passwords; a comparison may refresh a cached cookie.\<close>

definition same_users :: "users \<Rightarrow> users \<Rightarrow> bool" where
  "same_users us us1 \<longleftrightarrow> fmdom us1 = fmdom us \<and>
     (\<forall>name u1. fmlookup us1 name = Some u1 \<longrightarrow> (\<exists>u. fmlookup us name = Some u \<and> same_user u1 u))"

lemma same_users_preorder: "same_users us us" "same_users us us1 \<Longrightarrow> same_users us1 us2 \<Longrightarrow> same_users us us2"
  unfolding same_users_def using same_user_preorder by (simp, metis)

lemma users_get_same_users:
  assumes "users_get A fs us header w = (r, us1, w1)"
  shows "same_users us us1"
proof (cases "credentials A header")
  case (Some np)
  obtain name pass where np: "np = (name, pass)" by fastforce
  show ?thesis
  proof (cases "fmlookup us name")
    case None
    then show ?thesis using assms Some np by (simp add: users_get_def same_users_preorder)
  next
    case (Some u)
    obtain rp pw w2 where pe: "password_eq (hmac A) fs (user_password u) pass w = (rp, pw, w2)"
      by (metis prod_cases3)
    then have "same_user (u\<lparr>user_password := pw\<rparr>) u"
      using password_eq_frame [OF pe] by (simp add: same_user_def same_permissions_def)
    moreover have "us1 = fmupd name (u\<lparr>user_password := pw\<rparr>) us"
      using assms \<open>credentials A header = Some np\<close> np Some pe by (simp add: users_get_def Let_def)
    ultimately show ?thesis
      using Some same_user_preorder(1) by (auto simp: same_users_def finsert_absorb fmdomI)
  qed
qed (use assms in \<open>simp add: users_get_def same_users_preorder\<close>)

text \<open>All that authentication changes is what \<open>Users::get\<close> changes.\<close>

lemma authenticate_state:
  "snd (authenticate E rq s) = s \<or>
   (\<exists>header r us w. users_get (env_auth E) (net_fs (env_net E)) (users_map s) header (world s) = (r, us, w) \<and>
      snd (authenticate E rq s) = s\<lparr>users_map := us, world := w\<rparr>)"
proof (cases "rq_authorization rq")
  case (Some header)
  obtain r us w where "users_get (env_auth E) (net_fs (env_net E)) (users_map s) header (world s) = (r, us, w)"
    by (metis prod_cases3)
  then show ?thesis using Some by (auto simp: authenticate_def)
qed (simp add: authenticate_def)

text \<open>The handler stays within a preorder that authentication and any HTTP request stay within.\<close>

locale request_effect = serve_effect E R
  for E :: "'w env" and R :: "'w pstate \<Rightarrow> 'w pstate \<Rightarrow> bool" +
  assumes R_authenticate: "stays_in R (authenticate E rq)"
    and R_http: "R s (snd (http_send (env_net E) q s))"
begin

lemma R_serve_user: "stays_in R (serve_user E rq sched stage u)"
proof -
  have "R s (snd (send (env_lib E) (env_net E) (env_uri E) path req ord stage (\<lambda>path q. intercept E u q) s))"
    for s path req ord
    using R_intercept by (intro effect_send) (simp_all add: may_send_def R_http stays_in_def)
  then show ?thesis by (auto simp: stays_in_def serve_user_def R_refl split: sum.splits)
qed

lemma R_proxy_request: "stays_in R (proxy_request E rq sched stage)"
  unfolding stays_in_def
proof
  fix s
  obtain r s1 where a: "authenticate E rq s = (r, s1)" by fastforce
  have f: "R s s1" using R_authenticate a by (rule stays_inD)
  have "R s (snd (serve_user E rq sched stage u s1))" for u
    using f R_serve_user R_trans by (auto simp: stays_in_def)
  then show "R s (snd (proxy_request E rq sched stage s))"
    using a f R_refl by (auto simp: proxy_request_def split: sum.splits option.splits)
qed

end

section \<open>What reaches bitcoind\<close>

text \<open>
  A request to bitcoind made of calls of the client: at the user's wallet path if one is set,
  with calls the client sent, the user may make and the proxy does not answer itself.
\<close>

definition may_call :: "user \<Rightarrow> generic_request \<Rightarrow> bool" where
  "may_call u c \<longleftrightarrow> (\<forall>ac. allowed_calls u = Some ac \<longrightarrow> rpc_method c |\<in>| ac)"

definition client_out :: "'w env \<Rightarrow> user \<Rightarrow> http_request \<Rightarrow> out_request \<Rightarrow> bool" where
  "client_out E u rq q \<longleftrightarrow>
     out_base q = env_uri E \<and>
     parse_path (env_lib E) (case override_wallet u of Some wallet \<Rightarrow> wallet | None \<Rightarrow> rq_path rq) = Inr (out_path q) \<and>
     (\<exists>data req. rq_body rq = Inr data \<and> parse_request (env_lib E) data = Inr req \<and>
        (case req of
           Single c \<Rightarrow> to_string (env_lib E) (ser_request c) = Inr (out_body q) \<and>
             may_call u c \<and> \<not> answers_itself (env_text E) u c
         | Batch cs \<Rightarrow> \<exists>fwd. to_string (env_lib E) (Array (map ser_request fwd)) = Inr (out_body q) \<and>
             (\<forall>c\<in>set fwd. c \<in> set cs \<and> may_call u c \<and> \<not> answers_itself (env_text E) u c)))"

lemma may_call_allowed: "may_call u c \<longleftrightarrow> allowed u (rpc_method c)"
  by (auto simp: may_call_def allowed_def split: option.splits)

lemmas client_out_iff = client_out_def [folded forward_path_def, unfolded may_call_allowed]

text \<open>A schedule of a batch: its calls, each once, in some order.\<close>

definition schedule_ok :: "(generic_request list \<Rightarrow> (nat \<times> generic_request) list) \<Rightarrow> bool" where
  "schedule_ok sched \<longleftrightarrow> (\<forall>cs. mset (sched cs) = mset (enumerate 0 cs))"

lemma log_stat_ok: "stat_ok (net_fs (logged_net N)) p wl = (r, wl1) \<Longrightarrow> snd wl1 = snd wl"
  by (auto simp: stat_ok_def logged_net_def logged_def split: prod.splits sum.splits)

lemma log_read: "fs_read_to_string (net_fs (logged_net N)) p wl = (r, wl1) \<Longrightarrow> snd wl1 = snd wl"
  by (auto simp: logged_net_def logged_def split: prod.splits)

lemma log_read_and_restat:
  "read_and_restat (net_fs (logged_net N)) p c wl = (r, c1, wl1) \<Longrightarrow> snd wl1 = snd wl"
  by (auto simp: read_and_restat_def split: prod.splits option.splits sum.splits dest!: log_stat_ok log_read)

lemma log_cookie_password:
  "cookie_password (net_fs (logged_net N)) p c wl = (r, c1, wl1) \<Longrightarrow> snd wl1 = snd wl"
  by (auto simp: cookie_password_def split: prod.splits option.splits if_splits
      dest!: log_stat_ok log_read_and_restat)

lemma log_password_eq:
  "password_eq hm (net_fs (logged_net N)) pw pass wl = (r, pw1, wl1) \<Longrightarrow> snd wl1 = snd wl"
  by (cases pw) (auto split: prod.splits option.splits if_splits dest!: log_cookie_password)

lemma log_authenticate:
  assumes "authenticate (logged_env E) rq s = (r, s1)"
  shows "snd (world s1) = snd (world s)"
  using assms
  by (auto simp: authenticate_def users_get_def Let_def split: option.splits prod.splits dest: log_password_eq)

lemma client_out_batch:
  assumes sched: "schedule_ok sched"
    and parsed: "rq_body rq = Inr data" "parse_request (env_lib E) data = Inr (Batch cs)"
    and path: "parse_path (env_lib E) (forward_path u rq) = Inr pq"
    and body: "to_string (env_lib E) (Array (map ser_request fwd)) = Inr b"
    and left: "\<forall>c\<in>set fwd. (\<exists>i. (i, c) \<in> set (sched cs)) \<and> allowed u (rpc_method c) \<and>
       \<not> answers_itself (env_text E) u c"
  shows "client_out E u rq \<lparr>out_base = env_uri E, out_path = pq, out_auth = a, out_body = b\<rparr>"
proof -
  have "set (sched cs) = set (enumerate 0 cs)" using sched unfolding schedule_ok_def by (metis mset_eq_setD)
  then have "c \<in> set cs" if "(i, c) \<in> set (sched cs)" for i c
    using that by (auto simp: in_set_enumerate_eq)
  then show ?thesis
    using parsed path body left unfolding client_out_iff by fastforce
qed

lemma log_serve_user:
  assumes sched: "schedule_ok sched"
  shows "log_grows (\<lambda>q. own_out E q \<or> client_out E u rq q) (world s)
           (world (snd (serve_user (logged_env E) rq sched stage u s)))"
proof -
  let ?P = "client_out E u rq"
  have left: "intercept (logged_env E) u c t = (Inr (Inr None), t1) \<Longrightarrow>
      allowed u (rpc_method c) \<and> \<not> answers_itself (env_text E) u c" for c t t1
    using intercept_left [of "logged_env E" u c t t1] by simp
  have sent: "logging.R E ?P t (snd (http_send (logged_net (env_net E)) q t))" if "?P q" for q t
    using that log_grows_http [of "\<lambda>q. own_out E q \<or> ?P q" q "world t" "env_net E"]
    by (auto simp: logging.R_def http_send_def split: prod.splits)
  have "logging.R E ?P s (snd (send (env_lib E) (logged_net (env_net E)) (env_uri E) (forward_path u rq) req
      (case req of Single _ \<Rightarrow> [] | Batch reqs \<Rightarrow> sched reqs) stage (\<lambda>path q. intercept (logged_env E) u q) s))"
    if parsed: "rq_body rq = Inr data" "parse_request (env_lib E) data = Inr req" for data req
  proof (rule logging.own.effect_send [where E = E and P = ?P, unfolded logging.own.may_send_def, unfolded logged_env_sel])
    show "logging.R E ?P t (snd (intercept (logged_env E) u q t))" for q t
      using logging.serve.R_intercept [of E ?P u q] by (simp add: stays_in_def)
  next
    fix pq a body q
    assume "req = Single q" "parse_path (env_lib E) (forward_path u rq) = Inr pq"
      "to_string (env_lib E) (ser_request q) = Inr body" "\<exists>s s1. intercept (logged_env E) u q s = (Inr (Inr None), s1)"
    then have "?P \<lparr>out_base = env_uri E, out_path = pq, out_auth = a, out_body = body\<rparr>"
      using parsed left unfolding client_out_iff by fastforce
    then show "\<forall>t. logging.R E ?P t (snd (http_send (logged_net (env_net E))
        \<lparr>out_base = env_uri E, out_path = pq, out_auth = a, out_body = body\<rparr> t))"
      using sent by blast
  next
    fix pq a body qs reqs
    assume "req = Batch reqs" "parse_path (env_lib E) (forward_path u rq) = Inr pq"
      "to_string (env_lib E) (Array (map ser_request qs)) = Inr body"
      "\<forall>q\<in>set qs. (\<exists>i. (i, q) \<in> set (case req of Single _ \<Rightarrow> [] | Batch reqs \<Rightarrow> sched reqs)) \<and>
         (\<exists>s s1. intercept (logged_env E) u q s = (Inr (Inr None), s1))"
    then have "?P \<lparr>out_base = env_uri E, out_path = pq, out_auth = a, out_body = body\<rparr>"
      using parsed left by (intro client_out_batch [OF sched]) auto
    then show "\<forall>t. logging.R E ?P t (snd (http_send (logged_net (env_net E))
        \<lparr>out_base = env_uri E, out_path = pq, out_auth = a, out_body = body\<rparr> t))"
      using sent by blast
  qed
  then show ?thesis
    by (auto simp: serve_user_def logging.R_def log_grows_preorder split: sum.splits)
qed

text \<open>A request that is refused sends nothing; one that is let in sends what its user may send.\<close>

definition let_in :: "'w env \<Rightarrow> http_request \<Rightarrow> 'w pstate \<Rightarrow> string \<Rightarrow> user \<Rightarrow> bool" where
  "let_in E rq s name u \<longleftrightarrow> served_path (rq_path rq) \<and> rq_method rq = ''POST'' \<and>
     fst (authenticate E rq s) = Inr (Some (name, u))"

lemma log_refused:
  assumes "proxy_request (logged_env E) rq sched stage s = (r, s1)" and "\<nexists>name u. let_in (logged_env E) rq s name u"
  shows "snd (world s1) = snd (world s)"
proof -
  obtain ra sa where a: "authenticate (logged_env E) rq s = (ra, sa)" by fastforce
  then have "s1 = s \<or> s1 = sa"
    using assms by (auto simp: let_in_def proxy_request_def split: sum.splits option.splits if_splits)
  then show ?thesis using log_authenticate [OF a] by auto
qed

lemma log_let_in:
  assumes "schedule_ok sched" and "proxy_request (logged_env E) rq sched stage s = (r, s1)"
    and "let_in (logged_env E) rq s name u"
  shows "log_grows (\<lambda>q. own_out E q \<or> client_out E u rq q) (world s) (world s1)"
proof -
  obtain sa where a: "authenticate (logged_env E) rq s = (Inr (Some (name, u)), sa)"
    using assms(3) by (cases "authenticate (logged_env E) rq s") (simp add: let_in_def)
  have "s1 = snd (serve_user (logged_env E) rq sched stage u sa)"
    using assms(2,3) a by (simp add: proxy_request_def let_in_def)
  then show ?thesis
    using log_serve_user [OF assms(1), of E u rq sa stage] log_authenticate [OF a] by (simp add: log_grows_def)
qed

section \<open>The proxy as a state machine\<close>

text \<open>
  The state at start, and the states that are reached by serving a sequence of requests, with
  background refreshes ending at any time between them.
\<close>

definition fresh_state :: "auth_source \<Rightarrow> users \<Rightarrow> usize \<Rightarrow> 'w \<Rightarrow> 'w pstate" where
  "fresh_state a us m w = \<lparr>auth = a, world = w, users_map = us, network = None, current_peers = peers_new,
     chans = fmempty, next_chan = 0, refreshes = 0, cache = cache_new m\<rparr>"

inductive serves :: "'w env \<Rightarrow> 'w pstate \<Rightarrow> http_request list \<Rightarrow> 'w pstate \<Rightarrow> bool" for E s0 where
  start: "serves E s0 [] s0"
| served: "serves E s0 rqs s \<Longrightarrow> schedule_ok sched \<Longrightarrow> proxy_request E rq sched stage s = (r, s1) \<Longrightarrow>
    serves E s0 (rqs @ [rq]) s1"
| refreshed: "serves E s0 rqs s \<Longrightarrow> serves E s0 rqs (finish_refresh E s)"

lemma proxy_inv_fresh: "proxy_inv E (fresh_state a us m w)"
  by (simp add: proxy_inv_def cache.all_held_def contents_of_def pool_inv_def fresh_state_def peers_new_def
      cache_new_def inner_default_def)

section \<open>A request, served\<close>

text \<open>
  For witnesses: a \<open>POST\<close> of alice asking for a block with the verbosity the proxy leaves to
  bitcoind, to a proxy whose log is empty.
\<close>

definition demo_call :: generic_request where
  "demo_call = \<lparr>jsonrpc = Some (String ''2.0''), req_id = Some Null, rpc_method = ''getblock'',
     params = PArray [String ''h'', json_u64 2]\<rparr>"

definition demo_http :: http_request where
  "demo_http = \<lparr>rq_method = ''POST'', rq_path = ''/'', rq_authorization = Some (as_bytes ''Basic alice:public''),
     rq_body = Inr []\<rparr>"

definition demo_start :: "'w \<Rightarrow> 'w pstate" where
  "demo_start w = fresh_state (AuthConst ''u'' ''p'' ''Basic u:p'') demo_users 1048576 w"

abbreviation demo_proxy :: "raw_message list env" where
  "demo_proxy \<equiv> (demo_env (\<lambda>m. ser_request demo_call))\<lparr>env_max_peer_age := 300000000000\<rparr>"

definition demo_out :: out_request where
  "demo_out = \<lparr>out_base = ''http://127.0.0.1:8332/'', out_path = ''/wallet/w'', out_auth = ''Basic u:p'',
     out_body = ''getblock''\<rparr>"

lemma demo_alice: "credentials demo_auth (as_bytes ''Basic alice:public'') = Some (''alice'', ''public'')"
proof -
  have "utf8_valid (as_bytes ''alice:public'')" by (simp add: as_bytes_def of_char_def)
  then show ?thesis using demo_credentials [of "''alice:public''"] by simp
qed

lemma demo_authenticates:
  assumes "env_auth E = demo_auth" and "users_map s = demo_users"
  shows "authenticate E demo_http s = (Inr (Some (''alice'', demo_user)), s)"
proof -
  note demo_alice
  moreover have "demo_user\<lparr>user_password := Cleartext ''public''\<rparr> = demo_user" by (simp add: demo_user_def)
  ultimately show ?thesis
    using assms
    by (simp add: authenticate_def demo_http_def users_get_def demo_users_def demo_user_def same_contents_iff
        fmupd_same Let_def)
qed

lemma demo_parses: "parse_request (env_lib demo_proxy) data = Inr (Single demo_call)"
  by (simp add: parse_request_def demo_env_def demo_node_lib_def demo_call_def ser_request_def
      ser_request_with_def visit_map_def de_value_def partial_empty_def finish_request_def json_u64_def)

lemma demo_forwarded:
  "\<exists>r. proxy_request (logged_env demo_proxy) demo_http (enumerate 0) NotBegun (demo_start (w, l)) =
     (r, demo_start (w, l @ [demo_out]))"
proof -
  have "intercept (logged_env demo_proxy) demo_user demo_call s = (Inr (Inr None), s)" for s
    by (simp add: intercept_forward_iff allowed_def answers_itself_def demo_call_def demo_user_def json_u64_def)
  moreover have "demo_method (ser_request demo_call) = ''getblock''"
    by (simp add: demo_method_def demo_call_def ser_request_def ser_request_with_def)
  ultimately show ?thesis
    using demo_authenticates [of "logged_env demo_proxy" "demo_start (w, l)"] demo_parses [of "[]"]
    by (simp add: proxy_request_def serve_user_def demo_start_def fresh_state_def served_path_def demo_http_def
        send_single_def forward_single_def load_auth_def http_send_def logged_net_def logged_def demo_out_def
        demo_env_def demo_node_lib_def demo_lib_def demo_node_net_def forward_path_def demo_user_def)
qed

section \<open>Properties\<close>

text \<open>
  C1: bitcoind never sees a call the user may not make. In an environment that logs every
  HTTP request sent to bitcoind, what serving one request adds to the log is: requests the
  proxy builds for itself, and, if the request authenticates as a user, requests made of
  calls from its body that the user is allowed, sent to the user's wallet path where one is
  set; nothing at all is sent for a request that is not a \<open>POST\<close> to a served path or does not
  authenticate. This holds for any schedule of a batch and whatever the network does.
\<close>

theorem only_allowed_calls_reach_bitcoind:
  assumes "schedule_ok sched" and "proxy_request (logged_env E) rq sched stage s = (r, s1)"
  shows "\<exists>new. snd (world s1) = snd (world s) @ new \<and>
    (case fst (authenticate (logged_env E) rq s) of
       Inr (Some (name, u)) \<Rightarrow>
         if served_path (rq_path rq) \<and> rq_method rq = ''POST''
         then \<forall>q\<in>set new. own_out E q \<or> client_out E u rq q else new = []
     | _ \<Rightarrow> new = [])"
proof (cases "\<exists>name u. let_in (logged_env E) rq s name u")
  case True
  then obtain name u where u: "let_in (logged_env E) rq s name u" by blast
  show ?thesis using log_let_in [OF assms u] u by (simp add: log_grows_def let_in_def)
next
  case False
  then have "snd (world s1) = snd (world s)" by (rule log_refused [OF assms(2)])
  then show ?thesis using False by (auto simp: let_in_def split: sum.splits option.splits)
qed

theorem only_allowed_calls_reach_bitcoind_witness:
  "\<exists>r s1. proxy_request (logged_env demo_proxy) demo_http (enumerate 0) NotBegun (demo_start ([], [])) = (r, s1) \<and>
     snd (world s1) = [demo_out] \<and>
     (own_out demo_proxy demo_out \<or> client_out demo_proxy demo_user demo_http demo_out)"
proof -
  have sched: "schedule_ok (enumerate 0)" by (simp add: schedule_ok_def)
  obtain r where run: "proxy_request (logged_env demo_proxy) demo_http (enumerate 0) NotBegun (demo_start ([], [])) =
      (r, demo_start ([], [demo_out]))"
    using demo_forwarded [of "[]" "[]"] by auto
  have auth: "authenticate (logged_env demo_proxy) demo_http (demo_start ([], [])) =
      (Inr (Some (''alice'', demo_user)), demo_start ([], []))"
    by (rule demo_authenticates) (simp_all add: demo_env_def demo_start_def fresh_state_def)
  have path: "served_path (rq_path demo_http)" "rq_method demo_http = ''POST''"
    by (simp_all add: served_path_def demo_http_def)
  have w: "world (demo_start wl) = wl" for wl :: "raw_message list \<times> out_request list"
    by (simp add: demo_start_def fresh_state_def)
  have "own_out demo_proxy demo_out \<or> client_out demo_proxy demo_user demo_http demo_out"
    using only_allowed_calls_reach_bitcoind [OF sched run] auth path by (simp add: w)
  then show ?thesis using run w by auto
qed

text \<open>
  C14: who is not let in. A path outside the served ones is answered 404, another method than
  \<open>POST\<close> 405, a request without credentials or with credentials that do not authenticate 401
  with the challenge; the first two touch nothing, and the last at most the cached cookie of
  the user whose name was presented.
\<close>

theorem unauthenticated_requests_get_nothing:
  "(\<not> served_path (rq_path rq) \<longrightarrow> proxy_request E rq sched stage s = (Inr (Inr not_found), s)) \<and>
   (served_path (rq_path rq) \<longrightarrow> rq_method rq \<noteq> ''POST'' \<longrightarrow>
      proxy_request E rq sched stage s = (Inr (Inr only_post), s)) \<and>
   (served_path (rq_path rq) \<longrightarrow> rq_method rq = ''POST'' \<longrightarrow> fst (authenticate E rq s) = Inr None \<longrightarrow>
      (\<exists>us w. proxy_request E rq sched stage s = (Inr (Inr unauthorized), s\<lparr>users_map := us, world := w\<rparr>) \<and>
         same_users (users_map s) us))"
proof -
  have "s = s\<lparr>users_map := users_map s, world := world s\<rparr>" by simp
  then have "\<exists>us w. snd (authenticate E rq s) = s\<lparr>users_map := us, world := w\<rparr> \<and> same_users (users_map s) us"
    using authenticate_state [of E rq s] users_get_same_users [of "env_auth E"] same_users_preorder(1) by metis
  then show ?thesis
    by (cases "authenticate E rq s") (auto simp: proxy_request_def)
qed

theorem unauthenticated_requests_get_nothing_witness:
  "proxy_request demo_proxy (demo_http\<lparr>rq_path := ''/rest''\<rparr>) (enumerate 0) NotBegun (demo_start []) =
     (Inr (Inr not_found), demo_start []) \<and>
   proxy_request demo_proxy (demo_http\<lparr>rq_method := ''GET''\<rparr>) (enumerate 0) NotBegun (demo_start []) =
     (Inr (Inr only_post), demo_start []) \<and>
   fst (proxy_request demo_proxy (demo_http\<lparr>rq_authorization := None\<rparr>) (enumerate 0) NotBegun (demo_start [])) =
     Inr (Inr unauthorized)"
proof -
  let ?rq = "demo_http\<lparr>rq_authorization := None\<rparr>"
  have "fst (authenticate demo_proxy ?rq (demo_start [])) = Inr None" by (simp add: authenticate_def)
  then show ?thesis
    using unauthenticated_requests_get_nothing [of "demo_http\<lparr>rq_path := ''/rest''\<rparr>" demo_proxy]
      unauthenticated_requests_get_nothing [of "demo_http\<lparr>rq_method := ''GET''\<rparr>" demo_proxy]
      unauthenticated_requests_get_nothing [of ?rq demo_proxy "enumerate 0" NotBegun "demo_start []"]
    by (auto simp: demo_http_def served_path_def starts_with_def)
qed

end
