(* ===== verification/Std_Text.thy ===== *)
theory Std_Text
  imports Network File_World
begin

text \<open>
  The part of the Rust standard library that only start-up uses: \<open>str::lines\<close> and
  \<open>str::trim\<close> on UTF-8 text, the text form of an \<open>IpAddr\<close>, \<open>usize::saturating_mul\<close> and
  \<open>Duration::from_secs\<close>.
\<close>

section \<open>Lines and white space\<close>

text \<open>A line ends at a line feed, which takes one carriage return before it along.\<close>

definition strip_cr :: "string \<Rightarrow> string" where
  "strip_cr l = (if ends_with [CHR 0x0D] l then butlast l else l)"

function str_lines :: "string \<Rightarrow> string list" where
  "str_lines s =
     (case split_once (CHR 0x0A) s of
        None \<Rightarrow> if s = [] then [] else [s]
      | Some (l, r) \<Rightarrow> strip_cr l # str_lines r)"
  by pat_completeness auto
termination by (relation "measure length") (auto simp: std_simps)

declare str_lines.simps [simp del]

text \<open>The UTF-8 encodings of the characters with the Unicode property \<open>White_Space\<close>.\<close>

definition white_space :: "string list" where
  "white_space =
     [[CHR 0x09], [CHR 0x0A], [CHR 0x0B], [CHR 0x0C], [CHR 0x0D], [CHR 0x20],
      [CHR 0xC2, CHR 0x85], [CHR 0xC2, CHR 0xA0], [CHR 0xE1, CHR 0x9A, CHR 0x80]] @
     map (\<lambda>c. [CHR 0xE2, CHR 0x80, c])
       [CHR 0x80, CHR 0x81, CHR 0x82, CHR 0x83, CHR 0x84, CHR 0x85, CHR 0x86, CHR 0x87, CHR 0x88,
        CHR 0x89, CHR 0x8A, CHR 0xA8, CHR 0xA9, CHR 0xAF] @
     [[CHR 0xE2, CHR 0x81, CHR 0x9F], [CHR 0xE3, CHR 0x80, CHR 0x80]]"

fun strip_any :: "string list \<Rightarrow> string \<Rightarrow> string option" where
  "strip_any [] s = None"
| "strip_any (p # ps) s = (case strip_prefix p s of Some r \<Rightarrow> Some r | None \<Rightarrow> strip_any ps s)"

lemma strip_any_Some: "strip_any ps s = Some r \<Longrightarrow> \<exists>p\<in>set ps. s = p @ r"
  by (induction ps) (auto simp: std_simps split: option.splits)

text \<open>Every pattern stripped off the front, as long as one is there.\<close>

function trim_with :: "string list \<Rightarrow> string \<Rightarrow> string" where
  "trim_with ps s =
     (case strip_any ps s of
        None \<Rightarrow> s
      | Some r \<Rightarrow> if r = s then s else trim_with ps r)"
  by pat_completeness auto
termination
  by (relation "measure (\<lambda>(ps, s). length s)") (auto dest!: strip_any_Some)

declare trim_with.simps [simp del]

definition trim_start :: "string \<Rightarrow> string" where
  "trim_start s = trim_with white_space s"

definition trim_end :: "string \<Rightarrow> string" where
  "trim_end s = rev (trim_with (map rev white_space) (rev s))"

definition trim :: "string \<Rightarrow> string" where
  "trim s = trim_end (trim_start s)"

section \<open>Addresses\<close>

datatype ip_addr = V4 u8 u8 u8 u8 | V6 "u16 list"

definition hex_digit :: "nat \<Rightarrow> char" where
  "hex_digit n = char_of (if n < 10 then 48 + n else 87 + n)"

text \<open>\<open>{:x}\<close> of an unsigned integer.\<close>

fun show_hex :: "nat \<Rightarrow> string" where
  "show_hex n = (if n < 16 then [hex_digit n] else show_hex (n div 16) @ [hex_digit (n mod 16)])"

declare show_hex.simps [simp del]
declare show_nat.simps [simp del]

definition show_v4 :: "u8 \<Rightarrow> u8 \<Rightarrow> u8 \<Rightarrow> u8 \<Rightarrow> string" where
  "show_v4 a b c d = show_nat (unat a) @ ''.'' @ show_nat (unat b) @ ''.'' @ show_nat (unat c) @ ''.'' @ show_nat (unat d)"

text \<open>The first longest run of zero segments: its start and its length.\<close>

fun zero_span :: "nat \<Rightarrow> nat \<times> nat \<Rightarrow> nat \<times> nat \<Rightarrow> u16 list \<Rightarrow> nat \<times> nat" where
  "zero_span i current longest [] = longest"
| "zero_span i (start, n) longest (segment # rest) =
     (if segment = 0 then
        let current = (if n = 0 then i else start, Suc n) in
        zero_span (Suc i) current (if snd longest < snd current then current else longest) rest
      else zero_span (Suc i) (0, 0) longest rest)"

fun colon_separated :: "u16 list \<Rightarrow> string" where
  "colon_separated [] = []"
| "colon_separated [x] = show_hex (unat x)"
| "colon_separated (x # xs) = show_hex (unat x) @ '':'' @ colon_separated xs"

definition compressed :: "u16 list \<Rightarrow> string" where
  "compressed segments =
     (case zero_span 0 (0, 0) (0, 0) segments of
        (start, n) \<Rightarrow>
          if 1 < n then colon_separated (take start segments) @ ''::'' @ colon_separated (drop (start + n) segments)
          else colon_separated segments)"

text \<open>An address that embeds an IPv4 one ends in it, in dotted form.\<close>

definition show_v6 :: "u16 list \<Rightarrow> string" where
  "show_v6 segments =
     (case strip_prefix [0, 0, 0, 0, 0, 0xFFFF] segments of
        Some [ab, cd] \<Rightarrow>
          ''::ffff:'' @ show_v4 (ucast (drop_bit 8 ab)) (ucast ab) (ucast (drop_bit 8 cd)) (ucast cd)
      | _ \<Rightarrow> compressed segments)"

fun show_ip :: "ip_addr \<Rightarrow> string" where
  "show_ip (V4 a b c d) = show_v4 a b c d"
| "show_ip (V6 segments) = show_v6 segments"

section \<open>Numbers\<close>

definition saturating_mul :: "usize \<Rightarrow> usize \<Rightarrow> usize" where
  "saturating_mul a b = (if unat a * unat b < 2 ^ 64 then a * b else - 1)"

text \<open>Instants and durations are counted in nanoseconds.\<close>

definition from_secs :: "u64 \<Rightarrow> time" where
  "from_secs n = 1000000000 * unat n"

section \<open>Library lemmas\<close>

lemma saturating_mul_min: "unat (saturating_mul a b) = min (unat a * unat b) (2 ^ 64 - 1)"
  by (auto simp: saturating_mul_def unat_word_ariths min_def unsigned_minus_1_eq_mask mask_eq_exp_minus_1)

text \<open>Text of visible ASCII characters is left alone by \<open>trim\<close>.\<close>

definition graphic :: "string \<Rightarrow> bool" where
  "graphic s \<longleftrightarrow> (\<forall>c\<in>set s. 0x21 \<le> (of_char c :: nat) \<and> (of_char c :: nat) \<le> 0x7E)"

lemma white_space_not_graphic: "p \<in> set white_space \<Longrightarrow> p \<noteq> [] \<and> \<not> graphic [hd p] \<and> \<not> graphic [last p]"
proof -
  have "list_all (\<lambda>p. p \<noteq> [] \<and> \<not> graphic [hd p] \<and> \<not> graphic [last p]) white_space" by code_simp
  then show "p \<in> set white_space \<Longrightarrow> ?thesis" by (simp add: list_all_iff)
qed

lemma trim_with_graphic:
  assumes "graphic s" and "\<And>p. p \<in> set ps \<Longrightarrow> p \<noteq> [] \<and> \<not> graphic [hd p]"
  shows "trim_with ps s = s"
proof -
  have "strip_any ps s = None"
  proof (cases "strip_any ps s")
    case (Some r)
    then obtain p where p: "p \<in> set ps" "s = p @ r" using strip_any_Some by blast
    then have "graphic [hd p]" using assms(1,2) by (cases p) (auto simp: graphic_def)
    then show ?thesis using assms(2) p(1) by blast
  qed
  then show ?thesis by (simp add: trim_with.simps)
qed

lemma trim_graphic [simp]:
  assumes "graphic s"
  shows "trim s = s"
proof -
  have "graphic (rev s)" using assms by (simp add: graphic_def)
  then have "trim_end s = s"
    unfolding trim_end_def using white_space_not_graphic by (subst trim_with_graphic) (auto simp: hd_rev)
  moreover have "trim_start s = s"
    unfolding trim_start_def using assms white_space_not_graphic by (simp add: trim_with_graphic)
  ultimately show ?thesis by (simp add: trim_def)
qed

lemma str_lines_unlines:
  assumes "\<And>l. l \<in> set ls \<Longrightarrow> CHR 0x0A \<notin> set l \<and> \<not> ends_with [CHR 0x0D] l"
  shows "str_lines (concat (map (\<lambda>l. l @ [CHR 0x0A]) ls)) = ls"
  using assms
proof (induction ls)
  case Nil
  then show ?case by (simp add: str_lines.simps)
next
  case (Cons l ls)
  have "split_once (CHR 0x0A) (l @ CHR 0x0A # concat (map (\<lambda>l. l @ [CHR 0x0A]) ls)) =
      Some (l, concat (map (\<lambda>l. l @ [CHR 0x0A]) ls))"
    using Cons.prems by (simp add: std_simps)
  then show ?case using Cons by (subst str_lines.simps) (simp add: strip_cr_def)
qed

lemma digits_show_nat: "c \<in> set (show_nat n) \<Longrightarrow> c \<in> set ''0123456789''"
proof (induction n rule: show_nat.induct)
  case (1 n)
  have "list_all (\<lambda>k. char_of (48 + k) \<in> set ''0123456789'') [0..<10]" by code_simp
  then have digit: "char_of (48 + k) \<in> set ''0123456789''" if "k < 10" for k :: nat
    using that unfolding list_all_iff set_upt by (metis atLeastLessThan_iff le0)
  show ?case
  proof (cases "n < 10")
    case True
    then show ?thesis using "1.prems" digit [of n] by (simp add: show_nat.simps [of n])
  next
    case False
    then have "c \<in> set (show_nat (n div 10)) \<or> c = char_of (48 + n mod 10)"
      using "1.prems" by (simp add: show_nat.simps [of n] disj_commute)
    then show ?thesis using "1.IH" [OF False] digit [of "n mod 10"] by (elim disjE) simp_all
  qed
qed

lemma digits_show_hex: "c \<in> set (show_hex n) \<Longrightarrow> c \<in> set ''0123456789abcdef''"
proof (induction n rule: show_hex.induct)
  case (1 n)
  have "list_all (\<lambda>k. hex_digit k \<in> set ''0123456789abcdef'') [0..<16]" by code_simp
  then have digit: "hex_digit k \<in> set ''0123456789abcdef''" if "k < 16" for k
    using that unfolding list_all_iff set_upt by (metis atLeastLessThan_iff le0)
  show ?case
  proof (cases "n < 16")
    case True
    then show ?thesis using "1.prems" digit [of n] by (simp add: show_hex.simps [of n])
  next
    case False
    then have "c \<in> set (show_hex (n div 16)) \<or> c = hex_digit (n mod 16)"
      using "1.prems" by (simp add: show_hex.simps [of n] disj_commute)
    then show ?thesis using "1.IH" [OF False] digit [of "n mod 16"] by (elim disjE) simp_all
  qed
qed

lemma show_plain [simp]:
  "CHR '':'' \<notin> set (show_hex n)" "CHR ''['' \<notin> set (show_hex n)"
  "CHR '':'' \<notin> set (show_nat n)" "CHR ''['' \<notin> set (show_nat n)"
  using digits_show_hex [of "CHR '':''" n] digits_show_hex [of "CHR ''[''" n]
    digits_show_nat [of "CHR '':''" n] digits_show_nat [of "CHR ''[''" n] by auto

lemma count_colon_separated: "count_list (colon_separated xs) (CHR '':'') = length xs - 1"
  by (induction xs rule: colon_separated.induct) (simp_all add: count_notin)

lemma colon_separated_plain [simp]: "CHR ''['' \<notin> set (colon_separated xs)"
  by (induction xs rule: colon_separated.induct) simp_all

lemma show_v4_plain [simp]: "CHR '':'' \<notin> set (show_v4 a b c d)" "CHR ''['' \<notin> set (show_v4 a b c d)"
  by (simp_all add: show_v4_def)

lemma compressed_colons:
  assumes "length segments = 8"
  shows "2 \<le> count_list (compressed segments) (CHR '':'')" and "CHR ''['' \<notin> set (compressed segments)"
  using assms by (auto simp: compressed_def count_colon_separated split: prod.splits)

lemma show_v6_colons:
  assumes "length segments = 8"
  shows "2 \<le> count_list (show_v6 segments) (CHR '':'')" and "CHR ''['' \<notin> set (show_v6 segments)"
  using compressed_colons [OF assms]
  by (auto simp: show_v6_def split: option.splits list.splits)

end
