(* ===== verification/Create_State.thy ===== *)
theory Create_State
  imports Proxy_Request Std_Text
begin

text \<open>
  Start-up: \<open>create_state\<close> of \<open>src/create_state.rs\<close>, from the configuration to the state the
  proxy starts in. The configuration is the struct that \<open>configure_me\<close> generates from
  \<open>config_spec.toml\<close>, already read; an option with no default is an \<open>option\<close>. The URI parser
  and \<open>SocketAddr::from_systemd_name\<close> are parameters. Of the environment \<open>E\<close> that is passed
  in, the libraries are kept and what the configuration decides is set.
\<close>

section \<open>Configuration\<close>

datatype log_level = Critical | Error | Warning | Info | Debug | Trace

record config =
  cfg_verbose :: u32
  cfg_bitcoind_user :: "string option"
  cfg_bitcoind_password :: "string option"
  cfg_cookie_file :: "path option"
  cfg_bitcoind_address :: ip_addr
  cfg_bitcoind_port :: u16
  cfg_tor_proxy :: "string option"
  cfg_tor_only :: bool
  cfg_i2p_proxy :: "string option"
  cfg_bind_address :: "ip_addr option"
  cfg_bind_port :: "u16 option"
  cfg_bind_systemd_socket_name :: "string option"
  cfg_user :: "(string, input_user) fmap"
  cfg_passthrough_rpcauth :: "path option"
  cfg_passthrough_rpccookie :: "path option"
  cfg_default_fetch_blocks :: bool
  cfg_peer_timeout :: u64
  cfg_max_peer_age :: u64
  cfg_max_peer_concurrency :: "usize option"
  cfg_block_cache_size_mib :: usize

record start_lib =
  parse_uri :: "string \<Rightarrow> string + string"
  from_systemd_name :: "string \<Rightarrow> string + string"

datatype bind_addr = BindIp ip_addr u16 | BindSystemd string

datatype start_error =
    StartAuth anyhow_error
  | StartUri string
  | StartSystemd string
  | BindConflict
  | StartRead path io_error
  | StartHex string

record 'w started =
  st_env :: "'w env"
  st_state :: "'w pstate"
  st_log_level :: log_level
  st_peer_timeout :: time
  st_max_peer_concurrency :: "usize option"

section \<open>Operations\<close>

definition log_level_of :: "u32 \<Rightarrow> log_level" where
  "log_level_of verbose =
     (if verbose = 0 then Critical else if verbose = 1 then Error else if verbose = 2 then Warning
      else if verbose = 3 then Info else if verbose = 4 then Debug else Trace)"

definition bitcoin_uri :: "ip_addr \<Rightarrow> u16 \<Rightarrow> string" where
  "bitcoin_uri addr port = ''http://'' @ show_ip addr @ '':'' @ show_nat (unat port) @ ''/''"

definition tor_of :: "config \<Rightarrow> tor_state option" where
  "tor_of cfg = map_option (\<lambda>proxy. \<lparr>tor_proxy = proxy, tor_only = cfg_tor_only cfg\<rparr>) (cfg_tor_proxy cfg)"

definition default_bind_address :: ip_addr where
  "default_bind_address = V4 127 0 0 1"

definition default_bind_port :: u16 where
  "default_bind_port = 8331"

definition bind_addr_of :: "start_lib \<Rightarrow> config \<Rightarrow> start_error + bind_addr" where
  "bind_addr_of S cfg =
     (case (cfg_bind_address cfg, cfg_bind_port cfg, cfg_bind_systemd_socket_name cfg) of
        (Some addr, Some port, None) \<Rightarrow> Inr (BindIp addr port)
      | (None, Some port, None) \<Rightarrow> Inr (BindIp default_bind_address port)
      | (Some addr, None, None) \<Rightarrow> Inr (BindIp addr default_bind_port)
      | (None, None, None) \<Rightarrow> Inr (BindIp default_bind_address default_bind_port)
      | (None, None, Some socket_name) \<Rightarrow> map_sum StartSystemd BindSystemd (from_systemd_name S socket_name)
      | _ \<Rightarrow> Inl BindConflict)"

subsection \<open>Users passed through from bitcoind\<close>

definition passthrough_user :: "password \<Rightarrow> input_user" where
  "passthrough_user pw = \<lparr>in_password = pw, in_allowed_calls = None, in_fetch_blocks = None,
     in_override_wallet = None\<rparr>"

text \<open>A line \<open>rpcauth=name:salt$hash\<close> of bitcoind's configuration; every other line is skipped.\<close>

definition rpcauth_line :: "string \<Rightarrow> (string \<times> string \<times> string) option" where
  "rpcauth_line line =
     Option.bind (strip_prefix ''rpcauth='' (trim line)) (\<lambda>tok.
     Option.bind (split_once CHR '':'' (trim tok)) (\<lambda>(uname, pass).
     map_option (\<lambda>(salt, hash). (uname, salt, hash)) (split_once CHR ''$'' pass)))"

fun insert_rpcauth :: "text_lib \<Rightarrow> string list \<Rightarrow> (string, input_user) fmap \<Rightarrow>
    start_error + (string, input_user) fmap" where
  "insert_rpcauth T [] us = Inr us"
| "insert_rpcauth T (line # lines) us =
     (case rpcauth_line line of
        None \<Rightarrow> insert_rpcauth T lines us
      | Some (uname, salt, hash) \<Rightarrow>
          (case hex_decode T hash of
             None \<Rightarrow> Inl (StartHex hash)
           | Some bs \<Rightarrow> insert_rpcauth T lines (fmupd uname (passthrough_user (Hash salt bs)) us)))"

fun insert_rpccookie :: "path \<Rightarrow> string list \<Rightarrow> (string, input_user) fmap \<Rightarrow> (string, input_user) fmap" where
  "insert_rpccookie conf [] us = us"
| "insert_rpccookie conf (line # lines) us =
     (case split_once CHR '':'' (trim line) of
        None \<Rightarrow> insert_rpccookie conf lines us
      | Some (uname, _) \<Rightarrow>
          insert_rpccookie conf lines (fmupd uname (passthrough_user (CookieFile conf None)) us))"

definition read_lines :: "'w fs \<Rightarrow> path \<Rightarrow> 'w \<Rightarrow> (start_error + string list) \<times> 'w" where
  "read_lines fs conf w =
     (case fs_read_to_string fs conf w of
        (Inl e, w1) \<Rightarrow> (Inl (StartRead conf e), w1)
      | (Inr text, w1) \<Rightarrow> (Inr (str_lines text), w1))"

definition passthrough_rpcauth :: "'w fs \<Rightarrow> text_lib \<Rightarrow> config \<Rightarrow> (string, input_user) fmap \<Rightarrow> 'w \<Rightarrow>
    (start_error + (string, input_user) fmap) \<times> 'w" where
  "passthrough_rpcauth fs T cfg us =
     (case cfg_passthrough_rpcauth cfg of
        None \<Rightarrow> return_ok us
      | Some conf \<Rightarrow> bind_res (read_lines fs conf) (\<lambda>lines w. (insert_rpcauth T lines us, w)))"

definition passthrough_rpccookie :: "'w fs \<Rightarrow> config \<Rightarrow> (string, input_user) fmap \<Rightarrow> 'w \<Rightarrow>
    (start_error + (string, input_user) fmap) \<times> 'w" where
  "passthrough_rpccookie fs cfg us =
     (case cfg_passthrough_rpccookie cfg of
        None \<Rightarrow> return_ok us
      | Some conf \<Rightarrow> bind_res (read_lines fs conf) (\<lambda>lines. return_ok (insert_rpccookie conf lines us)))"

definition configured_users :: "'w fs \<Rightarrow> text_lib \<Rightarrow> config \<Rightarrow> 'w \<Rightarrow> (start_error + users) \<times> 'w" where
  "configured_users fs T cfg =
     bind_res (passthrough_rpcauth fs T cfg (cfg_user cfg)) (\<lambda>us.
     bind_res (passthrough_rpccookie fs cfg us) (\<lambda>us.
     return_ok (map_default us (cfg_default_fetch_blocks cfg))))"

subsection \<open>The state\<close>

definition cache_bytes :: "config \<Rightarrow> usize" where
  "cache_bytes cfg = saturating_mul (cfg_block_cache_size_mib cfg) (1024 * 1024)"

definition create_state :: "start_lib \<Rightarrow> 'w env \<Rightarrow> config \<Rightarrow> 'w \<Rightarrow>
    (start_error + 'w started \<times> bind_addr) \<times> 'w" where
  "create_state S E cfg w =
     (case from_config (lib_codecs (env_lib E)) (cfg_bitcoind_user cfg) (cfg_bitcoind_password cfg)
             (cfg_cookie_file cfg) of
        Inl e \<Rightarrow> (Inl (StartAuth e), w)
      | Inr a \<Rightarrow>
          (case parse_uri S (bitcoin_uri (cfg_bitcoind_address cfg) (cfg_bitcoind_port cfg)) of
             Inl e \<Rightarrow> (Inl (StartUri e), w)
           | Inr uri \<Rightarrow>
               (case bind_addr_of S cfg of
                  Inl e \<Rightarrow> (Inl e, w)
                | Inr bind \<Rightarrow>
                    (case configured_users (net_fs (env_net E)) (env_text E) cfg w of
                       (Inl e, w1) \<Rightarrow> (Inl e, w1)
                     | (Inr us, w1) \<Rightarrow>
                         (Inr (\<lparr>st_env = E\<lparr>env_uri := uri, env_tor := tor_of cfg, env_i2p_proxy := cfg_i2p_proxy cfg,
                                  env_max_peer_age := from_secs (cfg_max_peer_age cfg)\<rparr>,
                                st_state = fresh_state a us (cache_bytes cfg) w1,
                                st_log_level = log_level_of (cfg_verbose cfg),
                                st_peer_timeout = from_secs (cfg_peer_timeout cfg),
                                st_max_peer_concurrency = cfg_max_peer_concurrency cfg\<rparr>, bind), w1)))))"

section \<open>Specification\<close>

text \<open>
  The lines of a file that may not be configured; the entry of a name in bitcoind's
  \<open>rpcauth\<close> lines, the last one where it has several; the names in a cookie file; and what a
  passed-through user may do: everything, fetching blocks if that is the default.
\<close>

definition lines_at :: "'w fs \<Rightarrow> path option \<Rightarrow> 'w \<Rightarrow> (start_error + string list) \<times> 'w" where
  "lines_at fs conf = (case conf of None \<Rightarrow> return_ok [] | Some p \<Rightarrow> read_lines fs p)"

definition rpcauth_entry :: "string list \<Rightarrow> string \<Rightarrow> (string \<times> string) option" where
  "rpcauth_entry lines = map_of (rev (List.map_filter rpcauth_line lines))"

definition cookie_names :: "string list \<Rightarrow> string set" where
  "cookie_names lines = {uname. \<exists>line\<in>set lines. \<exists>rest. split_once CHR '':'' (trim line) = Some (uname, rest)}"

definition unrestricted :: "bool \<Rightarrow> password \<Rightarrow> user" where
  "unrestricted fetch pw = \<lparr>user_password = pw, allowed_calls = None, fetch_blocks = fetch, override_wallet = None\<rparr>"

text \<open>And what a configured user may do: what is written for it, at the path of its wallet.\<close>

definition entry_user :: "bool \<Rightarrow> input_user \<Rightarrow> user" where
  "entry_user fetch i = \<lparr>user_password = in_password i, allowed_calls = in_allowed_calls i,
     fetch_blocks = (in_fetch_blocks i = Some True \<or> in_fetch_blocks i = None \<and> fetch),
     override_wallet = (case in_override_wallet i of None \<Rightarrow> None | Some wallet \<Rightarrow> Some (''/wallet/'' @ wallet))\<rparr>"

definition expected_user :: "text_lib \<Rightarrow> config \<Rightarrow> string list \<Rightarrow> string list \<Rightarrow> string \<Rightarrow> user option" where
  "expected_user T cfg auth_lines cookie_lines name =
     (if name \<in> cookie_names cookie_lines then
        map_option (\<lambda>conf. unrestricted (cfg_default_fetch_blocks cfg) (CookieFile conf None))
          (cfg_passthrough_rpccookie cfg)
      else case rpcauth_entry auth_lines name of
        Some (salt, hash) \<Rightarrow>
          map_option (\<lambda>bs. unrestricted (cfg_default_fetch_blocks cfg) (Hash salt bs)) (hex_decode T hash)
      | None \<Rightarrow> map_option (entry_user (cfg_default_fetch_blocks cfg)) (fmlookup (cfg_user cfg) name))"

section \<open>Library lemmas\<close>

lemma rpcauth_entry_Nil [simp]: "rpcauth_entry [] name = None"
  by (simp add: rpcauth_entry_def List.map_filter_simps)

lemma rpcauth_entry_Cons:
  "rpcauth_entry (line # lines) name =
     (case rpcauth_entry lines name of
        Some x \<Rightarrow> Some x
      | None \<Rightarrow> (case rpcauth_line line of Some (uname, x) \<Rightarrow> if uname = name then Some x else None | None \<Rightarrow> None))"
  by (auto simp: rpcauth_entry_def List.map_filter_simps map_add_def split: option.splits)

lemma insert_rpcauth_lookup:
  "insert_rpcauth T lines us = Inr us1 \<Longrightarrow>
     fmlookup us1 name =
       (case rpcauth_entry lines name of
          Some (salt, hash) \<Rightarrow> map_option (\<lambda>bs. passthrough_user (Hash salt bs)) (hex_decode T hash)
        | None \<Rightarrow> fmlookup us name)"
proof (induction T lines us rule: insert_rpcauth.induct)
  case (2 T line lines us)
  then show ?case
    by (auto simp: rpcauth_entry_Cons split: option.splits prod.splits if_splits)
qed simp

text \<open>Inserting fails at the first line whose hash is not hexadecimal.\<close>

lemma insert_rpcauth_error:
  "(\<exists>us1. insert_rpcauth T lines us = Inr us1) \<longleftrightarrow>
     (\<forall>line\<in>set lines. \<forall>uname salt hash. rpcauth_line line = Some (uname, salt, hash) \<longrightarrow> hex_decode T hash \<noteq> None)"
  by (induction T lines us rule: insert_rpcauth.induct) (auto split: option.splits)

lemma insert_rpccookie_lookup:
  "fmlookup (insert_rpccookie conf lines us) name =
     (if name \<in> cookie_names lines then Some (passthrough_user (CookieFile conf None)) else fmlookup us name)"
  by (induction conf lines us rule: insert_rpccookie.induct)
    (auto simp: cookie_names_def split: option.splits)

lemma user_map_default_entry: "user_map_default fetch = entry_user fetch"
  by (rule ext) (simp add: user_map_default_def entry_user_def split: option.splits)

lemma entry_user_passthrough: "entry_user fetch (passthrough_user pw) = unrestricted fetch pw"
  by (simp add: entry_user_def passthrough_user_def unrestricted_def)

lemma passthrough_rpcauth_lines:
  assumes "passthrough_rpcauth fs T cfg us w = (Inr us1, w1)"
  obtains lines where "lines_at fs (cfg_passthrough_rpcauth cfg) w = (Inr lines, w1)"
    and "insert_rpcauth T lines us = Inr us1"
  using assms
  by (cases "cfg_passthrough_rpcauth cfg")
    (auto simp: passthrough_rpcauth_def lines_at_def bind_res_Inr_iff return_ok_def)

lemma passthrough_rpccookie_lines:
  assumes "passthrough_rpccookie fs cfg us w = (Inr us1, w1)"
  obtains lines where "lines_at fs (cfg_passthrough_rpccookie cfg) w = (Inr lines, w1)"
    and "us1 = (case cfg_passthrough_rpccookie cfg of None \<Rightarrow> us | Some conf \<Rightarrow> insert_rpccookie conf lines us)"
  using assms
  by (cases "cfg_passthrough_rpccookie cfg")
    (auto simp: passthrough_rpccookie_def lines_at_def bind_res_Inr_iff return_ok_def)

lemma create_state_Inr:
  assumes "create_state S E cfg w = (Inr (st, b), w1)"
  obtains a us uri where
    "from_config (lib_codecs (env_lib E)) (cfg_bitcoind_user cfg) (cfg_bitcoind_password cfg) (cfg_cookie_file cfg) = Inr a"
    and "parse_uri S (bitcoin_uri (cfg_bitcoind_address cfg) (cfg_bitcoind_port cfg)) = Inr uri"
    and "bind_addr_of S cfg = Inr b"
    and "configured_users (net_fs (env_net E)) (env_text E) cfg w = (Inr us, w1)"
    and "st_state st = fresh_state a us (cache_bytes cfg) w1"
    and "env_tor (st_env st) = tor_of cfg" and "env_i2p_proxy (st_env st) = cfg_i2p_proxy cfg"
  using assms by (auto simp: create_state_def split: sum.splits prod.splits)

lemma configured_users_expected:
  assumes "configured_users fs T cfg w = (Inr us, w2)"
  obtains al cl w1 where "lines_at fs (cfg_passthrough_rpcauth cfg) w = (Inr al, w1)"
    and "lines_at fs (cfg_passthrough_rpccookie cfg) w1 = (Inr cl, w2)"
    and "\<And>name. fmlookup us name = expected_user T cfg al cl name"
proof -
  obtain us1 us2 w1 where a: "passthrough_rpcauth fs T cfg (cfg_user cfg) w = (Inr us1, w1)"
    and c: "passthrough_rpccookie fs cfg us1 w1 = (Inr us2, w2)"
    and us: "us = map_default us2 (cfg_default_fetch_blocks cfg)"
    using assms by (auto simp: configured_users_def bind_res_Inr_iff)
  obtain al where al: "lines_at fs (cfg_passthrough_rpcauth cfg) w = (Inr al, w1)"
    "insert_rpcauth T al (cfg_user cfg) = Inr us1"
    using a by (rule passthrough_rpcauth_lines)
  obtain cl where cl: "lines_at fs (cfg_passthrough_rpccookie cfg) w1 = (Inr cl, w2)"
    "us2 = (case cfg_passthrough_rpccookie cfg of None \<Rightarrow> us1 | Some conf \<Rightarrow> insert_rpccookie conf cl us1)"
    using c by (rule passthrough_rpccookie_lines)
  have none: "cfg_passthrough_rpccookie cfg = None \<Longrightarrow> cookie_names cl = {}"
    using cl(1) by (simp add: lines_at_def cookie_names_def)
  have "fmlookup us name = expected_user T cfg al cl name" for name
  proof (cases "cfg_passthrough_rpccookie cfg")
    case None
    then show ?thesis
      using none cl(2) us insert_rpcauth_lookup [OF al(2), of name]
      by (simp add: map_default_def expected_user_def option.map_comp comp_def entry_user_passthrough user_map_default_entry
          split: option.splits prod.splits)
  next
    case (Some conf)
    then show ?thesis
      using cl(2) us insert_rpcauth_lookup [OF al(2), of name]
      by (simp add: map_default_def expected_user_def option.map_comp comp_def entry_user_passthrough user_map_default_entry
          insert_rpccookie_lookup split: option.splits prod.splits)
  qed
  then show thesis using that al(1) cl(1) by blast
qed

text \<open>
  Who may use the proxy after start. Each name stands for: the user of bitcoind's cookie
  if the cookie file has that name; otherwise the last \<open>rpcauth\<close> line of that name in the
  given configuration of bitcoind; otherwise what is configured for it, with the wallet name
  turned into its path. The first two are unrestricted users, even where a configured one of
  the same name is not, and fetch blocks exactly if that is the default.
\<close>

lemma started_users:
  assumes "create_state S E cfg w = (Inr (st, b), w2)"
  obtains al cl w1 where "lines_at (net_fs (env_net E)) (cfg_passthrough_rpcauth cfg) w = (Inr al, w1)"
    and "lines_at (net_fs (env_net E)) (cfg_passthrough_rpccookie cfg) w1 = (Inr cl, w2)"
    and "fmlookup (users_map (st_state st)) = expected_user (env_text E) cfg al cl" and "world (st_state st) = w2"
proof -
  obtain a us where c: "configured_users (net_fs (env_net E)) (env_text E) cfg w = (Inr us, w2)"
    and st: "st_state st = fresh_state a us (cache_bytes cfg) w2"
    using assms by (rule create_state_Inr)
  from c show thesis
    by (rule configured_users_expected) (use st that in \<open>auto simp: fresh_state_def fun_eq_iff\<close>)
qed

text \<open>When each step of start-up succeeds.\<close>

lemma from_config_Inr_iff:
  "(\<exists>a. from_config cs user pw cookie = Inr a) \<longleftrightarrow>
     (\<exists>u p. user = Some u \<and> pw = Some p \<and> cookie = None \<and>
        parse_header cs (''Basic '' @ base64_encode cs (as_bytes (u @ '':'' @ p))) \<noteq> None) \<or>
     user = None \<and> pw = None \<and> cookie \<noteq> None"
  by (cases user; cases pw; cases cookie) (auto simp: from_config_def split: option.splits)

lemma bind_addr_of_Inr_iff:
  "(\<exists>b. bind_addr_of S cfg = Inr b) \<longleftrightarrow>
     (\<forall>name. cfg_bind_systemd_socket_name cfg = Some name \<longrightarrow>
        cfg_bind_address cfg = None \<and> cfg_bind_port cfg = None \<and> (\<exists>b. from_systemd_name S name = Inr b))"
proof -
  have "(\<exists>b. map_sum StartSystemd BindSystemd x = Inr b) \<longleftrightarrow> (\<exists>b. x = Inr b)" for x
    by (cases x) auto
  then show ?thesis
    by (cases "cfg_bind_address cfg"; cases "cfg_bind_port cfg"; cases "cfg_bind_systemd_socket_name cfg")
      (auto simp: bind_addr_of_def)
qed

lemma configured_users_Inr_iff:
  "(\<exists>us w2. configured_users fs T cfg w = (Inr us, w2)) \<longleftrightarrow>
     (\<exists>al w1 cl w2. lines_at fs (cfg_passthrough_rpcauth cfg) w = (Inr al, w1) \<and>
        (\<forall>line\<in>set al. \<forall>uname salt hash. rpcauth_line line = Some (uname, salt, hash) \<longrightarrow> hex_decode T hash \<noteq> None) \<and>
        lines_at fs (cfg_passthrough_rpccookie cfg) w1 = (Inr cl, w2))"
proof -
  have a: "passthrough_rpcauth fs T cfg us w = (Inr us1, w1) \<longleftrightarrow>
      (\<exists>al. lines_at fs (cfg_passthrough_rpcauth cfg) w = (Inr al, w1) \<and> insert_rpcauth T al us = Inr us1)"
    for us us1 w1
    by (cases "cfg_passthrough_rpcauth cfg") (auto simp: passthrough_rpcauth_def lines_at_def bind_res_Inr_iff)
  have c: "(\<exists>us2 w2. passthrough_rpccookie fs cfg us w1 = (Inr us2, w2)) \<longleftrightarrow>
      (\<exists>cl w2. lines_at fs (cfg_passthrough_rpccookie cfg) w1 = (Inr cl, w2))" for us w1
    by (cases "cfg_passthrough_rpccookie cfg") (auto simp: passthrough_rpccookie_def lines_at_def bind_res_Inr_iff)
  show ?thesis
    unfolding configured_users_def bind_res_Inr_iff insert_rpcauth_error [where us = "cfg_user cfg", symmetric]
    using a c by (auto simp: return_ok_def) blast+
qed

text \<open>A line as bitcoind's \<open>rpcauth\<close> script prints it, and a file of such lines.\<close>

definition show_rpcauth :: "string \<times> string \<times> string \<Rightarrow> string" where
  "show_rpcauth e = (case e of (uname, salt, hash) \<Rightarrow> ''rpcauth='' @ uname @ '':'' @ salt @ ''$'' @ hash)"

definition rpcauth_ok :: "string \<times> string \<times> string \<Rightarrow> bool" where
  "rpcauth_ok e \<longleftrightarrow> (case e of (uname, salt, hash) \<Rightarrow> graphic (uname @ salt @ hash) \<and>
     CHR '':'' \<notin> set uname \<and> CHR ''$'' \<notin> set salt)"

lemma rpcauth_line_show:
  assumes "rpcauth_ok e"
  shows "rpcauth_line (show_rpcauth e) = Some e" and "graphic (show_rpcauth e)"
proof -
  obtain uname salt hash where e: "e = (uname, salt, hash)" by (cases e)
  have "graphic ''rpcauth=:$''" by code_simp
  then show g: "graphic (show_rpcauth e)" using assms by (auto simp: e show_rpcauth_def rpcauth_ok_def graphic_def)
  let ?tok = "uname @ '':'' @ salt @ ''$'' @ hash"
  have "graphic ?tok" using g by (simp add: e show_rpcauth_def graphic_def)
  moreover have "strip_prefix ''rpcauth='' (show_rpcauth e) = Some ?tok" by (simp add: std_simps e show_rpcauth_def)
  moreover have "split_once CHR '':'' ?tok = Some (uname, salt @ ''$'' @ hash)"
    "split_once CHR ''$'' (salt @ ''$'' @ hash) = Some (salt, hash)"
    using assms by (simp_all add: std_simps e rpcauth_ok_def)
  ultimately show "rpcauth_line (show_rpcauth e) = Some e"
    using g by (simp add: rpcauth_line_def e)
qed

lemma graphic_one_line: "graphic l \<Longrightarrow> CHR 0x0A \<notin> set l \<and> \<not> ends_with [CHR 0x0D] l"
  by (auto simp: graphic_def std_simps)

lemma insert_rpcauth_show:
  assumes "\<forall>e\<in>set es. rpcauth_ok e \<and> hex_decode T (snd (snd e)) \<noteq> None"
  shows "\<exists>us1. insert_rpcauth T (map show_rpcauth es) us = Inr us1"
    and "rpcauth_entry (map show_rpcauth es) name = map_of (rev es) name"
proof -
  show "\<exists>us1. insert_rpcauth T (map show_rpcauth es) us = Inr us1"
    using assms rpcauth_line_show(1) unfolding insert_rpcauth_error by fastforce
  have "List.map_filter rpcauth_line (map show_rpcauth es) = es"
    using assms rpcauth_line_show(1) by (induction es) (simp_all add: List.map_filter_simps)
  then show "rpcauth_entry (map show_rpcauth es) name = map_of (rev es) name"
    by (simp add: rpcauth_entry_def)
qed

text \<open>
  What modelling start-up showed. The URI of an IPv6 bitcoind is written without brackets,
  so its authority has at least three colons; and \<open>tor_only\<close> does nothing without a
  \<open>tor_proxy\<close>: every peer but an I2P one is dialled directly.
\<close>

lemma ipv6_address_is_not_bracketed:
  assumes "length segments = 8"
  shows "\<exists>host. bitcoin_uri (V6 segments) port = ''http://'' @ host @ '':'' @ show_nat (unat port) @ ''/'' \<and>
    2 \<le> count_list host (CHR '':'') \<and> CHR ''['' \<notin> set host"
  using show_v6_colons [OF assms] by (auto simp: bitcoin_uri_def)

lemma tor_only_needs_tor_proxy:
  assumes "create_state S E cfg w = (Inr (st, b), w1)" and "cfg_tor_proxy cfg = None"
    and "\<not> ends_with ''.i2p'' (host_of addr)"
  shows "choose_route (env_tor (st_env st)) (env_i2p_proxy (st_env st)) addr = Inr (DialDirect addr)"
  using assms by (elim create_state_Inr) (simp add: choose_route_def tor_of_def Let_def)

section \<open>A start\<close>

text \<open>
  For witnesses: a configured user \<open>alice\<close> of one call, bitcoind's configuration with an
  \<open>rpcauth\<close> line for \<open>bob\<close>, and its cookie.
\<close>

definition demo_conf :: string where
  "demo_conf = show_rpcauth (''bob'', ''salt'', ''ab'') @ [CHR 0x0A]"

definition demo_fs :: "raw_message list fs" where
  "demo_fs = \<lparr>fs_metadata = (\<lambda>p w. (Inl ''none'', w)),
     fs_read_to_string = (\<lambda>p w. (if p = ''bitcoin.conf'' then Inr demo_conf
       else if p = ''.cookie'' then Inr ''__cookie__:secret'' else Inl ''none'', w))\<rparr>"

definition start_env :: "raw_message list env" where
  "start_env = (demo_env demo_answers)\<lparr>env_net := demo_node_net\<lparr>net_fs := demo_fs\<rparr>\<rparr>"

definition start_cfg :: config where
  "start_cfg = \<lparr>cfg_verbose = 3, cfg_bitcoind_user = None, cfg_bitcoind_password = None,
     cfg_cookie_file = Some ''.cookie'', cfg_bitcoind_address = V4 127 0 0 1, cfg_bitcoind_port = 8332,
     cfg_tor_proxy = None, cfg_tor_only = True, cfg_i2p_proxy = None, cfg_bind_address = None,
     cfg_bind_port = None, cfg_bind_systemd_socket_name = None,
     cfg_user = fmap_of_list [(''alice'', \<lparr>in_password = Cleartext ''public'', in_allowed_calls = Some {|''getblock''|},
       in_fetch_blocks = Some False, in_override_wallet = None\<rparr>)],
     cfg_passthrough_rpcauth = Some ''bitcoin.conf'', cfg_passthrough_rpccookie = Some ''.cookie'',
     cfg_default_fetch_blocks = True, cfg_peer_timeout = 30, cfg_max_peer_age = 300,
     cfg_max_peer_concurrency = None, cfg_block_cache_size_mib = 64\<rparr>"

definition start_libs :: start_lib where
  "start_libs = \<lparr>parse_uri = Inr, from_systemd_name = Inr\<rparr>"

lemma demo_lines:
  "str_lines demo_conf = [show_rpcauth (''bob'', ''salt'', ''ab'')]"
  "str_lines ''__cookie__:secret'' = [''__cookie__:secret'']"
  "rpcauth_line (show_rpcauth (''bob'', ''salt'', ''ab'')) = Some (''bob'', ''salt'', ''ab'')"
  "trim ''__cookie__:secret'' = ''__cookie__:secret''"
proof -
  show "str_lines ''__cookie__:secret'' = [''__cookie__:secret'']" by (simp add: str_lines.simps)
  have ok: "rpcauth_ok (''bob'', ''salt'', ''ab'')" "graphic ''__cookie__:secret''" by code_simp+
  then show "rpcauth_line (show_rpcauth (''bob'', ''salt'', ''ab'')) = Some (''bob'', ''salt'', ''ab'')"
    "trim ''__cookie__:secret'' = ''__cookie__:secret''" by (simp_all add: rpcauth_line_show)
  show "str_lines demo_conf = [show_rpcauth (''bob'', ''salt'', ''ab'')]"
    using str_lines_unlines [of "[show_rpcauth (''bob'', ''salt'', ''ab'')]"]
      graphic_one_line [OF rpcauth_line_show(2) [OF ok(1)]]
    by (simp add: demo_conf_def)
qed

lemma demo_lines_at:
  "lines_at demo_fs (cfg_passthrough_rpcauth start_cfg) w = (Inr [show_rpcauth (''bob'', ''salt'', ''ab'')], w)"
  "lines_at demo_fs (cfg_passthrough_rpccookie start_cfg) w = (Inr [''__cookie__:secret''], w)"
  by (simp_all add: lines_at_def start_cfg_def read_lines_def demo_fs_def demo_lines)

lemma demo_configured: "\<exists>us. configured_users demo_fs demo_text start_cfg w = (Inr us, w)"
proof -
  have "read_lines demo_fs ''bitcoin.conf'' w = (Inr [show_rpcauth (''bob'', ''salt'', ''ab'')], w)"
    "read_lines demo_fs ''.cookie'' w = (Inr [''__cookie__:secret''], w)"
    using demo_lines_at [of w] by (simp_all add: lines_at_def start_cfg_def)
  moreover have "cfg_passthrough_rpcauth start_cfg = Some ''bitcoin.conf''"
    "cfg_passthrough_rpccookie start_cfg = Some ''.cookie''" by (simp_all add: start_cfg_def)
  moreover have "\<exists>bs. hex_decode demo_text ''ab'' = Some bs" by (simp add: demo_text_def)
  ultimately show ?thesis
    by (auto simp: configured_users_def passthrough_rpcauth_def passthrough_rpccookie_def bind_res_def
        return_ok_def demo_lines)
qed

lemma demo_start_ok:
  "\<exists>st. create_state start_libs start_env start_cfg w = (Inr (st, BindIp (V4 127 0 0 1) 8331), w)"
proof -
  have "from_config cs (cfg_bitcoind_user start_cfg) (cfg_bitcoind_password start_cfg) (cfg_cookie_file start_cfg) =
      Inr (AuthCookieFile ''.cookie'' None)" for cs
    by (simp add: from_config_def start_cfg_def)
  moreover have "bind_addr_of start_libs start_cfg = Inr (BindIp (V4 127 0 0 1) 8331)"
    by (simp add: bind_addr_of_def start_cfg_def default_bind_address_def default_bind_port_def)
  moreover have "net_fs (env_net start_env) = demo_fs" "env_text start_env = demo_text" "parse_uri start_libs = Inr"
    by (simp_all add: start_env_def demo_env_def start_libs_def)
  ultimately show ?thesis
    using demo_configured [of w] by (auto simp: create_state_def)
qed

section \<open>Properties\<close>

text \<open>
  C32: when the proxy starts. Start-up succeeds exactly if the credentials for bitcoind are a
  user and a password that make a header, or a cookie file and nothing else; the URI parses;
  a systemd socket name comes with neither an address nor a port, and parses; and the
  passed-through files can be read, with a hexadecimal hash in every \<open>rpcauth\<close> line.
\<close>

theorem start_succeeds_iff:
  "(\<exists>st b w1. create_state S E cfg w = (Inr (st, b), w1)) \<longleftrightarrow>
     ((\<exists>u p. cfg_bitcoind_user cfg = Some u \<and> cfg_bitcoind_password cfg = Some p \<and> cfg_cookie_file cfg = None \<and>
         parse_header (lib_codecs (env_lib E))
           (''Basic '' @ base64_encode (lib_codecs (env_lib E)) (as_bytes (u @ '':'' @ p))) \<noteq> None) \<or>
      cfg_bitcoind_user cfg = None \<and> cfg_bitcoind_password cfg = None \<and> cfg_cookie_file cfg \<noteq> None) \<and>
     (\<exists>uri. parse_uri S (bitcoin_uri (cfg_bitcoind_address cfg) (cfg_bitcoind_port cfg)) = Inr uri) \<and>
     (\<forall>name. cfg_bind_systemd_socket_name cfg = Some name \<longrightarrow>
        cfg_bind_address cfg = None \<and> cfg_bind_port cfg = None \<and> (\<exists>b. from_systemd_name S name = Inr b)) \<and>
     (\<exists>al w1 cl w2. lines_at (net_fs (env_net E)) (cfg_passthrough_rpcauth cfg) w = (Inr al, w1) \<and>
        (\<forall>line\<in>set al. \<forall>uname salt hash. rpcauth_line line = Some (uname, salt, hash) \<longrightarrow>
           hex_decode (env_text E) hash \<noteq> None) \<and>
        lines_at (net_fs (env_net E)) (cfg_passthrough_rpccookie cfg) w1 = (Inr cl, w2))"
  unfolding from_config_Inr_iff [symmetric] bind_addr_of_Inr_iff [symmetric] configured_users_Inr_iff [symmetric]
  by (auto simp: create_state_def split: sum.splits prod.splits)

theorem start_succeeds_iff_witness:
  "(\<exists>st b w1. create_state start_libs start_env start_cfg [] = (Inr (st, b), w1)) \<and>
   \<not> (\<exists>st b w1. create_state start_libs start_env
        (start_cfg\<lparr>cfg_bind_port := Some 8331, cfg_bind_systemd_socket_name := Some ''proxy''\<rparr>) [] = (Inr (st, b), w1))"
proof -
  have "net_fs (env_net start_env) = demo_fs" "env_text start_env = demo_text"
    by (simp_all add: start_env_def demo_env_def)
  moreover have "cfg_bitcoind_user start_cfg = None" "cfg_bitcoind_password start_cfg = None"
    "cfg_cookie_file start_cfg \<noteq> None" "cfg_bind_systemd_socket_name start_cfg = None" "parse_uri start_libs = Inr"
    by (simp_all add: start_cfg_def start_libs_def)
  moreover have "hex_decode demo_text hash \<noteq> None" for hash by (simp add: demo_text_def)
  ultimately show ?thesis
    unfolding start_succeeds_iff by (simp add: demo_lines_at)
qed

text \<open>
  C34: \<open>rpcauth\<close> lines are read back. From a configuration of bitcoind made of the lines its
  \<open>rpcauth\<close> script prints, every user is inserted with the salt and the hash of the last line
  with its name, and the users the file does not name stay as they were.
\<close>

theorem rpcauth_lines_read_back:
  assumes "text_lib_ok T" and "\<forall>(uname, salt, h)\<in>set es. rpcauth_ok (uname, salt, hex_encode T h)"
  shows "\<exists>us1. insert_rpcauth T
      (str_lines (concat (map (\<lambda>(uname, salt, h). show_rpcauth (uname, salt, hex_encode T h) @ [CHR 0x0A]) es))) us = Inr us1 \<and>
    (\<forall>name. fmlookup us1 name =
       (case map_of (rev es) name of
          Some (salt, h) \<Rightarrow> Some (passthrough_user (Hash salt h))
        | None \<Rightarrow> fmlookup us name))"
proof -
  let ?f = "\<lambda>(uname, salt, h). (uname, salt, hex_encode T h)"
  have ok: "\<forall>e\<in>set (map ?f es). rpcauth_ok e \<and> hex_decode T (snd (snd e)) \<noteq> None"
    using assms by (auto simp: text_lib_ok_def)
  let ?ls = "map show_rpcauth (map ?f es)"
  have "concat (map (\<lambda>(uname, salt, h). show_rpcauth (uname, salt, hex_encode T h) @ [CHR 0x0A]) es) =
      concat (map (\<lambda>l. l @ [CHR 0x0A]) ?ls)"
    by (induction es) auto
  moreover have "str_lines (concat (map (\<lambda>l. l @ [CHR 0x0A]) ?ls)) = ?ls"
    using ok by (intro str_lines_unlines graphic_one_line) (auto intro: rpcauth_line_show(2))
  ultimately have lines: "str_lines (concat (map (\<lambda>(uname, salt, h).
      show_rpcauth (uname, salt, hex_encode T h) @ [CHR 0x0A]) es)) = ?ls" by simp
  obtain us1 where us1: "insert_rpcauth T ?ls us = Inr us1" using insert_rpcauth_show(1) [OF ok] by blast
  have "map_of (map ?f xs) name = map_option (\<lambda>(salt, h). (salt, hex_encode T h)) (map_of xs name)" for name xs
    by (induction xs) auto
  from this [of "rev es"] have "map_of (rev (map ?f es)) name = map_option (\<lambda>(salt, h). (salt, hex_encode T h)) (map_of (rev es) name)" for name
    by (simp add: rev_map)
  then have "fmlookup us1 name = (case map_of (rev es) name of
      Some (salt, h) \<Rightarrow> Some (passthrough_user (Hash salt h)) | None \<Rightarrow> fmlookup us name)" for name
    using insert_rpcauth_lookup [OF us1, of name] insert_rpcauth_show(2) [OF ok] assms(1)
    by (auto simp: text_lib_ok_def split: option.splits)
  then show ?thesis using us1 lines by auto
qed

theorem rpcauth_lines_read_back_witness:
  "\<exists>us1. insert_rpcauth demo_text (str_lines (show_rpcauth (''bob'', ''salt'', ''ab'') @ [CHR 0x0A])) fmempty = Inr us1 \<and>
     fmlookup us1 ''bob'' = Some (passthrough_user (Hash ''salt'' (as_bytes ''ab'')))"
proof -
  have enc: "hex_encode demo_text (as_bytes ''ab'') = ''ab''" by (simp add: demo_text_def chars_as_bytes)
  have "rpcauth_ok (''bob'', ''salt'', ''ab'')" by code_simp
  then show ?thesis
    using rpcauth_lines_read_back [OF demo_text_ok, of "[(''bob'', ''salt'', as_bytes ''ab'')]" fmempty] enc by auto
qed

text \<open>
  C33: the cache bound does not wrap around. The configured mebibytes become bytes, or the
  largest number of the machine where there is no such number of bytes, and the cache is
  enabled exactly if the configured size is not zero.
\<close>

theorem cache_size_saturates:
  assumes "create_state S E cfg w = (Inr (st, b), w1)"
  shows "unat (max_bytes (cache (st_state st))) = min (unat (cfg_block_cache_size_mib cfg) * 2 ^ 20) (2 ^ 64 - 1) \<and>
    (enabled (cache (st_state st)) \<longleftrightarrow> cfg_block_cache_size_mib cfg \<noteq> 0) \<and>
    check_invariants (cache (st_state st))"
proof -
  have m: "max_bytes (cache (st_state st)) = cache_bytes cfg" "cache (st_state st) = cache_new (cache_bytes cfg)"
    using assms by (elim create_state_Inr; simp add: fresh_state_def cache_new_def)+
  have size: "unat (cache_bytes cfg) = min (unat (cfg_block_cache_size_mib cfg) * 2 ^ 20) (2 ^ 64 - 1)"
    by (simp add: cache_bytes_def saturating_mul_min)
  then have "0 < cache_bytes cfg \<longleftrightarrow> cfg_block_cache_size_mib cfg \<noteq> 0"
    by (auto simp: word_less_nat_alt unat_gt_0)
  then show ?thesis
    using m size by (simp add: enabled_def cache_new_def check_invariants_def inner_default_def held_bytes_def)
qed

theorem cache_size_saturates_witness:
  "\<exists>st b. create_state start_libs start_env start_cfg [] = (Inr (st, b), []) \<and>
     unat (max_bytes (cache (st_state st))) = 67108864"
proof -
  obtain st where st: "create_state start_libs start_env start_cfg [] = (Inr (st, BindIp (V4 127 0 0 1) 8331), [])"
    using demo_start_ok [of "[]"] by blast
  show ?thesis using cache_size_saturates [OF st] st by (auto simp: start_cfg_def)
qed

end
