(* ===== verification/Server.thy ===== *)
theory Server
  imports Create_State
begin

text \<open>
  The program around the handler: \<open>main\<close> of \<open>src/main.rs\<close>, which builds the state or fails, and
  \<open>main\<close> of \<open>src/lib.rs\<close>, which binds the listening socket and hands hyper's server the stream of
  its connections and a service that answers every request of every connection with
  \<open>proxy_request\<close> on the shared state.

  hyper's server is a parameter, \<open>run_server\<close>: it is given what polling the listener does, the
  service, and what ends a background refresh, and says what was answered, the state it leaves
  and, if it ends, with what. Nothing is assumed of when it polls, how many requests it serves or
  in which order: what is proved of the program is proved of every sequence of requests.
\<close>

section \<open>Operations\<close>

datatype 'a poll = Ready 'a | Pending

type_synonym 'w service = "nat \<Rightarrow> http_request \<Rightarrow> (generic_request list \<Rightarrow> (nat \<times> generic_request) list) \<Rightarrow>
    forwarding \<Rightarrow> 'w pstate \<Rightarrow> served \<times> 'w pstate"

record 'w server_lib =
  bind_tokio :: "bind_addr \<Rightarrow> 'w \<Rightarrow> (string + nat) \<times> 'w"
  poll_accept :: "nat \<Rightarrow> 'w \<Rightarrow> (string + nat \<times> string) poll \<times> 'w"
  run_server :: "('w pstate \<Rightarrow> (string + nat) option poll \<times> 'w pstate) \<Rightarrow> 'w service \<Rightarrow>
    ('w pstate \<Rightarrow> 'w pstate) \<Rightarrow> 'w pstate \<Rightarrow> (string + unit) option \<times> served list \<times> 'w pstate"

text \<open>
  \<open>TcpListener::poll_next\<close>: what \<open>poll_accept\<close> gives, a connection without its address or an
  error, as an item of the stream. The stream has no end.
\<close>

fun accepted :: "(string + nat \<times> string) poll \<Rightarrow> (string + nat) option poll" where
  "accepted Pending = Pending"
| "accepted (Ready r) = Ready (Some (map_sum id fst r))"

definition poll_next :: "'w server_lib \<Rightarrow> nat \<Rightarrow> 'w pstate \<Rightarrow> (string + nat) option poll \<times> 'w pstate" where
  "poll_next V listener s = apfst accepted (on_world (poll_accept V listener) s)"

text \<open>The service of a connection: every connection shares the state.\<close>

definition make_service :: "'w env \<Rightarrow> 'w service" where
  "make_service E conn = proxy_request E"

definition lib_main :: "'w server_lib \<Rightarrow> 'w env \<Rightarrow> bind_addr \<Rightarrow> 'w pstate \<Rightarrow>
    (string + unit) option \<times> served list \<times> 'w pstate" where
  "lib_main V E bind s =
     (case on_world (bind_tokio V bind) s of
        (Inl e, s1) \<Rightarrow> (Some (Inl (''failed to create the listening socket: '' @ e)), [], s1)
      | (Inr listener, s1) \<Rightarrow> run_server V (poll_next V listener) (make_service E) (finish_refresh E) s1)"

datatype main_error = NotCreated start_error | NotServed string

definition main :: "start_lib \<Rightarrow> 'w server_lib \<Rightarrow> 'w env \<Rightarrow> config \<Rightarrow> 'w \<Rightarrow>
    (main_error + unit) option \<times> served list \<times> 'w" where
  "main S V E cfg w =
     (case create_state S E cfg w of
        (Inl e, w1) \<Rightarrow> (Some (Inl (NotCreated e)), [], w1)
      | (Inr (st, bind), w1) \<Rightarrow>
          (case lib_main V (st_env st) bind (st_state st) of
             (r, replies, s) \<Rightarrow> (map_option (map_sum NotServed id) r, replies, world s)))"

section \<open>Library lemmas\<close>

text \<open>A program that cannot start, or cannot bind its socket, ends with an error and serves nothing.\<close>

lemma main_not_created:
  "create_state S E cfg w = (Inl e, w1) \<Longrightarrow> main S V E cfg w = (Some (Inl (NotCreated e)), [], w1)"
  by (simp add: main_def)

lemma main_not_bound:
  assumes "create_state S E cfg w = (Inr (st, bind), w1)" and "bind_tokio V bind (world (st_state st)) = (Inl e, w2)"
  shows "main S V E cfg w =
    (Some (Inl (NotServed (''failed to create the listening socket: '' @ e))), [], w2)"
  using assms by (simp add: main_def lib_main_def on_world_def)

lemma poll_next_never_ends: "fst (poll_next V listener s) \<noteq> Ready None"
proof -
  obtain p s1 where "on_world (poll_accept V listener) s = (p, s1)" by fastforce
  then show ?thesis by (cases p) (simp_all add: poll_next_def)
qed

end
