(* ===== verification/Cookie_Reads.thy ===== *)
theory Cookie_Reads
  imports Proxy_Request "HOL-Library.Sublist"
begin

text \<open>
  Where the password of a cookie user comes from. Beside the world and the log of what is sent
  to bitcoind, an environment keeps what was read of every file. Whatever is served, a cached
  cookie is the password half of something that was read in that user's file, and so is every
  password a cookie user is let in with. \<open>request_effect\<close> carries this through the handler.
\<close>

section \<open>An environment that keeps what is read\<close>

type_synonym reads = "(path \<times> string) list"

definition watched :: "('w \<Rightarrow> 'r \<times> 'w) \<Rightarrow> 'w \<times> reads \<Rightarrow> 'r \<times> ('w \<times> reads)" where
  "watched f wr = (case f (fst wr) of (r, w) \<Rightarrow> (r, (w, snd wr)))"

definition watched_net :: "'w net \<Rightarrow> ('w \<times> reads) net" where
  "watched_net N = \<lparr>net_fs = \<lparr>fs_metadata = (\<lambda>p. watched (fs_metadata (net_fs N) p)),
       fs_read_to_string = (\<lambda>p wr.
         case fs_read_to_string (net_fs N) p (fst wr) of
           (Inl e, w) \<Rightarrow> (Inl e, (w, snd wr))
         | (Inr contents, w) \<Rightarrow> (Inr contents, (w, snd wr @ [(p, contents)])))\<rparr>,
     http = (\<lambda>q. watched (http N q)), to_bytes = (\<lambda>r. watched (to_bytes N r))\<rparr>"

definition watched_p2p :: "'w p2p \<Rightarrow> ('w \<times> reads) p2p" where
  "watched_p2p P = \<lparr>instant_now = watched (instant_now P), system_secs = watched (system_secs P),
     tcp_connect = (\<lambda>a. watched (tcp_connect P a)), socks_connect = (\<lambda>p a. watched (socks_connect P p a)),
     tcp_nodelay = (\<lambda>k. watched (tcp_nodelay P k)), write_msg = (\<lambda>k m. watched (write_msg P k m)),
     flush_stream = (\<lambda>k. watched (flush_stream P k)), read_msg = (\<lambda>k. watched (read_msg P k)),
     race = watched (race P)\<rparr>"

definition watched_env :: "'w env \<Rightarrow> ('w \<times> reads) env" where
  "watched_env E = \<lparr>env_lib = env_lib E, env_net = watched_net (env_net E), env_text = env_text E,
     env_btc = env_btc E, env_auth = env_auth E, env_p2p = watched_p2p (env_p2p E), env_uri = env_uri E,
     env_tor = env_tor E, env_i2p_proxy = env_i2p_proxy E, env_max_peer_age = env_max_peer_age E,
     env_patience = env_patience E, env_show_update = env_show_update E\<rparr>"

lemma watched_env_sel [simp]:
  "env_lib (watched_env E) = env_lib E" "env_net (watched_env E) = watched_net (env_net E)"
  "env_text (watched_env E) = env_text E" "env_btc (watched_env E) = env_btc E"
  "env_auth (watched_env E) = env_auth E" "env_p2p (watched_env E) = watched_p2p (env_p2p E)"
  "env_uri (watched_env E) = env_uri E"
  by (simp_all add: watched_env_def)

text \<open>What was read so far, below the log of what is sent; it only grows.\<close>

abbreviation reads_of :: "('w \<times> reads) \<times> out_request list \<Rightarrow> reads" where
  "reads_of wl \<equiv> snd (fst wl)"

definition reads_grow :: "('w \<times> reads) \<times> out_request list \<Rightarrow> ('w \<times> reads) \<times> out_request list \<Rightarrow> bool" where
  "reads_grow u v \<longleftrightarrow> prefix (reads_of u) (reads_of v)"

lemma reads_grow_preorder: "reads_grow w w" "reads_grow u v \<Longrightarrow> reads_grow v w \<Longrightarrow> reads_grow u w"
  by (simp_all add: reads_grow_def prefix_order.trans)

lemma reads_grow_watched: "reads_grow w (snd (logged (watched f) w))"
  by (simp add: reads_grow_def logged_def watched_def split: prod.splits)

lemma reads_grow_stat:
  "fs_metadata (net_fs (logged_net (watched_net N))) p w = (r, w1) \<Longrightarrow> reads_grow w w1"
  by (auto simp: reads_grow_def logged_net_def watched_net_def logged_def watched_def split: prod.splits)

lemma reads_grow_read:
  assumes "fs_read_to_string (net_fs (logged_net (watched_net N))) p w = (r, w1)"
  shows "reads_grow w w1 \<and> (\<forall>contents. r = Inr contents \<longrightarrow> (p, contents) \<in> set (reads_of w1))"
proof -
  obtain v seen out where w: "w = ((v, seen), out)" by (metis prod.collapse)
  obtain x v1 where "fs_read_to_string (net_fs N) p v = (x, v1)" by (metis prod.collapse)
  then show ?thesis
    using assms w by (cases x) (auto simp: reads_grow_def logged_net_def watched_net_def logged_def)
qed

lemma reads_grow_http: "reads_grow w (snd (http (logged_net (watched_net N)) q w))"
  by (cases "http N q (fst (fst w))") (simp add: reads_grow_def logged_net_def watched_net_def logged_def watched_def)

interpretation watching: world_effect "logged_env (watched_env E)" reads_grow for E :: "'v env"
proof unfold_locales
  fix u v w :: "('v \<times> reads) \<times> out_request list" and p
  show "reads_grow w w" by (rule reads_grow_preorder)
  show "reads_grow u v \<Longrightarrow> reads_grow v w \<Longrightarrow> reads_grow u w" by (rule reads_grow_preorder)
  show "reads_grow w (snd (fs_read_to_string (net_fs (env_net (logged_env (watched_env E)))) p w))"
    unfolding logged_env_sel watched_env_sel by (rule reads_grow_read [OF prod.collapse [symmetric], THEN conjunct1])
  show "reads_grow w (snd (http (env_net (logged_env (watched_env E))) q w))" for q
    unfolding logged_env_sel watched_env_sel by (rule reads_grow_http)
qed (simp_all add: logged_net_def watched_net_def logged_p2p_def watched_p2p_def reads_grow_watched)

section \<open>Cookies and what was read\<close>

definition read_in :: "reads \<Rightarrow> path \<Rightarrow> string \<Rightarrow> bool" where
  "read_in seen p pw \<longleftrightarrow> (\<exists>contents. (p, contents) \<in> set seen \<and> password_half contents = Some pw)"

lemma read_in_grow: "read_in (reads_of u) p pw \<Longrightarrow> reads_grow u v \<Longrightarrow> read_in (reads_of v) p pw"
  by (auto simp: read_in_def reads_grow_def dest: set_mono_prefix)

text \<open>Every cached cookie is the password half of something read in that user's file.\<close>

definition vouched :: "reads \<Rightarrow> users \<Rightarrow> bool" where
  "vouched seen us \<longleftrightarrow> (\<forall>name u p m pw. fmlookup us name = Some u \<longrightarrow>
     user_password u = CookieFile p (Some (m, pw)) \<longrightarrow> read_in seen p pw)"

lemma vouched_grow: "vouched (reads_of u) us \<Longrightarrow> reads_grow u v \<Longrightarrow> vouched (reads_of v) us"
  unfolding vouched_def using read_in_grow by blast

text \<open>
  The passwords that let a user in, given what was read: the configured one, or one that was
  read in the user's cookie file.
\<close>

definition admits :: "auth_lib \<Rightarrow> reads \<Rightarrow> user \<Rightarrow> string \<Rightarrow> bool" where
  "admits A seen u pass \<longleftrightarrow>
     (case user_password u of
        CookieFile p _ \<Rightarrow> \<exists>contents pw. (p, contents) \<in> set seen \<and> password_half contents = Some pw \<and>
          (length pw < 2 ^ 64 \<longrightarrow> length pass < 2 ^ 64 \<longrightarrow> pass = pw)
      | _ \<Rightarrow> proves A u pass)"

lemma stat_reads: "stat_ok (net_fs (logged_net (watched_net N))) p w = (r, w1) \<Longrightarrow> reads_grow w w1"
  by (auto simp: stat_ok_def split: prod.splits sum.splits dest: reads_grow_stat)

text \<open>What the comparison finds and caches is what was cached, or was read in that file.\<close>

lemma read_and_restat_reads:
  assumes "read_and_restat (net_fs (logged_net (watched_net N))) p cached w = (found, cached1, w1)"
  shows "reads_grow w w1 \<and> (\<forall>pw. found = Some pw \<longrightarrow> read_in (reads_of w1) p pw) \<and>
     (cached1 = cached \<or> (\<exists>m pw. cached1 = Some (m, pw) \<and> read_in (reads_of w1) p pw))"
proof -
  obtain r v where rd: "fs_read_to_string (net_fs (logged_net (watched_net N))) p w = (r, v)" by (metis prod.collapse)
  note grow = reads_grow_read [OF rd]
  show ?thesis
  proof (cases "\<exists>contents pw. r = Inr contents \<and> password_half contents = Some pw")
    case True
    then obtain contents pw where c: "r = Inr contents" "password_half contents = Some pw" by blast
    obtain m v1 where st: "stat_ok (net_fs (logged_net (watched_net N))) p v = (m, v1)" by (metis prod.collapse)
    have "read_in (reads_of v) p pw" using grow c by (auto simp: read_in_def)
    then have "read_in (reads_of v1) p pw" "reads_grow w v1"
      using grow stat_reads [OF st] read_in_grow reads_grow_preorder(2) by blast+
    then show ?thesis using assms rd c st by (cases m) (auto simp: read_and_restat_def)
  next
    case False
    then show ?thesis using assms rd grow by (cases r) (auto simp: read_and_restat_def split: option.splits)
  qed
qed

lemma cookie_password_reads:
  assumes "cookie_password (net_fs (logged_net (watched_net N))) p cached w = (found, cached1, w1)"
    and "\<And>m pw. cached = Some (m, pw) \<Longrightarrow> read_in (reads_of w) p pw"
  shows "reads_grow w w1 \<and> (\<forall>pw. found = Some pw \<longrightarrow> read_in (reads_of w1) p pw) \<and>
     (\<forall>m pw. cached1 = Some (m, pw) \<longrightarrow> read_in (reads_of w1) p pw)"
proof -
  obtain m v where st: "stat_ok (net_fs (logged_net (watched_net N))) p w = (m, v)" by (metis prod.collapse)
  note grow = stat_reads [OF st]
  have old: "read_in (reads_of v) p pw" if "cached = Some (t, pw)" for t pw
    using assms(2) [OF that] grow by (rule read_in_grow)
  show ?thesis
  proof (cases "\<exists>t pw. m = Some t \<and> cached = Some (t, pw)")
    case True
    then show ?thesis using assms(1) st grow old by (auto simp: cookie_password_def)
  next
    case False
    then have "read_and_restat (net_fs (logged_net (watched_net N))) p cached v = (found, cached1, w1)"
      using assms(1) st by (auto simp: cookie_password_def split: option.splits if_splits)
    note rr = read_and_restat_reads [OF this]
    then have "reads_grow w w1" "\<And>t pw. cached = Some (t, pw) \<Longrightarrow> read_in (reads_of w1) p pw"
      using grow old reads_grow_preorder(2) read_in_grow by blast+
    then show ?thesis using rr by auto
  qed
qed

lemma cookie_password_grow:
  assumes "cookie_password (net_fs (logged_net (watched_net N))) p cached w = (found, cached1, w1)"
  shows "reads_grow w w1"
proof -
  obtain m v where st: "stat_ok (net_fs (logged_net (watched_net N))) p w = (m, v)" by (metis prod.collapse)
  then have "w1 = v \<or> read_and_restat (net_fs (logged_net (watched_net N))) p cached v = (found, cached1, w1)"
    using assms by (auto simp: cookie_password_def split: option.splits if_splits)
  then show ?thesis
    using stat_reads [OF st] read_and_restat_reads [of N p cached v found cached1 w1] reads_grow_preorder(2)
    by blast
qed

lemma password_grow:
  assumes "password_eq hm (net_fs (logged_net (watched_net N))) pw pass w = (r, pw1, w1)"
  shows "reads_grow w w1"
proof (cases pw)
  case (CookieFile p cached)
  obtain found cached1 v where c: "cookie_password (net_fs (logged_net (watched_net N))) p cached w = (found, cached1, v)"
    by (metis prod_cases3)
  then show ?thesis using assms CookieFile cookie_password_grow [OF c] by auto
qed (use assms reads_grow_preorder(1) [of w] in auto)

lemma password_reads:
  assumes "password_eq hm (net_fs (logged_net (watched_net N))) (user_password u) pass w = (r, pw1, w1)"
    and "\<And>p m pw. user_password u = CookieFile p (Some (m, pw)) \<Longrightarrow> read_in (reads_of w) p pw"
  shows "\<forall>p m pw. pw1 = CookieFile p (Some (m, pw)) \<longrightarrow> read_in (reads_of w1) p pw"
proof (cases "user_password u")
  case (CookieFile p cached)
  obtain found cached1 v where c: "cookie_password (net_fs (logged_net (watched_net N))) p cached w = (found, cached1, v)"
    by (metis prod_cases3)
  have "read_in (reads_of w) p pw" if "cached = Some (m, pw)" for m pw
    using assms(2) CookieFile that by simp
  note cookie_password_reads [OF c this]
  then show ?thesis using assms(1) CookieFile c by auto
qed (use assms(1) in auto)

lemma password_admits:
  assumes "password_eq (hmac A) (net_fs (logged_net (watched_net N))) (user_password u) pass w = (Inr True, pw1, w1)"
    and "\<And>p m pw. user_password u = CookieFile p (Some (m, pw)) \<Longrightarrow> read_in (reads_of w) p pw"
    and "same_user u v"
  shows "admits A (reads_of w1) v pass"
proof (cases "user_password v")
  case (CookieFile p c)
  then obtain cached where u: "user_password u = CookieFile p cached"
    using assms(3) by (cases "user_password u") (auto simp: same_user_def)
  obtain found cached1 w2 where c: "cookie_password (net_fs (logged_net (watched_net N))) p cached w = (found, cached1, w2)"
    by (metis prod_cases3)
  obtain pw where found: "found = Some pw" and w2: "w2 = w1"
    and eq: "if pw \<noteq> [] then same_contents pw pass = Inr True else pass = []"
    using assms(1) u c by (auto split: option.splits if_splits)
  have "read_in (reads_of w) p pw" if "cached = Some (m, pw)" for m pw
    using assms(2) u that by simp
  then have "read_in (reads_of w1) p pw" using cookie_password_reads [OF c] found w2 by blast
  moreover have "pass = pw" if "length pw < 2 ^ 64" "length pass < 2 ^ 64"
    using eq that same_contents_iff [of pass pw] same_contents_empty [of pw]
    by (cases "pass = []") (auto split: if_splits)
  ultimately show ?thesis using CookieFile by (auto simp: admits_def read_in_def)
next
  case (Cleartext pw)
  then show ?thesis using password_eq_proves [of A "net_fs (logged_net (watched_net N))" u pass w v] assms(1,3)
    by (simp add: admits_def)
next
  case (Hash salt hash)
  then show ?thesis using password_eq_proves [of A "net_fs (logged_net (watched_net N))" u pass w v] assms(1,3)
    by (simp add: admits_def)
qed

section \<open>Cookies over requests\<close>

lemma authenticate_changes:
  assumes "authenticate E rq s = (r, s1)"
  shows "s1 = s \<or> (\<exists>header name pass u rp pw1 w1. credentials (env_auth E) header = Some (name, pass) \<and>
      fmlookup (users_map s) name = Some u \<and>
      password_eq (hmac (env_auth E)) (net_fs (env_net E)) (user_password u) pass (world s) = (rp, pw1, w1) \<and>
      s1 = s\<lparr>users_map := fmupd name (u\<lparr>user_password := pw1\<rparr>) (users_map s), world := w1\<rparr>)"
proof (cases "\<exists>header name pass u. rq_authorization rq = Some header \<and>
      credentials (env_auth E) header = Some (name, pass) \<and> fmlookup (users_map s) name = Some u")
  case True
  then obtain header name pass u where u: "rq_authorization rq = Some header"
      "credentials (env_auth E) header = Some (name, pass)" "fmlookup (users_map s) name = Some u"
    by blast
  obtain rp pw1 w1 where
    "password_eq (hmac (env_auth E)) (net_fs (env_net E)) (user_password u) pass (world s) = (rp, pw1, w1)"
    by (metis prod_cases3)
  moreover from this have
    "s1 = s\<lparr>users_map := fmupd name (u\<lparr>user_password := pw1\<rparr>) (users_map s), world := w1\<rparr>"
    using assms u by (simp add: authenticate_def users_get_def Let_def)
  ultimately show ?thesis using u by blast
next
  case False
  then have "s1 = s" using assms by (auto simp: authenticate_def users_get_def split: option.splits)
  then show ?thesis ..
qed

lemma authenticate_reads:
  assumes "authenticate (logged_env (watched_env E)) rq s = (r, s1)"
  shows "reads_grow (world s) (world s1) \<and>
    (vouched (reads_of (world s)) (users_map s) \<longrightarrow> vouched (reads_of (world s1)) (users_map s1))"
proof -
  let ?fs = "net_fs (logged_net (watched_net (env_net E)))"
  consider (same) "s1 = s" | (seen) header name pass u rp pw1 w1 where
      "credentials (env_auth E) header = Some (name, pass)" "fmlookup (users_map s) name = Some u"
      "password_eq (hmac (env_auth E)) ?fs (user_password u) pass (world s) = (rp, pw1, w1)"
      "s1 = s\<lparr>users_map := fmupd name (u\<lparr>user_password := pw1\<rparr>) (users_map s), world := w1\<rparr>"
    using authenticate_changes [OF assms] by (auto simp only: logged_env_sel watched_env_sel)
  then show ?thesis
  proof cases
    case same
    then show ?thesis using reads_grow_preorder(1) by simp
  next
    case seen
    have grow: "reads_grow (world s) w1" using seen(3) by (rule password_grow)
    have "vouched (reads_of w1) (fmupd name (u\<lparr>user_password := pw1\<rparr>) (users_map s))"
      if old: "vouched (reads_of (world s)) (users_map s)"
    proof -
      have rd: "read_in (reads_of (world s)) p pw" if "user_password u = CookieFile p (Some (m, pw))" for p m pw
        using old seen(2) that unfolding vouched_def by blast
      have "\<forall>p m pw. pw1 = CookieFile p (Some (m, pw)) \<longrightarrow> read_in (reads_of w1) p pw"
        by (rule password_reads [OF seen(3)]) (rule rd)
      then show ?thesis using vouched_grow [OF old grow] unfolding vouched_def by (auto split: if_splits)
    qed
    then show ?thesis using grow by (simp add: seen(4))
  qed
qed

text \<open>The handler, and a refresh that ends, keep every cached cookie vouched for.\<close>

definition keeps_vouched :: "'w env \<Rightarrow> (('w \<times> reads) \<times> out_request list) pstate \<Rightarrow>
    (('w \<times> reads) \<times> out_request list) pstate \<Rightarrow> bool" where
  "keeps_vouched E s s1 \<longleftrightarrow> reads_grow (world s) (world s1) \<and>
     (proxy_inv (logged_env (watched_env E)) s \<longrightarrow> proxy_inv (logged_env (watched_env E)) s1 \<and>
       (vouched (reads_of (world s)) (users_map s) \<longrightarrow> vouched (reads_of (world s1)) (users_map s1)))"

lemma keeps_vouchedI:
  assumes "reads_grow (world s) (world s1)"
    and "proxy_inv (logged_env (watched_env E)) s \<Longrightarrow>
      proxy_inv (logged_env (watched_env E)) s1 \<and> users_map s1 = users_map s"
  shows "keeps_vouched E s s1"
  using assms vouched_grow unfolding keeps_vouched_def by metis

lemma keeps_vouched_sys:
  assumes "reads_grow (world s) (world s1)" and "sys_frame s s1"
  shows "keeps_vouched E s s1"
  using assms proxy_inv_sys sys_frame_fields(1) by (blast intro: keeps_vouchedI)

lemma watching_world: "stays_in (watching.R :: (('v \<times> reads) \<times> out_request list) pstate \<Rightarrow> _) m \<Longrightarrow>
    reads_grow (world s) (world (snd (m s)))"
  by (simp add: stays_in_def watching.R_def)

interpretation voucher: request_effect "logged_env (watched_env E)" "keeps_vouched E" for E :: "'v env"
proof unfold_locales
  fix s t u :: "(('v \<times> reads) \<times> out_request list) pstate" and q resp h rq
  let ?E = "logged_env (watched_env E)"
  show "keeps_vouched E s s" by (simp add: keeps_vouched_def reads_grow_preorder)
  show "keeps_vouched E s t \<Longrightarrow> keeps_vouched E t u \<Longrightarrow> keeps_vouched E s u"
    unfolding keeps_vouched_def using reads_grow_preorder(2) by blast
  show "keeps_vouched E s (snd (load_auth (env_lib ?E) (env_net ?E) s))"
    using watching_world [OF watching.R_load_auth] by (rule keeps_vouched_sys) simp
  show "keeps_vouched E s (snd (read_body (env_net ?E) resp s))"
    using watching_world [OF watching.R_read_body] by (rule keeps_vouched_sys) simp
  have http: "reads_grow (world s) (world (snd (http_send (env_net ?E) q s)))" for q
    using reads_grow_http [of "world s" "env_net E" q]
    by (cases "http (logged_net (watched_net (env_net E))) q (world s)") (simp add: http_send_def)
  show "keeps_vouched E s (snd (http_send (env_net ?E) q s))"
    using http by (rule keeps_vouched_sys) simp
  then show "keeps_vouched E s (snd (http_send (env_net ?E) q s))" .
  show "keeps_vouched E s (snd (on_world (race (env_p2p ?E)) s))"
    using watching_world [OF watching.R_on_world [OF watching.W_race]] by (rule keeps_vouched_sys) simp
  show "stays_in (keeps_vouched E) (fetch_block_raw ?E h)"
    unfolding stays_in_def
  proof
    fix s :: "(('v \<times> reads) \<times> out_request list) pstate"
    show "keeps_vouched E s (snd (fetch_block_raw ?E h s))"
      using watching_world [OF watching.R_fetch_raw]
      by (rule keeps_vouchedI) (use fetch_block_raw_effect [OF _ prod.collapse [symmetric]] in blast)
  qed
  show "stays_in (keeps_vouched E) (authenticate ?E rq)"
    unfolding stays_in_def
  proof
    fix s :: "(('v \<times> reads) \<times> out_request list) pstate"
    obtain r s1 where a: "authenticate ?E rq s = (r, s1)" by (metis prod.collapse)
    have "proxy_inv ?E s \<longrightarrow> proxy_inv ?E s1"
      using authenticate_changes [OF a] by (auto simp: proxy_inv_def pool_inv_def)
    then show "keeps_vouched E s (snd (authenticate ?E rq s))"
      using authenticate_reads [OF a] a by (simp add: keeps_vouched_def)
  qed
qed

lemma vouched_refresh: "keeps_vouched E s (finish_refresh (logged_env (watched_env E)) s)"
proof (cases "refreshes s = 0")
  case True
  then show ?thesis by (simp add: finish_refresh_def voucher.R_refl)
next
  case False
  let ?E = "logged_env (watched_env E)" and ?s = "s\<lparr>refreshes := refreshes s - 1\<rparr>"
  obtain r s1 where run: "refresh_peers ?E ?s = (r, s1)" by (metis prod.collapse)
  have "reads_grow (world s) (world s1)"
    using watching_world [OF watching.R_refresh_peers [of E], of ?s] run by simp
  moreover have "proxy_inv ?E s1 \<and> users_map s1 = users_map s" if "proxy_inv ?E s"
  proof -
    have "pool_inv ?s" using that by (simp add: proxy_inv_def pool_inv_def)
    from refresh_effect [OF this run] that show ?thesis by (simp add: proxy_inv_def)
  qed
  ultimately show ?thesis
    using False run by (simp add: finish_refresh_def keeps_vouchedI)
qed

lemma vouched_serves:
  assumes "serves (logged_env (watched_env E)) s0 rqs s"
  shows "keeps_vouched E s0 s"
  using assms
proof (induction rule: serves.induct)
  case start
  show ?case by (rule voucher.R_refl)
next
  case (served rqs s sched rq stage r s1)
  show ?case using served(4) stays_inD [OF voucher.R_proxy_request served(3)] by (rule voucher.R_trans)
next
  case (refreshed rqs s)
  show ?case using refreshed(2) vouched_refresh by (rule voucher.R_trans)
qed

end
