(* ===== verification/Interleaving.thy ===== *)
theory Interleaving
  imports Proxy_Request
begin

text \<open>
  Concurrent requests. Between any two points where a task may wait, the proxy changes its
  shared state in one atomic step: it authenticates, talks to the outside, learns the chain,
  reads or fills the cache, takes a peer's idle connection, puts one back, starts or ends a
  refresh of the peer list. The machine here takes these steps in any order, on behalf of any
  number of requests; what the requests hold between their steps, the handles of peers with
  the connections opened for them, is a multiset beside the state.

  Every request of \<open>proxy_request\<close> is a run of such steps, so whatever holds along every run
  holds of requests served one after the other and of their interleavings.
\<close>

section \<open>Steps\<close>

type_synonym 'w machine = "'w pstate \<times> peer_handle multiset"

inductive atomic :: "'w env \<Rightarrow> 'w machine \<Rightarrow> 'w machine \<Rightarrow> bool" for E where
  outside: "atomic E (s, fl) (s\<lparr>auth := a, world := w\<rparr>, fl)"
| identify: "users_get (env_auth E) (net_fs (env_net E)) (users_map s) header (world s) = (r, us, w) \<Longrightarrow>
    atomic E (s, fl) (s\<lparr>users_map := us, world := w\<rparr>, fl)"
| learn: "network s = None \<Longrightarrow> from_blockchain_info (env_btc E) info = Inr np \<Longrightarrow>
    atomic E (s, fl) (s\<lparr>network := Some np\<rparr>, fl)"
| look_up: "atomic E (s, fl) (s\<lparr>cache := snd (cache_get (cache s) h)\<rparr>, fl)"
| keep: "valid_block (env_btc E) h b \<Longrightarrow> encode_block (env_btc E) b = Inr d \<Longrightarrow>
    atomic E (s, fl) (s\<lparr>cache := cache_insert (cache s) h d\<rparr>, fl)"
| take: "p \<in> set (peer_list (current_peers s)) \<Longrightarrow> peer_handle_of p s = (h, s1) \<Longrightarrow>
    atomic E (s, fl) (s1, add_mset h fl)"
| dial: "handle_conn h = None \<Longrightarrow> conn_for (network s) (handle_addr h) c \<Longrightarrow>
    atomic E (s, add_mset h fl) (s, add_mset (h\<lparr>handle_conn := Some c\<rparr>) fl)"
| put_back: "handle_conn h = Some c \<Longrightarrow>
    atomic E (s, add_mset h fl) (recycle \<lparr>rc_conn = c, rc_send = handle_send h\<rparr> s, fl)"
| let_go: "atomic E (s, add_mset h fl) (s, fl)"
| start_refresh: "atomic E (s, fl) (s\<lparr>refreshes := Suc (refreshes s)\<rparr>, fl)"
| end_refresh: "atomic E (s, fl) (s\<lparr>refreshes := refreshes s - 1\<rparr>, fl)"
| install: "peers_of addrs s = (ps, s1) \<Longrightarrow>
    atomic E (s, fl) (install_peers \<lparr>fetched = Some now, peer_list = ps\<rparr> s1, fl)"

inductive_cases atomicE: "atomic E (s, fl) (s1, fl1)"

abbreviation steps :: "'w env \<Rightarrow> 'w machine \<Rightarrow> 'w machine \<Rightarrow> bool" where
  "steps E \<equiv> rtranclp (atomic E)"

lemmas step1 = r_into_rtranclp [of "atomic E" for E]

section \<open>The invariant\<close>

text \<open>A handle between two steps: its peer's, with a channel that no later list gets.\<close>

definition held_ok :: "'w pstate \<Rightarrow> peer_handle \<Rightarrow> bool" where
  "held_ok s h \<longleftrightarrow> handle_ok s h \<and> handle_send h < next_chan s"

definition machine_inv :: "'w env \<Rightarrow> 'w machine \<Rightarrow> bool" where
  "machine_inv E m \<longleftrightarrow> proxy_inv E (fst m) \<and> (\<forall>h\<in>#snd m. held_ok (fst m) h)"

lemma held_ok_frame: "peer_frame s s1 \<Longrightarrow> held_ok s h \<Longrightarrow> held_ok s1 h"
  unfolding held_ok_def using handle_ok_mono [of s s1 h] by (auto simp: peer_frame_def)

text \<open>Steps that touch neither list nor channels.\<close>

lemma machine_inv_quiet:
  assumes "machine_inv E (s, fl)" and "peer_frame s s1" and "chans s1 = chans s"
  shows "machine_inv E (s1, fl)"
proof -
  have "cache s1 = cache s" using assms(2) by (simp add: peer_frame_def)
  then show ?thesis
    using assms pool_inv_mono [OF assms(2,3)] held_ok_frame [OF assms(2)]
    by (simp add: machine_inv_def proxy_inv_def)
qed

text \<open>Steps that the invariant does not look at.\<close>

lemma machine_inv_unseen:
  assumes "machine_inv E (s, fl)"
  shows "machine_inv E (s\<lparr>refreshes := n\<rparr>, fl)" and "machine_inv E (s\<lparr>users_map := us, world := w\<rparr>, fl)"
  using assms by (simp_all add: machine_inv_def proxy_inv_def pool_inv_def held_ok_def handle_ok_def send_ok_def)

lemma machine_inv_cache:
  assumes "machine_inv E (s, fl)" and "cache.all_held (valid_bytes (env_btc E)) c"
  shows "machine_inv E (s\<lparr>cache := c\<rparr>, fl)"
  using assms
  by (simp add: machine_inv_def proxy_inv_def pool_inv_def held_ok_def handle_ok_def send_ok_def)

lemma machine_inv_take:
  assumes inv: "machine_inv E (s, fl)" and p: "p \<in> set (peer_list (current_peers s))"
    and h: "peer_handle_of p s = (h, s1)"
  shows "machine_inv E (s1, add_mset h fl)"
proof -
  have pool: "pool_inv s" using inv by (simp add: machine_inv_def proxy_inv_def)
  note eff = peer_handle_effect [OF pool p h]
  have "handle_send h = peer_chan p" using h by (auto simp: peer_handle_of_def split: option.splits)
  moreover have "peer_chan p < next_chan s" using pool p by (auto simp: pool_inv_def)
  ultimately have "held_ok s1 h" using eff by (simp add: held_ok_def peer_frame_def)
  then show ?thesis
    using inv eff held_ok_frame by (auto simp: machine_inv_def proxy_inv_def peer_frame_def)
qed

lemma machine_inv_put_back:
  assumes inv: "machine_inv E (s, add_mset h fl)" and c: "handle_conn h = Some c"
  shows "machine_inv E (recycle \<lparr>rc_conn = c, rc_send = handle_send h\<rparr> s, fl)"
proof -
  have "handle_ok s h" "pool_inv s" using inv by (simp_all add: machine_inv_def held_ok_def proxy_inv_def)
  then have "pool_inv (recycle \<lparr>rc_conn = c, rc_send = handle_send h\<rparr> s) \<and>
      peer_frame s (recycle \<lparr>rc_conn = c, rc_send = handle_send h\<rparr> s)"
    using c by (intro recycle_effect [where addr = "handle_addr h"]) (simp_all add: handle_ok_def)
  then show ?thesis
    using inv held_ok_frame by (auto simp: machine_inv_def proxy_inv_def peer_frame_def)
qed

lemma machine_inv_install:
  assumes inv: "machine_inv E (s, fl)" and p: "peers_of addrs s = (ps, s1)"
  shows "machine_inv E (install_peers \<lparr>fetched = Some now, peer_list = ps\<rparr> s1, fl)"
proof -
  let ?s = "install_peers \<lparr>fetched = Some now, peer_list = ps\<rparr> s1"
  note fld = peers_of_fields [OF p]
  have pool: "pool_inv s" using inv by (simp add: machine_inv_def proxy_inv_def)
  note ins = install_effect [OF pool p, where f = "Some now"]
  have "held_ok ?s h" if "held_ok s h" for h
  proof -
    have "peer_chan q \<noteq> handle_send h" if "q \<in> set ps" for q
      using ins(2) [OF that] \<open>held_ok s h\<close> by (auto simp: held_ok_def)
    then show ?thesis
      using that by (auto simp: held_ok_def handle_ok_def send_ok_def install_peers_def fld)
  qed
  then show ?thesis
    using inv ins(1) by (simp add: machine_inv_def proxy_inv_def) (simp add: install_peers_def fld)
qed

lemma machine_inv_step:
  assumes "atomic E m m1" and "machine_inv E m"
  shows "machine_inv E m1"
  using assms
proof cases
  case (keep h b d s fl)
  then have "cache.all_held (valid_bytes (env_btc E)) (cache_insert (cache s) h d)"
    using assms(2) by (intro cache.all_held_store) (auto simp: machine_inv_def proxy_inv_def valid_bytes_def)
  then show ?thesis using keep assms(2) machine_inv_cache by blast
next
  case (look_up s fl h)
  then have "cache.all_held (valid_bytes (env_btc E)) (snd (cache_get (cache s) h))"
    using assms(2) by (intro cache.all_held_lookup) (simp add: machine_inv_def proxy_inv_def)
  then show ?thesis using look_up assms(2) machine_inv_cache by blast
next
  case (dial h s c fl)
  then show ?thesis using assms(2) by (simp add: machine_inv_def held_ok_def handle_ok_def)
next
  case (let_go s h fl)
  then show ?thesis using assms(2) by (simp add: machine_inv_def)
next
  case (outside s fl a w)
  then show ?thesis using assms(2) by (auto simp: peer_frame_def elim!: machine_inv_quiet)
next
  case (learn s info np fl)
  then show ?thesis using assms(2) by (auto simp: peer_frame_def elim!: machine_inv_quiet)
next
  case (take p s h s1 fl)
  then show ?thesis using assms(2) machine_inv_take by blast
next
  case (put_back h c s fl)
  then show ?thesis using assms(2) machine_inv_put_back by blast
next
  case (install addrs s ps s1 fl now)
  then show ?thesis using assms(2) machine_inv_install by blast
next
  case (identify s header r us w fl)
  then show ?thesis using assms(2) machine_inv_unseen(2) [of E s fl] by simp
next
  case (start_refresh s fl)
  then show ?thesis using assms(2) machine_inv_unseen(1) [of E s fl] by simp
next
  case (end_refresh s fl)
  then show ?thesis using assms(2) machine_inv_unseen(1) [of E s fl] by simp
qed

text \<open>What every step keeps, on any state.\<close>

definition progress :: "'w machine \<Rightarrow> 'w machine \<Rightarrow> bool" where
  "progress m m1 \<longleftrightarrow> same_users (users_map (fst m)) (users_map (fst m1)) \<and>
     (\<forall>np. network (fst m) = Some np \<longrightarrow> network (fst m1) = Some np) \<and>
     max_bytes (cache (fst m1)) = max_bytes (cache (fst m))"

lemma recycle_fields [simp]:
  "users_map (recycle rc s) = users_map s" "network (recycle rc s) = network s" "cache (recycle rc s) = cache s"
  by (simp_all add: recycle_def)

lemma peer_handle_fields:
  assumes "peer_handle_of p s = (h, s1)"
  shows "users_map s1 = users_map s" "network s1 = network s" "cache s1 = cache s"
  using assms by (auto simp: peer_handle_of_def split: option.splits)

lemma install_fields:
  assumes "peers_of addrs s = (ps, s1)"
  shows "users_map (install_peers q s1) = users_map s" "network (install_peers q s1) = network s"
    "cache (install_peers q s1) = cache s"
  by (simp_all add: install_peers_def peers_of_fields [OF assms])

lemma progress_step:
  assumes "atomic E m m1"
  shows "progress m m1"
  using assms
proof cases
  case (identify s header r us w fl)
  then show ?thesis using users_get_same_users [of "env_auth E"] by (simp add: progress_def)
qed (simp_all add: progress_def same_users_preorder cache_get_frame cache_insert_frame peer_handle_fields install_fields)

lemma progress_steps: "steps E m m1 \<Longrightarrow> progress m m1"
proof (induction rule: rtranclp_induct)
  case base
  show ?case by (simp add: progress_def same_users_preorder)
next
  case (step m1 m2)
  then show ?case
    using progress_step [OF step(2)]
      same_users_preorder(2) [of "users_map (fst m)" "users_map (fst m1)" "users_map (fst m2)"]
    by (simp add: progress_def)
qed

lemma machine_inv_steps: "steps E m m1 \<Longrightarrow> machine_inv E m \<Longrightarrow> machine_inv E m1"
  by (induction rule: rtranclp_induct) (auto intro: machine_inv_step)

text \<open>The cache stays exact and within its bound.\<close>

lemma cache_inv_step:
  assumes "atomic E m m1" and "cache_inv (cache (fst m))" and "unat (max_bytes (cache (fst m))) \<le> 2 ^ 63"
    and "\<And>b d. encode_block (env_btc E) b = Inr d \<Longrightarrow> length d < 2 ^ 63"
  shows "cache_inv (cache (fst m1))"
  using assms(1)
proof cases
  case (keep h b d s fl)
  then have "fits (cache s) d" using assms(2-4) by (intro fitsI) auto
  then show ?thesis using keep assms(2) by (simp add: cache_inv_insert)
qed (use assms(2) in \<open>simp_all add: cache_inv_get peer_handle_fields install_fields\<close>)

lemma cache_inv_steps:
  assumes "steps E m m1" and "cache_inv (cache (fst m))" and "unat (max_bytes (cache (fst m))) \<le> 2 ^ 63"
    and "\<And>b d. encode_block (env_btc E) b = Inr d \<Longrightarrow> length d < 2 ^ 63"
  shows "cache_inv (cache (fst m1))"
  using assms(1,2)
proof (induction rule: rtranclp_induct)
  case (step m1 m2)
  have "unat (max_bytes (cache (fst m1))) \<le> 2 ^ 63"
    using progress_steps [OF step(1)] assms(3) by (simp add: progress_def)
  then show ?case using step cache_inv_step assms(4) by blast
qed simp

section \<open>Every request is a run\<close>

text \<open>Whatever the other requests hold, the steps lead from one state to the other.\<close>

definition runs :: "'w env \<Rightarrow> 'w pstate \<Rightarrow> 'w pstate \<Rightarrow> bool" where
  "runs E s s1 \<longleftrightarrow> (\<forall>fl. steps E (s, fl) (s1, fl))"

lemma runs_preorder [simp]: "reflp (runs E)" "transp (runs E)"
  by (auto simp: runs_def reflp_def transp_def intro: rtranclp_trans)

lemma runs_step: "(\<And>fl. atomic E (s, fl) (s1, fl)) \<Longrightarrow> runs E s s1"
  by (auto simp: runs_def)

lemma runs_then: "runs E s s1 \<Longrightarrow> steps E (s1, fl) m \<Longrightarrow> steps E (s, fl) m"
  by (auto simp: runs_def intro: rtranclp_trans)

lemma runs_sys:
  fixes s s1 :: "'w pstate"
  assumes "sys_frame s s1"
  shows "runs E s s1"
proof (rule runs_step)
  have "s1 = s\<lparr>auth := auth s1, world := world s1\<rparr>"
    using sys_frame_fields [OF assms] by (intro pstate.equality) simp_all
  then show "atomic E (s, fl) (s1, fl)" for fl by (metis atomic.outside)
qed

lemma runs_of_sys: "stays_in sys_frame m \<Longrightarrow> stays_in (runs E) m"
  by (simp add: stays_in_def runs_sys)

lemma runs_own_call: "stays_in (runs E) (own_call E m ps de)"
  by (rule runs_of_sys) (metis prod.collapse stays_in_def sys_frame_own_call)

lemma runs_bind_res:
  "stays_in (runs E) m \<Longrightarrow> (\<And>x. stays_in (runs E) (f x)) \<Longrightarrow> stays_in (runs E) (bind_res m f)"
  by (rule stays_in_bind_res) simp_all

lemma runs_network_params:
  fixes E :: "'w env"
  shows "stays_in (runs E) (network_params_of E)"
  unfolding stays_in_def
proof
  fix s :: "'w pstate"
  let ?call = "own_call E GetBlockchainInfo no_params (de_blockchain_info (env_text E))"
  obtain r and s1 :: "'w pstate" where c: "?call s = (r, s1)" by fastforce
  have fr: "sys_frame s s1" using c by (rule sys_frame_own_call)
  then have "runs E s s1" by (rule runs_sys)
  moreover have "runs E s1 (s1\<lparr>network := Some np\<rparr>)"
    if "network s = None" "from_blockchain_info (env_btc E) info = Inr np" for info np
    using that sys_frame_fields(2) [OF fr] by (intro runs_step atomic.learn) simp_all
  ultimately have "runs E s (s1\<lparr>network := Some np\<rparr>)"
    if "network s = None" "from_blockchain_info (env_btc E) info = Inr np" for info np
    using that transpD [OF runs_preorder(2)] by blast
  then show "runs E s (snd (network_params_of E s))"
    using c \<open>runs E s s1\<close> reflpD [OF runs_preorder(1)]
    by (auto simp: network_params_of_def bind_res_def map_err_def split: option.splits sum.splits)
qed

lemmas runs_rules = runs_bind_res stays_in_simple(3) [OF runs_network_params] runs_of_sys [OF sys_frame_io]
  runs_of_sys [OF sys_frame_open_stream] runs_of_sys [OF sys_frame_set_nodelay] runs_of_sys [OF sys_frame_handshake]
  runs_of_sys [OF sys_frame_receive_block] stays_in_simple(1,2) [OF runs_preorder(1)]

lemma runs_connect: "stays_in (runs E) (connect E addr)"
  unfolding connect_def by (auto intro!: runs_rules split: sum.splits)

lemma runs_exchange: "stays_in (runs E) (fetch_block_from_peer E h rc)"
  unfolding fetch_block_from_peer_def by (auto intro!: runs_rules)

subsection \<open>Handles\<close>

lemma let_all_go: "steps E (s, mset hs + fl) (s, fl)"
proof (induction hs)
  case (Cons h hs)
  have "atomic E (s, mset (h # hs) + fl) (s, mset hs + fl)"
    using atomic.let_go [of E s h "mset hs + fl"] by simp
  then show ?case using Cons by (rule converse_rtranclp_into_rtranclp)
qed simp

lemma take_handles:
  "handles ps s = (hs, s1) \<Longrightarrow> set ps \<subseteq> set (peer_list (current_peers s)) \<Longrightarrow>
   steps E (s, fl) (s1, mset hs + fl)"
proof (induction ps arbitrary: s hs fl)
  case (Cons p ps)
  obtain h s2 where h: "peer_handle_of p s = (h, s2)" by fastforce
  obtain hs' where hs: "handles ps s2 = (hs', s1)" "hs = h # hs'"
    using Cons.prems(1) h by (auto split: prod.splits)
  have "atomic E (s, fl) (s2, add_mset h fl)" using Cons.prems(2) h by (intro atomic.take) auto
  moreover have "current_peers s2 = current_peers s"
    using h by (auto simp: peer_handle_of_def split: option.splits)
  then have "steps E (s2, add_mset h fl) (s1, mset hs' + add_mset h fl)"
    using Cons.IH [OF hs(1), of "add_mset h fl"] Cons.prems(2) by simp
  ultimately show ?case using hs(2) by (simp add: converse_rtranclp_into_rtranclp)
qed simp

lemma refresh_runs:
  assumes "refresh_peers E s = (r, s1)"
  shows "runs E s s1" and "r = Inr ps \<Longrightarrow> current_peers s1 = ps"
proof -
  obtain r1 s2 where c: "own_call E GetPeerInfo no_params (de_list de_peer_info) s = (r1, s2)" by fastforce
  have call: "runs E s s2" using stays_inD [OF runs_own_call c] .
  have "runs E s s1 \<and> (r = Inr ps \<longrightarrow> current_peers s1 = ps)"
  proof (cases r1)
    case (Inl e)
    then show ?thesis using assms c call by (auto simp: refresh_peers_def peers_updated_def bind_res_def)
  next
    case (Inr infos)
    obtain qs s3 where p: "peers_of (selected infos) s2 = (qs, s3)" by fastforce
    obtain now w where w: "instant_now (env_p2p E) (world s3) = (now, w)" by fastforce
    let ?ps = "\<lparr>fetched = Some now, peer_list = qs\<rparr>"
    have s1: "r = Inr ?ps" "s1 = (install_peers ?ps s3)\<lparr>world := w\<rparr>"
      using assms c Inr p w
      by (auto simp: refresh_peers_def peers_updated_def bind_res_def on_world_def install_peers_def)
    have "runs E s2 (install_peers ?ps s3)" using p by (intro runs_step atomic.install)
    moreover have "runs E (install_peers ?ps s3) s1" by (rule runs_sys) (simp add: sys_frame_def s1)
    ultimately have "runs E s s1" using call transpD [OF runs_preorder(2)] by blast
    then show ?thesis using s1 by (auto simp: install_peers_def)
  qed
  then show "runs E s s1" and "r = Inr ps \<Longrightarrow> current_peers s1 = ps" by auto
qed

lemma get_peers_steps:
  assumes "get_peers E s = (r, s1)"
  shows "steps E (s, fl) (s1, (case r of Inl e \<Rightarrow> {#} | Inr hs \<Rightarrow> mset hs) + fl)"
proof -
  obtain old w where w: "stale E (current_peers s) s = (old, s\<lparr>world := w\<rparr>)" by (rule stale_world)
  let ?s = "s\<lparr>world := w\<rparr>"
  have clock: "runs E s ?s" by (rule runs_sys) (simp add: sys_frame_def)
  have spawn: "runs E ?s (?s\<lparr>refreshes := Suc (refreshes ?s)\<rparr>)" by (intro runs_step atomic.start_refresh)
  have now: "steps E (s0, fl) (s1, (case r of Inl e \<Rightarrow> {#} | Inr hs \<Rightarrow> mset hs) + fl)"
    if "apfst Inr (handles (peer_list (current_peers s)) s0) = (r, s1)" "current_peers s0 = current_peers s" for s0
    using that take_handles [of "peer_list (current_peers s)" s0 _ s1 E fl]
    by (cases "handles (peer_list (current_peers s)) s0") auto
  show ?thesis
  proof (cases old)
    case False
    then show ?thesis
      using assms w by (intro runs_then [OF clock] now) (simp_all add: get_peers_def Let_def)
  next
    case stale: True
    show ?thesis
    proof (cases "peers_is_empty (current_peers s)")
      case False
      then show ?thesis
        using assms w stale
        by (intro runs_then [OF clock] runs_then [OF spawn] now) (simp_all add: get_peers_def Let_def)
    next
      case True
      obtain r2 s2 where ref: "refresh_peers E ?s = (r2, s2)" by fastforce
      have run: "runs E s s2" using clock refresh_runs(1) [OF ref] transpD [OF runs_preorder(2)] by blast
      have "(r, s1) = (case r2 of Inl e \<Rightarrow> (Inl e, s2) | Inr ps \<Rightarrow> apfst Inr (handles (peer_list ps) s2))"
        using assms w stale True ref by (simp add: get_peers_def Let_def bind_res_def split: sum.splits)
      then show ?thesis
        using refresh_runs(2) [OF ref] take_handles [of _ s2 _ s1 E fl] run
        by (cases r2) (auto intro!: runs_then [OF run] simp: apfst_def map_prod_def split: prod.splits)
    qed
  qed
qed

lemma handle_dropped: "runs E s t \<Longrightarrow> steps E (s, add_mset p fl) (t, fl)"
  using atomic.let_go [of E t p fl] by (auto intro: runs_then)

lemma handle_connect_steps:
  assumes "handle_connect E p s = (r, s1)"
  shows "case r of
      Inl e \<Rightarrow> steps E (s, add_mset p fl) (s1, fl)
    | Inr rc \<Rightarrow> steps E (s, add_mset p fl) (s1, add_mset (p\<lparr>handle_conn := Some (rc_conn rc)\<rparr>) fl) \<and>
        rc_send rc = handle_send p"
proof (cases "handle_conn p")
  case (Some c)
  then have same: "p\<lparr>handle_conn := Some c\<rparr> = p" by simp
  have "r = Inr \<lparr>rc_conn = c, rc_send = handle_send p\<rparr>" "s1 = s"
    using assms Some by (simp_all add: handle_connect_def return_ok_def)
  then show ?thesis using same by simp
next
  case None
  obtain rc where con: "connect E (handle_addr p) s = (rc, s1)"
    and r: "r = map_sum id (\<lambda>c. \<lparr>rc_conn = c, rc_send = handle_send p\<rparr>) rc"
    using assms None
    by (auto simp: handle_connect_def bind_res_def return_ok_def split: prod.splits sum.splits)
  note run = stays_inD [OF runs_connect con]
  show ?thesis
  proof (cases rc)
    case (Inl e)
    then show ?thesis using r handle_dropped [OF run] by simp
  next
    case (Inr c)
    have "atomic E (s1, add_mset p fl) (s1, add_mset (p\<lparr>handle_conn := Some c\<rparr>) fl)"
      using None connect_conn_for con Inr by (intro atomic.dial) auto
    then show ?thesis using r Inr run by (auto intro: runs_then)
  qed
qed

lemma exchange_valid:
  "fetch_block_from_peer E h rc s = (Inr (b, rc1), s1) \<Longrightarrow> rc1 = rc \<and> valid_block (env_btc E) h b"
  by (auto simp: fetch_block_from_peer_def bind_res_Inr_iff dest: receive_block_valid)

lemma try_peer_steps:
  assumes "try_peer E h p s = (r, s1)"
  shows "case r of
      Inl e \<Rightarrow> steps E (s, add_mset p fl) (s1, fl)
    | Inr (b, rc) \<Rightarrow> steps E (s, add_mset p fl) (s1, add_mset (p\<lparr>handle_conn := Some (rc_conn rc)\<rparr>) fl) \<and>
        rc_send rc = handle_send p \<and> valid_block (env_btc E) h b"
proof -
  obtain rc s2 where hc: "handle_connect E p s = (rc, s2)" by fastforce
  note opened = handle_connect_steps [OF hc, of fl]
  show ?thesis
  proof (cases rc)
    case (Inl e)
    then show ?thesis using assms hc opened by (auto simp: try_peer_def bind_res_def)
  next
    case (Inr c)
    have ex: "fetch_block_from_peer E h c s2 = (r, s1)" using assms hc Inr by (simp add: try_peer_def bind_res_def)
    then have fr: "runs E s2 s1" by (rule stays_inD [OF runs_exchange])
    show ?thesis
    proof (cases r)
      case (Inl e)
      then show ?thesis using opened Inr handle_dropped [OF fr] by (auto intro: rtranclp_trans)
    next
      case r: (Inr br)
      then show ?thesis
        using opened Inr fr exchange_valid [of E h c s2 _ _ s1] ex
        by (cases br) (auto simp: runs_def intro: rtranclp_trans)
    qed
  qed
qed

lemma fetch_from_peers_steps:
  "fetch_block_from_peers E h ps s = (r, s1) \<Longrightarrow>
   steps E (s, mset ps + fl) (s1, fl) \<and> (\<forall>b. r = Some b \<longrightarrow> valid_block (env_btc E) h b)"
proof (induction ps arbitrary: s)
  case (Cons p ps)
  obtain rp s2 where tp: "try_peer E h p s = (rp, s2)" by fastforce
  note st = try_peer_steps [OF tp, of "mset ps + fl"]
  show ?case
  proof (cases rp)
    case (Inl e)
    then have "fetch_block_from_peers E h ps s2 = (r, s1)" using Cons.prems tp by simp
    from Cons.IH [OF this] show ?thesis using st Inl by (auto intro: rtranclp_trans)
  next
    case (Inr br)
    obtain b rc where br: "br = (b, rc)" by fastforce
    let ?p = "p\<lparr>handle_conn := Some (rc_conn rc)\<rparr>"
    have rc: "\<lparr>rc_conn = rc_conn rc, rc_send = handle_send ?p\<rparr> = rc" using st Inr br by (cases rc) simp
    have "atomic E (s2, add_mset ?p (mset ps + fl)) (recycle rc s2, mset ps + fl)"
      using atomic.put_back [of ?p "rc_conn rc" E s2 "mset ps + fl", unfolded rc] by simp
    moreover have "steps E (s, add_mset p (mset ps + fl)) (s2, add_mset ?p (mset ps + fl))" "valid_block (env_btc E) h b"
      using st Inr br by simp_all
    moreover have "r = Some b" "s1 = recycle rc s2" using Cons.prems tp Inr br by simp_all
    ultimately show ?thesis
      using let_all_go [of E s1 ps fl] by (auto intro: rtranclp_trans rtranclp.rtrancl_into_rtrancl)
  qed
qed simp

lemma runs_fetch_pruned:
  fixes E :: "'w env"
  shows "stays_in (runs E) (fetch_pruned E h)"
  unfolding stays_in_def
proof
  fix s :: "'w pstate"
  obtain rp s2 where gp: "get_peers E s = (rp, s2)" by fastforce
  note got = get_peers_steps [OF gp]
  show "runs E s (snd (fetch_pruned E h s))"
  proof (cases rp)
    case (Inl e)
    then show ?thesis using gp got by (simp add: fetch_pruned_def bind_res_def map_err_def runs_def)
  next
    case (Inr hs)
    obtain rb s3 where fp: "fetch_block_from_peers E h hs s2 = (rb, s3)" by fastforce
    have run: "runs E s s3"
      unfolding runs_def using got fetch_from_peers_steps [OF fp] Inr by (auto intro: rtranclp_trans)
    have "runs E s3 (s3\<lparr>cache := cache_insert (cache s3) h d\<rparr>)"
      if "rb = Some b" "encode_block (env_btc E) b = Inr d" for b d
      using that fetch_from_peers_steps [OF fp] by (intro runs_step atomic.keep) auto
    then have "runs E s (s3\<lparr>cache := cache_insert (cache s3) h d\<rparr>)"
      if "rb = Some b" "encode_block (env_btc E) b = Inr d" for b d
      using that run transpD [OF runs_preorder(2)] by blast
    then show ?thesis
      using gp Inr fp run
      by (auto simp: fetch_pruned_def bind_res_def map_err_def split: option.splits sum.splits)
  qed
qed

lemma runs_fetch_raw:
  fixes E :: "'w env"
  shows "stays_in (runs E) (fetch_block_raw E h)"
  unfolding stays_in_def
proof
  fix s :: "'w pstate"
  let ?m = "bind_res (fetch_block_from_self E h)
      (\<lambda>res. case res of Some b \<Rightarrow> return_ok (Some b) | None \<Rightarrow> fetch_pruned E h)"
  let ?s = "s\<lparr>cache := snd (cache_get (cache s) h)\<rparr>"
  have "stays_in (runs E) (fetch_block_from_self E h)"
    by (rule runs_of_sys) (metis prod.collapse stays_in_def sys_frame_fetch_self)
  then have "stays_in (runs E) ?m"
    by (intro runs_bind_res) (auto intro: runs_fetch_pruned runs_rules split: option.splits)
  then have "runs E ?s (snd (?m ?s))" by (simp add: stays_in_def)
  moreover have look: "runs E s ?s" by (intro runs_step atomic.look_up)
  ultimately have "runs E s (snd (?m ?s))" using transpD [OF runs_preorder(2)] by blast
  then show "runs E s (snd (fetch_block_raw E h s))"
    using look by (cases "cache_get (cache s) h") (auto simp: fetch_block_raw_def split: option.splits)
qed

lemma runs_authenticate: "stays_in (runs E) (authenticate E rq)"
  unfolding stays_in_def
proof
  show "runs E s (snd (authenticate E rq s))" for s
    using authenticate_state [of E rq s] runs_step [OF atomic.identify] reflpD [OF runs_preorder(1)] by metis
qed

interpretation run: request_effect E "runs E" for E :: "'w env"
proof unfold_locales
  fix s t u :: "'w pstate"
  show "runs E s s" by (rule reflpD [OF runs_preorder(1)])
  show "runs E s t \<Longrightarrow> runs E t u \<Longrightarrow> runs E s u" by (rule transpD [OF runs_preorder(2)])
qed (simp_all add: runs_sys runs_fetch_raw runs_authenticate)

lemma runs_refresh:
  fixes s :: "'w pstate"
  shows "runs E s (finish_refresh E s)"
proof (cases "refreshes s = 0")
  case False
  obtain r s1 where 1: "refresh_peers E (s\<lparr>refreshes := refreshes s - 1\<rparr>) = (r, s1)" by fastforce
  have "runs E s (s\<lparr>refreshes := refreshes s - 1\<rparr>)" by (intro runs_step atomic.end_refresh)
  then show ?thesis
    using False 1 refresh_runs(1) [OF 1] transpD [OF runs_preorder(2)] by (fastforce simp: finish_refresh_def)
qed (simp add: finish_refresh_def reflpD [OF runs_preorder(1)])

lemma machine_inv_fresh: "machine_inv E (fresh_state a us m w, {#})"
  by (simp add: machine_inv_def proxy_inv_fresh)

section \<open>Properties\<close>

text \<open>
  C5: requests refine the machine. Serving a request, whatever it asks and whatever the
  outside does, is a run of atomic steps that leaves alone what other requests hold; so is
  the end of a background refresh. Hence every state that requests served one after the other
  reach is one the machine reaches.
\<close>

theorem requests_are_runs:
  "(proxy_request E rq sched stage s = (r, s1) \<longrightarrow> steps E (s, held) (s1, held)) \<and>
   steps E (s, held) (finish_refresh E s, held) \<and>
   (serves E s rqs s2 \<longrightarrow> steps E (s, held) (s2, held))"
proof (intro conjI impI)
  have request: "proxy_request E rq sched stage s = (r, s1) \<Longrightarrow> runs E s s1" for rq sched stage s r s1
    by (rule stays_inD [OF run.R_proxy_request])
  show "proxy_request E rq sched stage s = (r, s1) \<Longrightarrow> steps E (s, held) (s1, held)"
    using request by (auto simp: runs_def)
  show "steps E (s, held) (finish_refresh E s, held)" using runs_refresh by (auto simp: runs_def)
  assume "serves E s rqs s2"
  then show "steps E (s, held) (s2, held)"
  proof (induction rule: serves.induct)
    case (served rqs t sched rq stage r t1)
    then show ?case using request by (auto simp: runs_def intro: rtranclp_trans)
  next
    case (refreshed rqs t)
    then show ?case using runs_refresh [of E t] by (auto simp: runs_def intro: rtranclp_trans)
  qed simp
qed

theorem requests_are_runs_witness:
  "\<exists>r s1. proxy_request (logged_env demo_proxy) demo_http (enumerate 0) NotBegun (demo_start ([], [])) = (r, s1) \<and>
     snd (world s1) = [demo_out] \<and> steps (logged_env demo_proxy) (demo_start ([], []), {#}) (s1, {#})"
proof -
  let ?s = "demo_start ([], [demo_out]) :: (raw_message list \<times> out_request list) pstate"
  obtain r where run: "proxy_request (logged_env demo_proxy) demo_http (enumerate 0) NotBegun (demo_start ([], [])) = (r, ?s)"
    using demo_forwarded [of "[]" "[]"] by auto
  then have "steps (logged_env demo_proxy) (demo_start ([], []), {#}) (?s, {#})"
    using requests_are_runs [of "logged_env demo_proxy" demo_http "enumerate 0" NotBegun "demo_start ([], [])" r ?s] by blast
  moreover have "snd (world ?s) = [demo_out]" by (simp add: demo_start_def fresh_state_def)
  ultimately show ?thesis using run by blast
qed

text \<open>
  C4: every interleaving is sound. From a fresh start, whatever requests and refreshes do
  their steps in whatever order, and whatever bitcoind, peers, files and clock do: no two
  peers share a channel; every idle connection, and every connection a request holds, was
  dialled at the address of the peer it is of; every cached block has the hash it is kept
  under and passed the merkle and the witness check; every user keeps exactly the permissions
  configured; the chain, once learned, is not learned again; the bound of the cache is the one
  configured, and if it and the blocks are of less than half the address space, the invariants
  of the cache hold and the blocks held are within it.
\<close>

theorem interleaved_states_are_sound:
  assumes "steps E (fresh_state a us m w, {#}) (s, held)"
  shows "distinct (map peer_chan (peer_list (current_peers s))) \<and>
    (\<forall>p\<in>set (peer_list (current_peers s)). \<forall>c. fmlookup (chans s) (peer_chan p) = Some (Some c) \<longrightarrow>
       (\<exists>np. network s = Some np \<and> dialled (stream_of c) = with_port np (peer_addr p))) \<and>
    (\<forall>h\<in>#held. \<forall>c. handle_conn h = Some c \<longrightarrow>
       (\<exists>np. network s = Some np \<and> dialled (stream_of c) = with_port np (handle_addr h))) \<and>
    (\<forall>h d. contents_of (cache s) h = Some d \<longrightarrow>
       (\<exists>b. encode_block (env_btc E) b = Inr d \<and> block_hash (env_btc E) b = h \<and>
          check_merkle_root (env_btc E) b \<and> check_witnesses (env_btc E) b)) \<and>
    same_users us (users_map s) \<and>
    (\<forall>s1 held1 np. steps E (s, held) (s1, held1) \<longrightarrow> network s = Some np \<longrightarrow> network s1 = Some np) \<and>
    max_bytes (cache s) = m \<and>
    (unat m \<le> 2 ^ 63 \<longrightarrow> (\<forall>b d. encode_block (env_btc E) b = Inr d \<longrightarrow> length d < 2 ^ 63) \<longrightarrow>
       check_invariants (cache s) \<and> held_bytes (inner (cache s)) \<le> unat m)"
proof -
  have inv: "machine_inv E (s, held)" by (rule machine_inv_steps [OF assms machine_inv_fresh])
  then have pool: "pool_inv s" and good: "cache.all_held (valid_bytes (env_btc E)) (cache s)"
    and handles: "\<And>h. h \<in># held \<Longrightarrow> handle_ok s h"
    by (simp_all add: machine_inv_def proxy_inv_def held_ok_def)
  note pr = progress_steps [OF assms]
  have max: "max_bytes (cache s) = m" and users: "same_users us (users_map s)"
    using pr by (simp_all add: progress_def fresh_state_def cache_new_def)
  have chain: "network s1 = Some np" if "steps E (s, held) (s1, held1)" "network s = Some np" for s1 held1 np
    using progress_steps [OF that(1)] that(2) by (simp add: progress_def)
  have valid: "\<exists>b. encode_block (env_btc E) b = Inr d \<and> block_hash (env_btc E) b = h \<and>
      check_merkle_root (env_btc E) b \<and> check_witnesses (env_btc E) b"
    if "contents_of (cache s) h = Some d" for h d
    using good that by (auto simp: cache.all_held_def valid_bytes_def valid_block_def)
  have conns: "\<exists>np. network s = Some np \<and> dialled (stream_of c) = with_port np (handle_addr h)"
    if "h \<in># held" "handle_conn h = Some c" for h c
    using handles [OF that(1)] that(2) by (simp add: handle_ok_def conn_for_def)
  have "check_invariants (cache s) \<and> held_bytes (inner (cache s)) \<le> unat m"
    if "unat m \<le> 2 ^ 63" "\<forall>b d. encode_block (env_btc E) b = Inr d \<longrightarrow> length d < 2 ^ 63"
  proof -
    have ci: "cache_inv (cache s)"
      using cache_inv_steps [OF assms] that by (simp add: fresh_state_def cache_inv_new) (simp add: cache_new_def)
    then show ?thesis using max cache_inv_bound [of "cache s"] by (simp add: cache_inv_check)
  qed
  then show ?thesis
    using pool max users chain valid conns by (simp add: pool_inv_def conn_for_def)
qed

theorem interleaved_states_are_sound_witness:
  "\<exists>s. steps (logged_env demo_proxy) (demo_start ([], []), {#}) (s, {#}) \<and> snd (world s) = [demo_out] \<and>
     fmdom (users_map s) = {|''alice''|} \<and> max_bytes (cache s) = 1048576"
proof -
  let ?s = "demo_start ([], [demo_out]) :: (raw_message list \<times> out_request list) pstate"
  have "runs (logged_env demo_proxy) (demo_start ([], [])) ?s"
    using stays_inD [OF run.R_proxy_request] demo_forwarded [of "[]" "[]"] by auto
  then have st: "steps (logged_env demo_proxy) (demo_start ([], []), {#}) (?s, {#})" by (simp add: runs_def)
  then have "max_bytes (cache ?s) = 1048576" "same_users demo_users (users_map ?s)"
    using interleaved_states_are_sound [of "logged_env demo_proxy" "AuthConst ''u'' ''p'' ''Basic u:p''" demo_users 1048576
        "([], [])" ?s "{#}"]
    by (simp_all add: demo_start_def)
  moreover have "snd (world ?s) = [demo_out]" by (simp add: demo_start_def fresh_state_def)
  ultimately show ?thesis using st by (auto simp: same_users_def demo_users_def)
qed

end
