(* ===== verification/Overlap.thy ===== *)
theory Overlap
  imports Interleaving
begin

text \<open>
  A block fetched while other requests run. \<open>fetch_block_raw\<close> waits for bitcoind, for the peer
  list and for each peer, and between these points any number of steps of other requests and
  refreshes may come. The relation \<open>fetching\<close> is that fetch, one rule for each way it may go, with
  such steps wherever it waits; the handles it holds meanwhile are beyond the reach of the others,
  who have their own. Within an exchange with a peer, a call to bitcoind or the reading of the
  peer list no steps of others are listed: of the outside nothing is assumed anyway, and the list
  and its channels may have changed just before and just after.

  The sequential fetch is the case in which nobody comes in between, every disturbed fetch is a
  run of the machine, and what it answers is as sound as when it runs alone.
\<close>

section \<open>Fetching with others in between\<close>

inductive trying :: "'w env \<Rightarrow> blockhash \<Rightarrow> peer_handle list \<Rightarrow> 'w machine \<Rightarrow> block option \<Rightarrow> 'w machine \<Rightarrow> bool"
  for E h where
  nobody: "trying E h [] m None m"
| refused: "steps E m (s, fl) \<Longrightarrow> handle_connect E p s = (Inl e, s1) \<Longrightarrow> trying E h ps (s1, fl) r m1 \<Longrightarrow>
    trying E h (p # ps) m r m1"
| failed: "steps E m (s, fl) \<Longrightarrow> handle_connect E p s = (Inr rc, s1) \<Longrightarrow> steps E (s1, fl) (s2, fl2) \<Longrightarrow>
    fetch_block_from_peer E h rc s2 = (Inl e, s3) \<Longrightarrow> trying E h ps (s3, fl2) r m1 \<Longrightarrow>
    trying E h (p # ps) m r m1"
| received: "steps E m (s, fl) \<Longrightarrow> handle_connect E p s = (Inr rc, s1) \<Longrightarrow> steps E (s1, fl) (s2, fl2) \<Longrightarrow>
    fetch_block_from_peer E h rc s2 = (Inr (b, rc1), s3) \<Longrightarrow> steps E (s3, fl2) (s4, fl4) \<Longrightarrow>
    trying E h (p # ps) m (Some b) (recycle rc1 s4, fl4)"

text \<open>The cache does not hold the block, and bitcoind's own answer is \<open>r\<close>.\<close>

inductive missing :: "'w env \<Rightarrow> blockhash \<Rightarrow> 'w machine \<Rightarrow> rpc_error + bytes option \<Rightarrow> 'w machine \<Rightarrow> bool"
  for E h where
  "steps E m (s, fl) \<Longrightarrow> cache_get (cache s) h = (None, c) \<Longrightarrow> steps E (s\<lparr>cache := c\<rparr>, fl) (s1, fl1) \<Longrightarrow>
   fetch_block_from_self E h s1 = (r, s2) \<Longrightarrow> steps E (s2, fl1) m1 \<Longrightarrow> missing E h m r m1"

inductive fetching :: "'w env \<Rightarrow> blockhash \<Rightarrow> 'w machine \<Rightarrow> rpc_error + bytes option \<Rightarrow> 'w machine \<Rightarrow> bool"
  for E h where
  cached: "steps E m (s, fl) \<Longrightarrow> cache_get (cache s) h = (Some d, c) \<Longrightarrow>
    fetching E h m (Inr (Some d)) (s\<lparr>cache := c\<rparr>, fl)"
| own: "missing E h m r m1 \<Longrightarrow> r \<noteq> Inr None \<Longrightarrow> fetching E h m r m1"
| no_list: "missing E h m (Inr None) (s, fl) \<Longrightarrow> get_peers E s = (Inl e, s1) \<Longrightarrow>
    fetching E h m (Inl (rpc_error_of_anyhow (env_show_update E e))) (s1, fl)"
| not_found: "missing E h m (Inr None) (s, fl) \<Longrightarrow> get_peers E s = (Inr hs, s1) \<Longrightarrow>
    trying E h hs (s1, fl) None m1 \<Longrightarrow> fetching E h m (Inr None) m1"
| not_encoded: "missing E h m (Inr None) (s, fl) \<Longrightarrow> get_peers E s = (Inr hs, s1) \<Longrightarrow>
    trying E h hs (s1, fl) (Some b) m1 \<Longrightarrow> encode_block (env_btc E) b = Inl e \<Longrightarrow>
    fetching E h m (Inl (rpc_error_of_anyhow e)) m1"
| found: "missing E h m (Inr None) (s, fl) \<Longrightarrow> get_peers E s = (Inr hs, s1) \<Longrightarrow>
    trying E h hs (s1, fl) (Some b) m1 \<Longrightarrow> encode_block (env_btc E) b = Inr d \<Longrightarrow>
    steps E m1 (s2, fl2) \<Longrightarrow> fetching E h m (Inr (Some d)) (s2\<lparr>cache := cache_insert (cache s2) h d\<rparr>, fl2)"

section \<open>Library lemmas\<close>

text \<open>What others hold does not matter to a step.\<close>

lemma atomic_frame:
  assumes "atomic E m m1"
  shows "atomic E (fst m, mine + snd m) (fst m1, mine + snd m1)"
  using assms by cases (auto intro: atomic.intros simp del: One_nat_def)

lemma steps_frame:
  assumes "steps E (s, fl) (s1, fl1)"
  shows "steps E (s, mine + fl) (s1, mine + fl1)"
proof -
  have "steps E (fst m, mine + snd m) (fst m1, mine + snd m1)" if "steps E m m1" for m m1
    using that by (induction rule: rtranclp_induct) (auto intro: rtranclp.rtrancl_into_rtrancl atomic_frame)
  from this [OF assms] show ?thesis by simp
qed

lemma steps_frame1: "steps E (s, fl) (s1, fl1) \<Longrightarrow> steps E (s, add_mset p fl) (s1, add_mset p fl1)"
  using steps_frame [of E s fl s1 fl1 "{#p#}"] by simp

lemma trying_steps:
  assumes "trying E h ps m r m1"
  shows "steps E (fst m, mset ps + snd m) m1 \<and> (\<forall>b. r = Some b \<longrightarrow> valid_block (env_btc E) h b)"
  using assms
proof (induction rule: trying.induct)
  case (nobody m)
  then show ?case by (cases m) simp
next
  case (refused m s fl p e s1 ps r m1)
  have "steps E (s, add_mset p (mset ps + fl)) (s1, mset ps + fl)"
    using handle_connect_steps [OF refused(2), of "mset ps + fl"] by simp
  moreover have "steps E (fst m, mset (p # ps) + snd m) (s, mset (p # ps) + fl)"
    using refused(1) by (intro steps_frame) simp
  ultimately show ?case using refused.IH by (auto intro: rtranclp_trans)
next
  case (failed m s fl p rc s1 s2 fl2 e s3 ps r m1)
  let ?p = "p\<lparr>handle_conn := Some (rc_conn rc)\<rparr>"
  have "steps E (fst m, mset (p # ps) + snd m) (s, mset (p # ps) + fl)"
    using failed(1) by (intro steps_frame) simp
  moreover have "steps E (s, mset (p # ps) + fl) (s1, add_mset ?p (mset ps + fl))"
    using handle_connect_steps [OF failed(2), of "mset ps + fl"] by simp
  moreover have "steps E (s1, add_mset ?p (mset ps + fl)) (s2, add_mset ?p (mset ps + fl2))"
    using failed(3) by (intro steps_frame1 steps_frame)
  moreover have "steps E (s2, add_mset ?p (mset ps + fl2)) (s3, mset ps + fl2)"
    by (rule handle_dropped [OF stays_inD [OF runs_exchange failed(4)]])
  ultimately show ?case using failed.IH by (auto intro: rtranclp_trans)
next
  case (received m s fl p rc s1 s2 fl2 b rc1 s3 s4 fl4 ps)
  let ?p = "p\<lparr>handle_conn := Some (rc_conn rc)\<rparr>"
  have ex: "rc1 = rc" "valid_block (env_btc E) h b" using exchange_valid [OF received(4)] by simp_all
  have "steps E (fst m, mset (p # ps) + snd m) (s, mset (p # ps) + fl)"
    using received(1) by (intro steps_frame) simp
  moreover have opened: "steps E (s, mset (p # ps) + fl) (s1, add_mset ?p (mset ps + fl))" "rc_send rc = handle_send p"
    using handle_connect_steps [OF received(2), of "mset ps + fl"] by simp_all
  moreover have "steps E (s1, add_mset ?p (mset ps + fl)) (s2, add_mset ?p (mset ps + fl2))"
    using received(3) by (intro steps_frame1 steps_frame)
  moreover have "steps E (s2, add_mset ?p (mset ps + fl2)) (s3, add_mset ?p (mset ps + fl2))"
    using stays_inD [OF runs_exchange received(4)] by (simp add: runs_def)
  moreover have "steps E (s3, add_mset ?p (mset ps + fl2)) (s4, add_mset ?p (mset ps + fl4))"
    using received(5) by (intro steps_frame1 steps_frame)
  moreover have "atomic E (s4, add_mset ?p (mset ps + fl4)) (recycle rc1 s4, mset ps + fl4)"
    using atomic.put_back [of ?p "rc_conn rc" E s4 "mset ps + fl4"] opened(2) ex(1) by (cases rc) simp
  ultimately show ?case
    using ex(2) let_all_go [of E "recycle rc1 s4" ps fl4] by (auto intro: rtranclp_trans r_into_rtranclp)
qed

lemma missing_steps: "missing E h m r m1 \<Longrightarrow> steps E m m1"
proof (induction rule: missing.induct)
  case (1 m s fl c s1 fl1 r s2 m1)
  have "steps E (s, fl) (s\<lparr>cache := c\<rparr>, fl)"
    using atomic.look_up [of E s fl h] 1(2) by simp
  moreover have "steps E (s1, fl1) (s2, fl1)"
    using runs_sys [OF sys_frame_fetch_self [OF 1(4)]] by (simp add: runs_def)
  ultimately show ?case using 1(1,3,5) by (meson rtranclp_trans)
qed

lemma searching_steps:
  assumes "missing E h m r (s, fl)" and "get_peers E s = (Inr hs, s1)" and "trying E h hs (s1, fl) rb m1"
  shows "steps E m m1"
proof -
  have "steps E (s, fl) (s1, mset hs + fl)" using get_peers_steps [OF assms(2)] by simp
  then show ?thesis
    using missing_steps [OF assms(1)] trying_steps [OF assms(3)] by (metis fst_conv snd_conv rtranclp_trans)
qed

lemma fetching_steps: "fetching E h m r m1 \<Longrightarrow> steps E m m1"
proof (induction rule: fetching.induct)
  case (cached m s fl d c)
  then show ?case using atomic.look_up [of E s fl h] by (auto intro: rtranclp.rtrancl_into_rtrancl)
next
  case (no_list m s fl e s1)
  have "steps E (s, fl) (s1, fl)" using get_peers_steps [OF no_list(2), of fl] by simp
  with missing_steps [OF no_list(1)] show ?case by (rule rtranclp_trans)
next
  case (found m s fl hs s1 b m1 d s2 fl2)
  have "atomic E (s2, fl2) (s2\<lparr>cache := cache_insert (cache s2) h d\<rparr>, fl2)"
    using trying_steps [OF found(3)] found(4) by (intro atomic.keep) auto
  then show ?case
    using searching_steps [OF found(1-3)] found(5) by (meson rtranclp.rtrancl_into_rtrancl rtranclp_trans)
qed (auto intro: missing_steps searching_steps)

lemma missing_own:
  assumes "missing E h m (Inr (Some d)) m1"
  shows "\<exists>t fl t1. steps E m (t, fl) \<and> local_answer E h t = (Inr (Left d), t1)"
  using assms
proof cases
  case (1 s fl c s1 fl1 s2)
  have "steps E (s, fl) (s\<lparr>cache := c\<rparr>, fl)" using atomic.look_up [of E s fl h] 1(2) by simp
  then have "steps E m (s1, fl1)" using 1(1,3) by (meson rtranclp_trans)
  then show ?thesis using fetch_self_Some [OF 1(4)] by blast
qed

lemma fetching_trusted:
  assumes "fetching E h m (Inr (Some d)) m1" and "machine_inv E m"
  shows "valid_bytes (env_btc E) h d \<or> (\<exists>t fl t1. steps E m (t, fl) \<and> local_answer E h t = (Inr (Left d), t1))"
  using assms(1)
proof cases
  case (cached s fl c)
  have "cache.all_held (valid_bytes (env_btc E)) (cache s)"
    using machine_inv_steps [OF cached(2) assms(2)] by (simp add: machine_inv_def proxy_inv_def)
  then show ?thesis using cache.lookup_held [of "valid_bytes (env_btc E)" "cache s" h d] cached(3) by simp
next
  case own
  then show ?thesis using missing_own by blast
next
  case (found s fl hs s1 b m2 s2 fl2)
  then show ?thesis using trying_steps [OF found(4)] by (auto simp: valid_bytes_def)
qed

text \<open>Nobody in between.\<close>

lemma trying_alone: "fetch_block_from_peers E h ps s = (r, s1) \<Longrightarrow> trying E h ps (s, fl) r (s1, fl)"
proof (induction ps arbitrary: s)
  case Nil
  then show ?case by (auto intro: trying.nobody)
next
  case (Cons p ps)
  obtain rc s2 where hc: "handle_connect E p s = (rc, s2)" by fastforce
  show ?case
  proof (cases rc)
    case (Inl e)
    then show ?thesis
      using Cons hc by (intro trying.refused [where s = s and fl = fl]) (auto simp: try_peer_def bind_res_def)
  next
    case (Inr c)
    obtain rb s3 where ex: "fetch_block_from_peer E h c s2 = (rb, s3)" by fastforce
    then have tp: "try_peer E h p s = (rb, s3)" using hc Inr by (simp add: try_peer_def bind_res_def)
    show ?thesis
    proof (cases rb)
      case (Inl e)
      then show ?thesis
        using Cons hc Inr ex tp
        by (intro trying.failed [where s = s and fl = fl and ?s2.0 = s2 and ?fl2.0 = fl and rc = c]) auto
    next
      case r: (Inr br)
      obtain b rc1 where br: "br = (b, rc1)" by fastforce
      have "trying E h (p # ps) (s, fl) (Some b) (recycle rc1 s3, fl)"
        using hc Inr ex r br
        by (intro trying.received [where s = s and fl = fl and ?s2.0 = s2 and ?fl2.0 = fl and rc = c]) auto
      then show ?thesis using Cons.prems tp r br by simp
    qed
  qed
qed

lemma fetch_pruned_alone:
  assumes miss: "missing E h m (Inr None) (s, fl)" and run: "fetch_pruned E h s = (r, s1)"
  shows "fetching E h m r (s1, fl)"
proof -
  obtain rp s2 where gp: "get_peers E s = (rp, s2)" by fastforce
  show ?thesis
  proof (cases rp)
    case (Inl e)
    then show ?thesis
      using run gp fetching.no_list [OF miss] by (auto simp: fetch_pruned_def bind_res_def map_err_def)
  next
    case (Inr hs)
    obtain rb s3 where fp: "fetch_block_from_peers E h hs s2 = (rb, s3)" by fastforce
    have tried: "trying E h hs (s2, fl) rb (s3, fl)" using fp by (rule trying_alone)
    show ?thesis
    proof (cases rb)
      case None
      then show ?thesis
        using run gp Inr fp fetching.not_found [OF miss _ tried [unfolded None]]
        by (auto simp: fetch_pruned_def bind_res_def map_err_def)
    next
      case (Some b)
      then show ?thesis
        using run gp Inr fp fetching.not_encoded [OF miss _ tried [unfolded Some]]
          fetching.found [OF miss _ tried [unfolded Some] _ rtranclp.rtrancl_refl]
        by (cases "encode_block (env_btc E) b") (auto simp: fetch_pruned_def bind_res_def map_err_def)
    qed
  qed
qed

lemma fetching_alone:
  assumes "fetch_block_raw E h s = (r, s1)"
  shows "fetching E h (s, fl) r (s1, fl)"
proof -
  obtain hit c where get: "cache_get (cache s) h = (hit, c)" by fastforce
  show ?thesis
  proof (cases hit)
    case (Some d)
    then show ?thesis using assms get by (auto simp: fetch_block_raw_def intro!: fetching.cached)
  next
    case None
    obtain ro s2 where own: "fetch_block_from_self E h (s\<lparr>cache := c\<rparr>) = (ro, s2)" by fastforce
    have miss: "missing E h (s, fl) ro (s2, fl)"
      using get None own by (intro missing.intros [where s = s and fl = fl and c = c and ?fl1.0 = fl]) auto
    show ?thesis
    proof (cases "ro = Inr None")
      case False
      then have "r = ro" "s1 = s2"
        using assms get None own
        by (auto simp: fetch_block_raw_def bind_res_def return_ok_def split: sum.splits option.splits)
      then show ?thesis using miss False by (simp add: fetching.own)
    next
      case True
      then have p: "fetch_pruned E h s2 = (r, s1)"
        using assms get None own by (simp add: fetch_block_raw_def bind_res_def)
      show ?thesis using fetch_pruned_alone [OF miss [unfolded True] p] .
    qed
  qed
qed

section \<open>Properties\<close>

text \<open>
  C6: blocks are sound however requests overlap. In every state that any interleaving of
  requests and refreshes reaches, a fetch that is disturbed wherever it waits by any steps of the
  others still answers only with bitcoind's own answer, given while it was under way, or with the
  serialization of a block of that hash that passes the merkle and the witness check; it is
  itself a run of the machine, so that everything that holds of every interleaving goes on to
  hold; and the fetch that runs alone is the one nobody disturbs.
\<close>

theorem overlapping_fetches_are_sound:
  assumes "steps E (fresh_state a us m w, {#}) (s, held)"
  shows "(fetching E h (s, held) r (s1, held1) \<longrightarrow> steps E (s, held) (s1, held1) \<and>
      (\<forall>d. r = Inr (Some d) \<longrightarrow>
         (\<exists>b. encode_block (env_btc E) b = Inr d \<and> block_hash (env_btc E) b = h \<and>
            check_merkle_root (env_btc E) b \<and> check_witnesses (env_btc E) b) \<or>
         (\<exists>t fl t1. steps E (s, held) (t, fl) \<and> local_answer E h t = (Inr (Left d), t1)))) \<and>
    (fetch_block_raw E h s = (r, s1) \<longrightarrow> fetching E h (s, held) r (s1, held))"
proof -
  have inv: "machine_inv E (s, held)" by (rule machine_inv_steps [OF assms machine_inv_fresh])
  have "(\<exists>b. encode_block (env_btc E) b = Inr d \<and> block_hash (env_btc E) b = h \<and>
        check_merkle_root (env_btc E) b \<and> check_witnesses (env_btc E) b) \<or>
      (\<exists>t fl t1. steps E (s, held) (t, fl) \<and> local_answer E h t = (Inr (Left d), t1))"
    if "fetching E h (s, held) (Inr (Some d)) (s1, held1)" for d
    using fetching_trusted [OF that inv] by (simp only: valid_bytes_def valid_block_def) blast
  then show ?thesis
    using fetching_steps [of E h "(s, held)" r "(s1, held1)"] fetching_alone [of E h s r s1 held] by blast
qed

theorem overlapping_fetches_are_sound_witness:
  "\<exists>s1. fetching (demo_env demo_answers) [9] (demo_state demo_messages, {#}) (Inr (Some [9])) (s1, {#}) \<and>
     steps (demo_env demo_answers) (demo_state demo_messages, {#}) (s1, {#})"
proof -
  have "demo_state demo_messages = fresh_state (AuthConst ''u'' ''p'' ''Basic x'') demo_users 1000 demo_messages"
    by (simp add: demo_state_def fresh_state_def)
  then have "steps (demo_env demo_answers) (fresh_state (AuthConst ''u'' ''p'' ''Basic x'') demo_users 1000 demo_messages, {#})
      (demo_state demo_messages, {#})" by simp
  from overlapping_fetches_are_sound [OF this] show ?thesis using demo_fetch by blast
qed

end
