(* ===== verification/Fetch_Liveness.thy ===== *)
theory Fetch_Liveness
  imports Peer_Fetch
begin

text \<open>
  When a block is found. A peer is honest if its socket takes what is written to it and
  delivers the block asked for within the messages the deadline leaves room for, whatever has
  happened before. One such peer in the list is enough: the peers before it may fail in any
  way, and the fetch still ends with a valid block.
\<close>

section \<open>Operations that work\<close>

text \<open>An operation that succeeds once the chain is known, with a result that satisfies \<open>Q\<close>.\<close>

definition works :: "network_params \<Rightarrow> ('a \<Rightarrow> bool) \<Rightarrow> ('w pstate \<Rightarrow> ('e + 'a) \<times> 'w pstate) \<Rightarrow> bool" where
  "works np Q m \<longleftrightarrow> (\<forall>s. network s = Some np \<longrightarrow> (\<exists>x s1. m s = (Inr x, s1) \<and> Q x \<and> network s1 = Some np))"

lemma works_bind_res: "works np Q m \<Longrightarrow> (\<And>x. Q x \<Longrightarrow> works np R (f x)) \<Longrightarrow> works np R (bind_res m f)"
  unfolding works_def bind_res_def by fastforce

lemma works_then: "works np (\<lambda>x. True) m \<Longrightarrow> (\<And>x. works np R (f x)) \<Longrightarrow> works np R (bind_res m f)"
  by (rule works_bind_res)

lemma works_return: "Q x \<Longrightarrow> works np Q (return_ok x)"
  by (simp add: works_def return_ok_def)

lemma works_params: "works np (\<lambda>x. x = np) (map_err f (network_params_of E))"
  by (simp add: works_def map_err_def network_params_of_def)

lemma works_io:
  assumes "\<forall>w. \<exists>x w1. f w = (Inr x, w1) \<and> Q x"
  shows "works np Q (io f)"
  unfolding works_def
proof (intro allI impI)
  fix s :: "'a pstate"
  assume "network s = Some np"
  moreover obtain x w1 where "f (world s) = (Inr x, w1)" "Q x" using assms by blast
  ultimately show "\<exists>x s1. io f s = (Inr x, s1) \<and> Q x \<and> network s1 = Some np"
    by (simp add: io_def map_err_def on_world_def)
qed

lemmas works_rules = works_bind_res works_return works_params works_io

section \<open>Honest peers\<close>

text \<open>How the socket of a route is opened.\<close>

fun dial :: "'w p2p \<Rightarrow> route \<Rightarrow> 'w \<Rightarrow> (io_failure + nat) \<times> 'w" where
  "dial P (DialDirect addr) = tcp_connect P addr"
| "dial P (DialProxied proxy addr) = socks_connect P proxy addr"

definition honest_socket :: "'w env \<Rightarrow> network_params \<Rightarrow> blockhash \<Rightarrow> nat \<Rightarrow> bool" where
  "honest_socket E np h k \<longleftrightarrow>
     (\<forall>w m. \<exists>w1. write_msg (env_p2p E) k m w = (Inr (), w1)) \<and>
     (\<forall>w. \<exists>w1. flush_stream (env_p2p E) k w = (Inr (), w1)) \<and>
     (\<forall>w. \<exists>m w1. read_msg (env_p2p E) k w = (Inr m, w1)) \<and>
     (\<forall>w. \<exists>b n w1. delivers (env_p2p E) (magic np) k b n w w1 \<and> n < env_patience E \<and> valid_block (env_btc E) h b)"

definition honest_peer :: "'w env \<Rightarrow> network_params \<Rightarrow> blockhash \<Rightarrow> peer_handle \<Rightarrow> bool" where
  "honest_peer E np h p \<longleftrightarrow>
     (case handle_conn p of
        Some c \<Rightarrow> honest_socket E np h (socket (stream_of c))
      | None \<Rightarrow>
          \<exists>r. choose_route (env_tor E) (env_i2p_proxy E) (with_port np (handle_addr p)) = Inr r \<and>
            (\<forall>w. \<exists>k w1. dial (env_p2p E) r w = (Inr k, w1) \<and> honest_socket E np h k))"

lemma works_receive_block:
  assumes "honest_socket E np h k"
  shows "works np (valid_block (env_btc E) h) (receive_block E (magic np) h k (env_patience E))"
  unfolding works_def
proof (intro allI impI)
  fix s :: "'a pstate"
  assume s: "network s = Some np"
  obtain b n w1 where d: "delivers (env_p2p E) (magic np) k b n (world s) w1" "n < env_patience E"
    and b: "valid_block (env_btc E) h b"
    using assms unfolding honest_socket_def by blast
  have "judge (env_btc E) h b = Inr b" using b by (simp add: judge_Inr_iff)
  then show "\<exists>x s1. receive_block E (magic np) h k (env_patience E) s = (Inr x, s1) \<and>
      valid_block (env_btc E) h x \<and> network s1 = Some np"
    using receive_block_delivers [OF d, of h s] s b by simp
qed

lemma works_handshake:
  assumes "honest_socket E np h k"
  shows "works np (\<lambda>x. True) (handshake E (magic np) k)"
proof -
  have io: "works np (\<lambda>x. True) (io (write_msg (env_p2p E) k m))" "works np (\<lambda>x. True) (io (flush_stream (env_p2p E) k))"
    "works np (\<lambda>x. True) (io (read_msg (env_p2p E) k))" for m
    using assms by (auto simp: honest_socket_def intro!: works_io)
  have "works np (\<lambda>x. True)
      (bind_res (io (write_msg (env_p2p E) k (version_message (magic np) secs))) (\<lambda>_.
       bind_res (io (flush_stream (env_p2p E) k)) (\<lambda>_.
       bind_res (io (read_msg (env_p2p E) k)) (\<lambda>_.
       bind_res (io (read_msg (env_p2p E) k)) (\<lambda>_.
       bind_res (io (write_msg (env_p2p E) k (ver_ack (magic np)))) (\<lambda>_.
       io (flush_stream (env_p2p E) k)))))))" for secs
    by (intro works_then io)
  then show ?thesis
    unfolding works_def handshake_def on_world_def by (auto split: prod.splits)
qed

lemma works_set_nodelay: "works np (\<lambda>x. True) (set_nodelay E c)"
  unfolding works_def
proof (intro allI impI)
  fix s :: "'a pstate"
  assume "network s = Some np"
  then show "\<exists>x s1. set_nodelay E c s = (Inr x, s1) \<and> True \<and> network s1 = Some np"
    by (simp add: set_nodelay_def on_world_def split: prod.splits)
qed

lemma works_open_stream:
  assumes "\<forall>w. \<exists>k w1. dial (env_p2p E) r w = (Inr k, w1) \<and> Q k"
  shows "works np (\<lambda>c. Q (socket (stream_of c))) (open_stream E r)"
  using assms by (cases r) (auto intro!: works_bind_res [OF works_io [where Q = Q]] works_return)

lemma works_try_peer:
  assumes "honest_peer E np h p"
  shows "works np (\<lambda>(b, rc). valid_block (env_btc E) h b) (try_peer E h p)"
proof -
  let ?honest = "\<lambda>c. honest_socket E np h (socket (stream_of c))"
  have "works np (\<lambda>rc. ?honest (rc_conn rc)) (handle_connect E p)"
  proof (cases "handle_conn p")
    case (Some c)
    then show ?thesis using assms by (simp add: handle_connect_def honest_peer_def works_return)
  next
    case None
    then obtain r where r: "choose_route (env_tor E) (env_i2p_proxy E) (with_port np (handle_addr p)) = Inr r"
      and dial: "\<forall>w. \<exists>k w1. dial (env_p2p E) r w = (Inr k, w1) \<and> honest_socket E np h k"
      using assms by (auto simp: honest_peer_def)
    have "works np ?honest (connect E (handle_addr p))"
      unfolding connect_def
      by (rule works_bind_res [OF works_params])
        (auto simp: r intro!: works_bind_res [OF works_open_stream [OF dial]] works_return
          works_then [OF works_set_nodelay] works_then [OF works_handshake])
    then show ?thesis
      unfolding handle_connect_def None by (auto intro!: works_bind_res [where Q = ?honest] works_return)
  qed
  moreover have "works np (\<lambda>(b, rc). valid_block (env_btc E) h b) (fetch_block_from_peer E h rc)"
    if "?honest (rc_conn rc)" for rc
    unfolding fetch_block_from_peer_def
    using that works_receive_block [OF that]
    by (auto simp: honest_socket_def intro!: works_bind_res [OF works_params]
        works_bind_res [OF works_io [where Q = "\<lambda>x. True"]]
        works_bind_res [where Q = "valid_block (env_btc E) h"] works_return)
  ultimately show ?thesis unfolding try_peer_def by (rule works_bind_res)
qed

lemma fetch_from_peers_valid:
  "fetch_block_from_peers E h ps s = (Some b, s1) \<Longrightarrow> valid_block (env_btc E) h b"
proof (induction ps arbitrary: s)
  case (Cons p ps)
  then show ?case
    by (auto simp: try_peer_def fetch_block_from_peer_def bind_res_Inr_iff split: prod.splits sum.splits
        dest: receive_block_valid)
qed simp

lemma fetch_from_peers_finds:
  "p \<in> set ps \<Longrightarrow> honest_peer E np h p \<Longrightarrow> network s = Some np \<Longrightarrow>
   \<exists>b s1. fetch_block_from_peers E h ps s = (Some b, s1) \<and> valid_block (env_btc E) h b"
proof (induction ps arbitrary: s)
  case (Cons q ps)
  obtain r s2 where q: "try_peer E h q s = (r, s2)" by fastforce
  show ?case
  proof (cases r)
    case (Inr br)
    obtain rb s3 where walk: "fetch_block_from_peers E h (q # ps) s = (rb, s3)" by fastforce
    then obtain b where "rb = Some b" using q Inr by (cases br) auto
    with walk show ?thesis using fetch_from_peers_valid [of E h "q # ps" s b s3] by simp
  next
    case (Inl e)
    have "q \<noteq> p" using works_try_peer [OF Cons.prems(2)] q Inl Cons.prems(3) by (auto simp: works_def)
    moreover have "network s2 = Some np"
      using stays_inD [OF quiet_frame_try_peer q] Cons.prems(3) by (simp add: quiet_frame_def peer_frame_def)
    ultimately show ?thesis using Cons.IH [of s2] Cons.prems q Inl by simp
  qed
qed simp

section \<open>Properties\<close>

text \<open>
  C18: one honest peer is enough. When the cache does not hold a block and bitcoind has pruned
  it, and the chain is known, a single honest peer anywhere in the list makes the fetch end
  with the serialization of a valid block of that hash, however the other peers behave:
  connections refused, garbage, blocks that fail a check, silence until the deadline.
\<close>

theorem one_honest_peer_is_enough:
  assumes "fst (cache_get (cache s) h) = None" and "fetch_block_from_self E h s = (Inr None, s1)"
    and "get_peers E s1 = (Inr hs, s2)" and "network s2 = Some np" and "p \<in> set hs" and "honest_peer E np h p"
    and "\<forall>b. \<exists>d. encode_block (env_btc E) b = Inr d"
  shows "\<exists>b d s3. fetch_block_raw E h s = (Inr (Some d), s3) \<and> valid_block (env_btc E) h b \<and>
    encode_block (env_btc E) b = Inr d"
proof -
  obtain b s3 where "fetch_block_from_peers E h hs s2 = (Some b, s3)" "valid_block (env_btc E) h b"
    using fetch_from_peers_finds assms(4-6) by blast
  moreover obtain d where "encode_block (env_btc E) b = Inr d" using assms(7) by blast
  ultimately show ?thesis
    using assms(2,3) by (auto simp: fetch_block_raw_miss [OF assms(1)] fetch_pruned_def bind_res_def map_err_def)
qed

definition honest_env :: "raw_message list env" where
  "honest_env = (demo_env demo_answers)\<lparr>env_p2p := demo_p2p\<lparr>read_msg :=
     \<lambda>k w. (Inr \<lparr>msg_magic = 0xD9B4BEF9, msg_payload = BlockMsg demo_block\<rparr>, w)\<rparr>\<rparr>"

lemma honest_env_simps:
  "env_btc honest_env = demo_btc" "env_tor honest_env = env_tor (demo_env demo_answers)"
  "env_i2p_proxy honest_env = env_i2p_proxy (demo_env demo_answers)"
  "env_patience honest_env = 4"
  "tcp_connect (env_p2p honest_env) = tcp_connect demo_p2p"
  "write_msg (env_p2p honest_env) = write_msg demo_p2p"
  "flush_stream (env_p2p honest_env) = flush_stream demo_p2p"
  "instant_now (env_p2p honest_env) = instant_now demo_p2p"
  "read_msg (env_p2p honest_env) k w = (Inr \<lparr>msg_magic = 0xD9B4BEF9, msg_payload = BlockMsg demo_block\<rparr>, w)"
  by (simp_all add: honest_env_def demo_env_def)

lemma honest_env_self: "fetch_block_from_self honest_env h s = fetch_block_from_self (demo_env demo_answers) h s"
proof -
  have "env_lib honest_env = env_lib (demo_env demo_answers)" "env_net honest_env = env_net (demo_env demo_answers)"
    "env_uri honest_env = env_uri (demo_env demo_answers)" "env_text honest_env = env_text (demo_env demo_answers)"
    by (simp_all add: honest_env_def)
  then show ?thesis by (simp only: fetch_block_from_self_def own_call_def)
qed

lemma honest_env_peer:
  "honest_peer honest_env demo_np [9] \<lparr>handle_addr = ''p:1'', handle_conn = None, handle_send = 0\<rparr>"
proof -
  have "delivers (env_p2p honest_env) (magic demo_np) k demo_block 0 w w" for k w
    by (rule delivers.now [OF honest_env_simps(9)]) simp
  moreover have "valid_block demo_btc [9] demo_block"
    using demo_block_ok by (simp add: valid_block_def) (simp add: demo_btc_def demo_block_def demo_header_def)
  ultimately have "\<exists>b n w1. delivers (env_p2p honest_env) (magic demo_np) k b n w w1 \<and>
      n < env_patience honest_env \<and> valid_block (env_btc honest_env) [9] b" for k w
    unfolding honest_env_simps by fastforce
  then have "honest_socket honest_env demo_np [9] k" for k
    unfolding honest_socket_def by (simp add: honest_env_simps) (simp add: demo_p2p_def)
  moreover have "choose_route (env_tor honest_env) (env_i2p_proxy honest_env) (with_port demo_np ''p:1'') =
      Inr (DialDirect ''p:1'')"
    unfolding honest_env_simps
    by (simp add: with_port_def choose_route_def host_of_def rsplit_once_def ends_with_def starts_with_def
        demo_env_def)
  ultimately show ?thesis
    by (simp add: honest_peer_def honest_env_simps) (simp add: demo_p2p_def)
qed

theorem one_honest_peer_is_enough_witness:
  "\<exists>b d s3. fetch_block_raw honest_env [9] (demo_listed\<lparr>network := Some demo_np\<rparr>) = (Inr (Some d), s3) \<and>
     valid_block demo_btc [9] b \<and> encode_block demo_btc b = Inr d"
proof -
  let ?s = "demo_listed\<lparr>network := Some demo_np\<rparr>"
  let ?p = "\<lparr>handle_addr = ''p:1'', handle_conn = None, handle_send = 0\<rparr>"
  have a: "auth ?s = AuthConst ''u'' ''p'' ''Basic x''" by (simp add: demo_listed_def demo_state_def)
  have miss: "fst (cache_get (cache ?s) [9]) = None"
    using demo_miss [of demo_messages "[9]"] by (simp add: demo_listed_def)
  have self: "fetch_block_from_self honest_env [9] ?s = (Inr None, ?s)"
    using demo_pruned [OF a, of "[9]"]
    unfolding honest_env_self by (simp add: fetch_block_from_self_def MISC_ERROR_CODE_def)
  have peers: "get_peers honest_env ?s = (Inr [?p], ?s)"
    by (simp add: get_peers_def honest_env_simps on_world_def stale_def demo_p2p_def demo_listed_def
        peer_handle_of_def)
  have "\<forall>b. \<exists>d. encode_block (env_btc honest_env) b = Inr d"
    unfolding honest_env_simps by (simp add: demo_btc_def)
  with one_honest_peer_is_enough [OF miss self peers _ _ honest_env_peer] show ?thesis
    by (simp add: honest_env_simps)
qed

end
