(* ===== verification/Cache_Tests.thy ===== *)
theory Cache_Tests
  imports Block_Cache
begin

text \<open>
  The unit tests of \<open>src/block_cache.rs\<close>, each a predicate on the model made of the same
  operations and the same assertions, and the lemma that it holds. A test that loops is stated
  for the rounds it runs; the one with threads is stated for the order in which the lock lets
  them in, and holds for every order.
\<close>

section \<open>Tests\<close>

definition test_hash :: "u8 \<Rightarrow> blockhash" where
  "test_hash n = n # replicate 31 0"

definition test_block :: "nat \<Rightarrow> bytes" where
  "test_block n = replicate n 0"

definition a_stored_block_comes_back :: bool where
  "a_stored_block_comes_back =
     (let cache = cache_insert (cache_new 1024) (test_hash 1) (test_block 100);
          (found, cache) = cache_get cache (test_hash 1);
          (other, cache) = cache_get cache (test_hash 2)
      in map_option length found = Some 100 \<and> other = None)"

definition eviction_keeps_the_cache_under_its_bound :: bool where
  "eviction_keeps_the_cache_under_its_bound =
     (let cache = foldl (\<lambda>c n. cache_insert c (test_hash n) (test_block 100)) (cache_new 250) [1, 2, 3, 4, 5];
          (count, held) = stats cache;
          (oldest, cache) = cache_get cache (test_hash 1);
          (newest, cache) = cache_get cache (test_hash 5)
      in held \<le> 250 \<and> count = 2 \<and> oldest = None \<and> newest \<noteq> None)"

definition a_read_block_survives_longer_than_an_unread_one :: bool where
  "a_read_block_survives_longer_than_an_unread_one =
     (let cache = cache_insert (cache_new 250) (test_hash 1) (test_block 100);
          cache = cache_insert cache (test_hash 2) (test_block 100);
          (first, cache) = cache_get cache (test_hash 1);
          cache = cache_insert cache (test_hash 3) (test_block 100);
          (again, cache) = cache_get cache (test_hash 1);
          (unread, cache) = cache_get cache (test_hash 2)
      in first \<noteq> None \<and> again \<noteq> None \<and> unread = None)"

definition a_block_larger_than_the_cache_is_not_stored :: bool where
  "a_block_larger_than_the_cache_is_not_stored =
     (let cache = cache_insert (cache_new 100) (test_hash 1) (test_block 50);
          cache = cache_insert cache (test_hash 2) (test_block 500);
          (oversized, cache) = cache_get cache (test_hash 2);
          (kept, cache) = cache_get cache (test_hash 1)
      in oversized = None \<and> kept \<noteq> None)"

definition zero_disables_it :: bool where
  "zero_disables_it =
     (let cache = cache_insert (cache_new 0) (test_hash 1) (test_block 100);
          (found, after) = cache_get cache (test_hash 1)
      in \<not> enabled (cache_new 0) \<and> found = None \<and> stats after = (0, 0))"

definition inserting_the_same_block_twice_counts_it_once :: bool where
  "inserting_the_same_block_twice_counts_it_once =
     (let cache = cache_insert (cache_new 1024) (test_hash 1) (test_block 100);
          cache = cache_insert cache (test_hash 1) (test_block 100)
      in stats cache = (1, 100) \<and> check_invariants cache)"

fun churn :: "nat list \<Rightarrow> block_cache \<Rightarrow> bool" where
  "churn [] cache = True"
| "churn (n # ns) cache =
     (let cache = cache_insert cache (test_hash (word_of_nat n)) (test_block (60 + n mod 7 * 30));
          cache = cache_insert cache (test_hash (word_of_nat (n div 2))) (test_block 100);
          (_, cache) = cache_get cache (test_hash (word_of_nat (n div 3)))
      in check_invariants cache \<and> snd (stats cache) \<le> 1000 \<and> churn ns cache)"

definition the_accounting_holds_through_churn :: bool where
  "the_accounting_holds_through_churn = churn [0..<40] (cache_new 1000)"

fun realistic :: "nat list \<Rightarrow> block_cache \<Rightarrow> bool" where
  "realistic [] cache = True"
| "realistic (n # ns) cache =
     (let amount = (if n mod 5 = 0 then 200 else (n mod 4 + 1) * 1024 * 1024);
          cache = cache_insert cache (test_hash (word_of_nat n)) (test_block amount)
      in check_invariants cache \<and> snd (stats cache) \<le> 8 * 1024 * 1024 \<and> realistic ns cache)"

definition the_bound_holds_for_realistic_block_sizes :: bool where
  "the_bound_holds_for_realistic_block_sizes = realistic [0..<40] (cache_new (8 * 1024 * 1024))"

definition thread_ops :: "u8 \<Rightarrow> cache_op list" where
  "thread_ops t = concat (map (\<lambda>n. [OpInsert (test_hash (t * 64 + word_of_nat n)) (test_block 200),
     OpGet (test_hash (word_of_nat n))]) [0..<64])"

definition concurrent_use_keeps_the_accounting_straight :: "cache_op list \<Rightarrow> bool" where
  "concurrent_use_keeps_the_accounting_straight ops =
     (let cache = cache_run (cache_new 4096) ops
      in check_invariants cache \<and> snd (stats cache) \<le> 4096)"

section \<open>They hold\<close>

lemma test_block_length [simp]: "length (test_block n) = n"
  by (simp add: test_block_def)

lemma test_hash_inject [simp]: "test_hash m = test_hash n \<longleftrightarrow> m = n"
  by (simp add: test_hash_def)

text \<open>The operations on a cache written out, for evaluation.\<close>

lemmas cache_eval = Let_def cache_new_def inner_default_def enabled_def cache_insert_def cache_get_def evict.simps
  evict_front_def stats_def

lemma a_stored_block_comes_back_holds: a_stored_block_comes_back
  by (simp add: a_stored_block_comes_back_def cache_eval)

lemma eviction_keeps_the_cache_under_its_bound_holds: eviction_keeps_the_cache_under_its_bound
  by (simp add: eviction_keeps_the_cache_under_its_bound_def cache_eval)
    (simp add: finsert_fminus_if fcard_finsert_if fcard.rep_eq)

lemma a_read_block_survives_longer_than_an_unread_one_holds: a_read_block_survives_longer_than_an_unread_one
  by (simp add: a_read_block_survives_longer_than_an_unread_one_def cache_eval remove_nth_def)

lemma a_block_larger_than_the_cache_is_not_stored_holds: a_block_larger_than_the_cache_is_not_stored
  by (simp add: a_block_larger_than_the_cache_is_not_stored_def cache_eval)

lemma zero_disables_it_holds: zero_disables_it
  by (simp add: zero_disables_it_def cache_eval fcard.rep_eq)

text \<open>Every state a loop passes through is one the invariant covers.\<close>

lemma cache_inv_assertions:
  "cache_inv c \<Longrightarrow> check_invariants c" "cache_inv c \<Longrightarrow> snd (stats c) \<le> max_bytes c"
  by (simp_all add: cache_inv_check stats_def cache_inv_bound)

lemma cache_inv_insert_small:
  "cache_inv c \<Longrightarrow> unat (max_bytes c) \<le> 2 ^ 63 \<Longrightarrow> n < 2 ^ 63 \<Longrightarrow> cache_inv (cache_insert c h (test_block n))"
  by (simp add: cache_inv_insert fitsI)

lemma inserting_the_same_block_twice_counts_it_once_holds: inserting_the_same_block_twice_counts_it_once
proof -
  have "cache_inv (cache_insert (cache_insert (cache_new 1024) (test_hash 1) (test_block 100)) (test_hash 1) (test_block 100))"
    using cache_inv_new [of 1024]
    by (intro cache_inv_insert_small) (simp_all add: cache_insert_frame, simp_all add: cache_new_def)
  then show ?thesis
    unfolding inserting_the_same_block_twice_counts_it_once_def Let_def
    by (simp add: cache_inv_assertions) (simp add: cache_eval fcard.rep_eq)
qed

lemma churn_holds: "cache_inv c \<Longrightarrow> max_bytes c = 1000 \<Longrightarrow> \<forall>n\<in>set ns. n < 2 ^ 32 \<Longrightarrow> churn ns c"
proof (induction ns arbitrary: c)
  case (Cons n ns)
  let ?c1 = "cache_insert c (test_hash (word_of_nat n)) (test_block (60 + n mod 7 * 30))"
  let ?c2 = "cache_insert ?c1 (test_hash (word_of_nat (n div 2))) (test_block 100)"
  let ?c3 = "snd (cache_get ?c2 (test_hash (word_of_nat (n div 3))))"
  have size: "60 + n mod 7 * 30 < 2 ^ 63" using mod_less_divisor [of 7 n] by simp
  have max: "max_bytes ?c3 = 1000" using Cons.prems(2) by (simp add: cache_insert_frame cache_get_frame)
  have inv: "cache_inv ?c3"
    using Cons.prems(1,2) size
    by (intro cache_inv_get cache_inv_insert_small) (simp_all add: cache_insert_frame)
  then show ?case
    using Cons.IH [OF inv max] Cons.prems(3) cache_inv_assertions [OF inv] max
    by (simp add: Let_def split_beta)
qed simp

lemma the_accounting_holds_through_churn_holds: the_accounting_holds_through_churn
  unfolding the_accounting_holds_through_churn_def
  by (rule churn_holds) (simp_all add: cache_inv_new, simp_all add: cache_new_def)

lemma realistic_holds: "cache_inv c \<Longrightarrow> max_bytes c = 8 * 1024 * 1024 \<Longrightarrow> realistic ns c"
proof (induction ns arbitrary: c)
  case (Cons n ns)
  let ?size = "if n mod 5 = 0 then 200 else (n mod 4 + 1) * 1024 * 1024"
  let ?c = "cache_insert c (test_hash (word_of_nat n)) (test_block ?size)"
  have "n mod 4 < 4" by simp
  then have "n mod 4 < 8796093022207" by (rule less_trans) simp
  then have size: "?size < 2 ^ 63" by simp
  have max: "max_bytes ?c = 8 * 1024 * 1024" using Cons.prems(2) by (simp add: cache_insert_frame)
  have inv: "cache_inv ?c" using Cons.prems size by (intro cache_inv_insert_small) simp_all
  show ?case
    using Cons.IH [OF inv max] cache_inv_assertions [OF inv] max by (simp add: Let_def)
qed simp

lemma the_bound_holds_for_realistic_block_sizes_holds: the_bound_holds_for_realistic_block_sizes
  unfolding the_bound_holds_for_realistic_block_sizes_def
  by (rule realistic_holds) (simp_all add: cache_inv_new, simp_all add: cache_new_def)

lemma concurrent_use_keeps_the_accounting_straight_holds:
  assumes "mset ops = mset (concat (map (\<lambda>t. thread_ops (word_of_nat t)) [0..<8]))"
  shows "concurrent_use_keeps_the_accounting_straight ops"
proof -
  have "set ops = set (concat (map (\<lambda>t. thread_ops (word_of_nat t)) [0..<8]))"
    using assms by (rule mset_eq_setD)
  then have "\<forall>op\<in>set ops. op_ok op" by (auto simp: thread_ops_def)
  then have "cache_inv (cache_run (cache_new 4096) ops)"
    by (intro cache_run_inv cache_inv_new) (simp_all add: cache_new_def)
  moreover have "max_bytes (cache_run (cache_new 4096) ops) = 4096" by (simp add: cache_run_frame cache_new_def)
  ultimately show ?thesis
    unfolding concurrent_use_keeps_the_accounting_straight_def Let_def
    using cache_inv_assertions [of "cache_run (cache_new 4096) ops"] by simp
qed

end
