(* ===== verification/Hex_Text.thy ===== *)
theory Hex_Text
  imports Rpc_Methods
begin

text \<open>
  The text forms as the crates document them, as an instance of \<open>text_lib\<close> in which they can be
  evaluated: hexadecimal is two digits a byte, written in lower case and read in either; a hash
  is the hexadecimal form of its 32 bytes, last byte first. The instance has every law the
  development asks of a \<open>text_lib\<close>, and the hashes with a text form are those of 32 bytes.
\<close>

section \<open>Hexadecimal\<close>

definition hex_digits :: string where
  "hex_digits = ''0123456789abcdef''"

fun index_of :: "'a \<Rightarrow> 'a list \<Rightarrow> nat option" where
  "index_of x [] = None"
| "index_of x (y # ys) = (if x = y then Some 0 else map_option Suc (index_of x ys))"

definition hex_value :: "char \<Rightarrow> nat option" where
  "hex_value c = (case index_of c hex_digits of
     Some n \<Rightarrow> Some n
   | None \<Rightarrow> map_option (\<lambda>n. n + 10) (index_of c ''ABCDEF''))"

fun to_hex :: "bytes \<Rightarrow> string" where
  "to_hex [] = []"
| "to_hex (b # bs) = hex_digits ! (unat b div 16) # hex_digits ! (unat b mod 16) # to_hex bs"

fun of_hex :: "string \<Rightarrow> bytes option" where
  "of_hex [] = Some []"
| "of_hex [c] = None"
| "of_hex (c # d # s) =
     Option.bind (hex_value c) (\<lambda>m. Option.bind (hex_value d) (\<lambda>n.
     map_option ((#) (word_of_nat (16 * m + n))) (of_hex s)))"

definition hex_text :: text_lib where
  "hex_text = \<lparr>hex_encode = to_hex, hex_decode = of_hex,
     show_hash = (\<lambda>h. to_hex (rev h)),
     parse_hash = (\<lambda>s. if length s = 64 then map_option rev (of_hex s) else None),
     f64_of = (\<lambda>n. case n of PosInt b \<Rightarrow> b | NegInt b \<Rightarrow> b | Float b \<Rightarrow> b)\<rparr>"

section \<open>Laws\<close>

lemmas hex_eval = hex_text_def hex_value_def hex_digits_def

lemma index_of_nth: "distinct xs \<Longrightarrow> n < length xs \<Longrightarrow> index_of (xs ! n) xs = Some n"
  by (induction xs arbitrary: n) (auto simp: nth_Cons split: nat.splits)

lemma hex_value_digit: "n < 16 \<Longrightarrow> hex_value (hex_digits ! n) = Some n"
  using index_of_nth [of hex_digits n] by (simp add: hex_value_def) (simp add: hex_digits_def)

lemma of_to_hex [simp]: "of_hex (to_hex bs) = Some bs"
proof (induction bs)
  case (Cons b bs)
  have "unat b < 256" using unsigned_less [where w = b and 'a = nat] by simp
  then have "unat b div 16 < 16" by (simp add: less_mult_imp_div_less)
  moreover have "(word_of_nat (16 * (unat b div 16) + unat b mod 16) :: u8) = b"
    by (simp only: mult_div_mod_eq of_nat_unat ucast_id)
  ultimately show ?case using Cons by (simp add: hex_value_digit del: of_nat_add of_nat_mult)
qed simp

lemma length_to_hex [simp]: "length (to_hex bs) = 2 * length bs"
  by (induction bs) simp_all

lemma length_of_hex: "of_hex s = Some bs \<Longrightarrow> length s = 2 * length bs"
  by (induction s arbitrary: bs rule: of_hex.induct) (auto simp: bind_eq_Some_conv)

lemma hex_hash_text: "hash_text hex_text h \<longleftrightarrow> length h = 32"
  by (auto simp: hash_text_def hex_text_def)

lemma hex_text_ok: "text_lib_ok hex_text"
  unfolding text_lib_ok_def hex_hash_text
  by (auto simp: hex_text_def dest: length_of_hex split: if_splits)

end
