(* ===== verification/Source_Tests.thy ===== *)
theory Source_Tests
  imports Rpc_Client Network Hex_Text
begin

text \<open>
  The unit tests of \<open>src/client.rs\<close>, \<open>src/rpc_methods.rs\<close> and \<open>src/state.rs\<close>,
  each a predicate on the model with the test's inputs and assertions, and
  the lemma that it holds; the others are in \<open>Cache_Tests\<close> and \<open>Access_Tests\<close>. A document is the
  JSON value its text stands for, its members in the order of the text, and a float the bits of
  its binary64 value. Where a test depends on a hash function, the lemma's hypotheses say what
  is needed of it.
\<close>

section \<open>\<open>src/client.rs\<close>\<close>

definition request :: "json \<Rightarrow> serde_error + generic_request" where
  "request v = de_request v"

definition parse :: "json \<Rightarrow> serde_error + single_or_batch" where
  "parse v = de_single_or_batch v"

definition success :: "json rpc_response" where
  "success = \<lparr>resp_id = None, error = None, result = Some (json_u64 42)\<rparr>"

definition failure :: "status_code option \<Rightarrow> json rpc_response" where
  "failure st = response_of_error \<lparr>code = MISC_ERROR_CODE, message = ''nope'', status = st\<rparr>"

text \<open>\<open>json!\<close>: the value with the given members.\<close>

abbreviation json_macro :: "json_object \<Rightarrow> json" where
  "json_macro es \<equiv> Object (insert_all es)"

abbreviation v2_request :: "json \<Rightarrow> json" where
  "v2_request i \<equiv> json_macro [(''jsonrpc'', String ''2.0''), (''id'', i), (''method'', String ''m''), (''params'', Array [])]"

abbreviation v1_request :: "json \<Rightarrow> json" where
  "v1_request i \<equiv> json_macro [(''id'', i), (''method'', String ''m''), (''params'', Array [])]"

abbreviation v2_notification :: json where
  "v2_notification \<equiv> json_macro [(''jsonrpc'', String ''2.0''), (''method'', String ''m''), (''params'', Array [])]"

definition forwarded_as_sent :: "json \<Rightarrow> bool" where
  "forwarded_as_sent sent \<longleftrightarrow> map_sum id (to_value \<circ> ser_single_or_batch) (parse sent) = Inr sent"

definition the_version_is_forwarded_as_sent :: bool where
  "the_version_is_forwarded_as_sent \<longleftrightarrow> list_all forwarded_as_sent
     [v2_request (json_u64 1), v1_request (json_u64 1), Array [v2_request (json_u64 1), v1_request (json_u64 2)]]"

definition a_null_id_is_not_a_missing_id :: bool where
  "a_null_id_is_not_a_missing_id \<longleftrightarrow>
     list_all forwarded_as_sent [v2_request Null, Array [v2_request Null]] \<and>
     map_sum id is_notification (request (v2_request Null)) = Inr False \<and>
     map_sum id is_notification (request v2_notification) = Inr True \<and>
     map_sum id is_notification (request (json_macro [(''method'', String ''m''), (''params'', Array [])])) = Inr False"

definition a_proxy_reply_takes_the_shape_of_its_request :: bool where
  "a_proxy_reply_takes_the_shape_of_its_request \<longleftrightarrow>
     (case (request (v2_request (json_u64 7)), request (v1_request (json_u64 7))) of
        (Inr v2, Inr v1) \<Rightarrow>
          (let err = json_macro [(''code'', json_i64 MISC_ERROR_CODE), (''message'', String ''nope'')] in
           into_reply success v2 = json_macro [(''jsonrpc'', String ''2.0''), (''result'', json_u64 42), (''id'', json_u64 7)] \<and>
           into_reply (failure None) v2 = json_macro [(''jsonrpc'', String ''2.0''), (''error'', err), (''id'', json_u64 7)] \<and>
           into_reply \<lparr>resp_id = None, error = None, result = None\<rparr> v2 =
             json_macro [(''jsonrpc'', String ''2.0''), (''result'', Null), (''id'', json_u64 7)] \<and>
           into_reply success v1 = json_macro [(''id'', json_u64 7), (''error'', Null), (''result'', json_u64 42)] \<and>
           into_reply (failure None) v1 = json_macro [(''id'', json_u64 7), (''error'', err), (''result'', Null)])
      | _ \<Rightarrow> False)"

definition a_proxy_reply_takes_the_status_bitcoind_would_send :: "lib \<Rightarrow> bool" where
  "a_proxy_reply_takes_the_status_bitcoind_would_send L \<longleftrightarrow>
     (case (request (v2_request (json_u64 7)), request (v1_request (json_u64 7)), request v2_notification) of
        (Inr v2, Inr v1, Inr notification) \<Rightarrow>
          (let reply = into_response_to (to_vec L) (show_serde L);
               status_of = (\<lambda>res req. map_sum id resp_status (reply res req)) in
           status_of (failure None) v2 = Inr OK \<and>
           status_of (failure None) v1 = Inr INTERNAL_SERVER_ERROR \<and>
           list_all (\<lambda>req. status_of (failure (Some FORBIDDEN)) req = Inr FORBIDDEN) [v1, v2, notification] \<and>
           status_of success notification = Inr NO_CONTENT \<and>
           map_sum id (\<lambda>r. length (resp_body r)) (reply success notification) = Inr 0)
      | _ \<Rightarrow> False)"

lemmas client_test_eval = request_def parse_def insert_all_def less_list_code json_u64_def partial_empty_def
  finish_request_def present_def de_value_def

lemma forwarded_as_sent_iff: "forwarded_as_sent sent \<longleftrightarrow> (\<exists>r. parse sent = Inr r \<and> to_value (ser_single_or_batch r) = sent)"
  by (cases "parse sent") (simp_all add: forwarded_as_sent_def)

lemma the_version_is_forwarded_as_sent_holds: the_version_is_forwarded_as_sent
  unfolding the_version_is_forwarded_as_sent_def
  by (simp add: forwarded_as_sent_iff client_test_eval visit_map_def ser_request_def ser_request_with_def)

lemma a_null_id_is_not_a_missing_id_holds: a_null_id_is_not_a_missing_id
  unfolding a_null_id_is_not_a_missing_id_def
  by (simp add: forwarded_as_sent_iff client_test_eval visit_map_def ser_request_def ser_request_with_def
      is_notification_def is_v2_def)

lemma a_proxy_reply_takes_the_shape_of_its_request_holds: a_proxy_reply_takes_the_shape_of_its_request
  unfolding a_proxy_reply_takes_the_shape_of_its_request_def
  by (simp add: client_test_eval into_reply_def is_v2_def success_def failure_def response_of_error_def ser_error_def)

lemma a_proxy_reply_takes_the_status_bitcoind_would_send_holds:
  assumes "\<And>v. \<exists>b. to_vec L v = Inr b"
  shows "a_proxy_reply_takes_the_status_bitcoind_would_send L"
proof -
  have "map_sum id resp_status (json_reply (to_vec L) (show_serde L) st v) = Inr st" for st v
    using assms [of v] by (auto simp: json_reply_def)
  then show ?thesis
    unfolding a_proxy_reply_takes_the_status_bitcoind_would_send_def
    by (simp add: client_test_eval into_response_to_def is_notification_def is_v2_def no_content_def
        success_def failure_def response_of_error_def)
qed

section \<open>\<open>src/rpc_methods.rs\<close>\<close>

definition CORE_31_PEER :: json_object where
  "CORE_31_PEER =
     [(''id'', Number (PosInt 7)),
      (''addr'', String ''203.0.113.9:8333''),
      (''addrbind'', String ''10.0.3.5:44212''),
      (''network'', String ''ipv4''),
      (''services'', String ''0000000000000409''),
      (''servicesnames'', Array [String ''NETWORK'', String ''WITNESS'', String ''NETWORK_LIMITED'']),
      (''relaytxes'', Bool True),
      (''last_inv_sequence'', Number (PosInt 0)),
      (''inv_to_send'', Number (PosInt 0)),
      (''lastsend'', Number (PosInt 1755096000)),
      (''lastrecv'', Number (PosInt 1755096001)),
      (''last_transaction'', Number (PosInt 1755095990)),
      (''last_block'', Number (PosInt 1755095900)),
      (''bytessent'', Number (PosInt 123456)),
      (''bytesrecv'', Number (PosInt 654321)),
      (''conntime'', Number (PosInt 1755090000)),
      (''timeoffset'', Number (PosInt 0)),
      (''pingtime'', Number (Float 0x3fa4fdf3b645a1cb)),
      (''minping'', Number (Float 0x3fa3f7ced916872b)),
      (''version'', Number (PosInt 70016)),
      (''subver'', String ''/Satoshi:31.1.0/''),
      (''inbound'', Bool False),
      (''bip152_hb_to'', Bool False),
      (''bip152_hb_from'', Bool False),
      (''presynced_headers'', Number (NegInt (- 1))),
      (''synced_headers'', Number (PosInt 962297)),
      (''synced_blocks'', Number (PosInt 962297)),
      (''inflight'', Array []),
      (''addr_relay_enabled'', Bool True),
      (''addr_processed'', Number (PosInt 100)),
      (''addr_rate_limited'', Number (PosInt 0)),
      (''permissions'', Array []),
      (''minfeefilter'', Number (Float 0x3ee4f8b588e368f1)),
      (''bytessent_per_msg'', Object [(''version'', Number (PosInt 126))]),
      (''bytesrecv_per_msg'', Object [(''version'', Number (PosInt 126))]),
      (''connection_type'', String ''outbound-full-relay''),
      (''transport_protocol_type'', String ''v2''),
      (''session_id'', String ''abc'')]"

definition parses_core_31_peer :: bool where
  "parses_core_31_peer \<longleftrightarrow>
     (case de_peer_info (Object CORE_31_PEER) of
        Inl e \<Rightarrow> False
      | Inr peer \<Rightarrow> pi_addr peer = ''203.0.113.9:8333'' \<and> \<not> inbound peer \<and> ''NETWORK'' |\<in>| servicesnames peer)"

definition tolerates_omitted_optional_keys :: bool where
  "tolerates_omitted_optional_keys \<longleftrightarrow>
     (let stripped = map (\<lambda>(k, v). (k, if k = ''session_id'' then String [] else v))
            (filter (\<lambda>(k, v). k \<noteq> ''addrbind'' \<and> k \<noteq> ''pingtime'') CORE_31_PEER)
      in \<not> isl (de_peer_info (Object stripped)))"

definition CORE_29_SIGNET :: json where
  "CORE_29_SIGNET = Object
     [(''chain'', String ''signet''),
      (''blocks'', Number (PosInt 0)),
      (''headers'', Number (PosInt 0)),
      (''bestblockhash'', String ''00000008819873e925422c1ff0f99f7cc9bbb232af63a077a480a3633bee1ef6''),
      (''bits'', String ''1e0377ae''),
      (''target'', String ''00000377ae000000000000000000000000000000000000000000000000000000''),
      (''difficulty'', Number (Float 0x3f5274f2953f5e11)),
      (''time'', Number (PosInt 1598918400)),
      (''mediantime'', Number (PosInt 1598918400)),
      (''verificationprogress'', Number (Float 0x3e5035136fa58078)),
      (''initialblockdownload'', Bool True),
      (''chainwork'', String ''000000000000000000000000000000000000000000000000000000000049d414''),
      (''size_on_disk'', Number (PosInt 293)),
      (''pruned'', Bool False),
      (''signet_challenge'', String ''512103ad5e0edad18cb1f0fc0d28a3d4f1f3e445640337489abb10404f2d1e086be430210359ef5021964fe22d6f8e05b2463c9540ce96883fe3b278760f048f5189f2e6c452ae''),
      (''warnings'', Array [])]"

definition parses_core_29_signet :: "text_lib \<Rightarrow> bool" where
  "parses_core_29_signet T \<longleftrightarrow>
     (case de_blockchain_info T CORE_29_SIGNET of
        Inl e \<Rightarrow> False
      | Inr info \<Rightarrow> chain info = ''signet'' \<and> map_option length (signet_challenge info) = Some 71)"

definition parses_core_29_testnet4 :: "text_lib \<Rightarrow> bool" where
  "parses_core_29_testnet4 T \<longleftrightarrow>
     (case de_blockchain_info T (Object
       [(''chain'', String ''testnet4''),
        (''blocks'', Number (PosInt 0)),
        (''headers'', Number (PosInt 0)),
        (''bestblockhash'', String ''00000000da84f2bafbbc53dee25a72ae507ff4914b867c565be350b0da8bf043''),
        (''bits'', String ''1d00ffff''),
        (''target'', String ''00000000ffff0000000000000000000000000000000000000000000000000000''),
        (''difficulty'', Number (PosInt 1)),
        (''time'', Number (PosInt 1714777860)),
        (''mediantime'', Number (PosInt 1714777860)),
        (''verificationprogress'', Number (Float 0x3e5068c6792a9dfc)),
        (''initialblockdownload'', Bool True),
        (''chainwork'', String ''0000000000000000000000000000000000000000000000000000000100010001''),
        (''size_on_disk'', Number (PosInt 269)),
        (''pruned'', Bool False),
        (''warnings'', Array [])]) of
        Inl e \<Rightarrow> False
      | Inr info \<Rightarrow> chain info = ''testnet4'' \<and> signet_challenge info = None)"

definition parses_a_stale_block_header :: "text_lib \<Rightarrow> bool" where
  "parses_a_stale_block_header T \<longleftrightarrow>
     (case de_header T (Object
       [(''hash'', String ''07bf0e81736da8923db558d5768a7006e2b93ce355103ca84af823fcade035e6''),
        (''confirmations'', Number (NegInt (- 1))),
        (''height'', Number (PosInt 804)),
        (''version'', Number (PosInt 536870912)),
        (''versionHex'', String ''20000000''),
        (''merkleroot'', String ''578e22da1ca66f343029c9e95afa42e8ea34e1c407c57cb2f3e87f0073ae9362''),
        (''time'', Number (PosInt 1787000000)),
        (''mediantime'', Number (PosInt 1787000000)),
        (''nonce'', Number (PosInt 1)),
        (''bits'', String ''207fffff''),
        (''difficulty'', Number (Float 0x3dffffe03fffc081)),
        (''chainwork'', String ''0000000000000000000000000000000000000000000000000000000000000002''),
        (''nTx'', Number (PosInt 2)),
        (''previousblockhash'', String ''60facf42231c33113d9bd67062d2ec290604458937db0fa0d0c13f2c074e9344'')]) of
        Inl e \<Rightarrow> False
      | Inr header \<Rightarrow> sint (confirmations header) = - 1)"

definition parses_older_node_shape :: "text_lib \<Rightarrow> bool" where
  "parses_older_node_shape T \<longleftrightarrow>
     (case de_blockchain_info T (Object
       [(''chain'', String ''main''),
        (''blocks'', Number (PosInt 800000)),
        (''headers'', Number (PosInt 800000)),
        (''bestblockhash'', String ''00000000000000000002a7c4c1e48d76c5a37902165a270156b7a8d72728a054''),
        (''difficulty'', Number (Float 0x42c884162877af4c)),
        (''mediantime'', Number (PosInt 1690168629)),
        (''verificationprogress'', Number (Float 0x3fefff2e48e8a71e)),
        (''initialblockdownload'', Bool False),
        (''chainwork'', String ''00000000000000000000000000000000000000004fd66f4dd0d1a9b8a4b6a7ad''),
        (''size_on_disk'', Number (PosInt 500000000)),
        (''pruned'', Bool True),
        (''pruneheight'', Number (PosInt 799000)),
        (''automatic_pruning'', Bool True),
        (''prune_target_size'', Number (PosInt 550000000)),
        (''softforks'', Object [(''bip34'', Object [(''type'', String ''buried''), (''active'', Bool True), (''height'', Number (PosInt 227931))])]),
        (''warnings'', String [])]) of
        Inl e \<Rightarrow> False
      | Inr info \<Rightarrow> chain info = ''main'')"

lemmas fields_eval = required_def optional_def field_def

lemma parses_core_31_peer_holds: parses_core_31_peer
  by (simp add: parses_core_31_peer_def CORE_31_PEER_def de_peer_info_def fields_eval)

lemma tolerates_omitted_optional_keys_holds: tolerates_omitted_optional_keys
  by (simp add: tolerates_omitted_optional_keys_def CORE_31_PEER_def de_peer_info_def fields_eval)

lemma ucast_minus_one: "(ucast (- 1 :: i64) :: i32) = - 1"
  by (rule bit_word_eqI) (simp add: bit_unsigned_iff)

lemma parses_core_29_signet_holds: "parses_core_29_signet hex_text"
  by (simp add: parses_core_29_signet_def CORE_29_SIGNET_def de_blockchain_info_def fields_eval de_hex_def hex_eval)

lemma parses_core_29_testnet4_holds: "parses_core_29_testnet4 T"
  by (simp add: parses_core_29_testnet4_def de_blockchain_info_def fields_eval)

lemma parses_a_stale_block_header_holds: "parses_a_stale_block_header hex_text"
  by (simp add: parses_a_stale_block_header_def de_header_def de_header_fields_def fields_eval de_hash_def
      de_hex_def hex_eval ucast_minus_one)

lemma parses_older_node_shape_holds: "parses_older_node_shape T"
  by (simp add: parses_older_node_shape_def de_blockchain_info_def fields_eval)

section \<open>\<open>src/state.rs\<close>\<close>

text \<open>\<open>None\<close> where the document cannot be read, on which the test panics.\<close>

definition params_of :: "bitcoin_lib \<Rightarrow> text_lib \<Rightarrow> json \<Rightarrow> (network_error + network_params) option" where
  "params_of B T v =
     (case de_blockchain_info T v of Inl e \<Rightarrow> None | Inr info \<Rightarrow> Some (from_blockchain_info B info))"

definition wire :: "text_lib \<Rightarrow> u32 \<Rightarrow> string" where
  "wire T m = hex_encode T (to_le_bytes m)"

definition every_chain_gets_its_own_magic_and_port :: "bitcoin_lib \<Rightarrow> text_lib \<Rightarrow> bool" where
  "every_chain_gets_its_own_magic_and_port B T \<longleftrightarrow>
     list_all (\<lambda>(chain, m, port).
       (case params_of B T (Object [(''chain'', String chain)]) of
          Some (Inr got) \<Rightarrow> wire T (magic got) = m \<and> default_peer_port got = port
        | _ \<Rightarrow> False))
       [(''main'', ''f9beb4d9'', 8333), (''test'', ''0b110907'', 18333),
        (''testnet4'', ''1c163f28'', 48333), (''regtest'', ''fabfb5da'', 18444)]"

definition DEFAULT_SIGNET_CHALLENGE :: string where
  "DEFAULT_SIGNET_CHALLENGE =
     ''512103ad5e0edad18cb1f0fc0d28a3d4f1f3e445640337489abb10404f2d1e086be430210359ef5021964fe22d6f8e05b2463c9540ce96883fe3b278760f048f5189f2e6c452ae''"

definition the_default_signet_challenge_hashes_to_the_known_signet_magic :: "bitcoin_lib \<Rightarrow> text_lib \<Rightarrow> bool" where
  "the_default_signet_challenge_hashes_to_the_known_signet_magic B T \<longleftrightarrow>
     (case params_of B T (Object [(''chain'', String ''signet''), (''signet_challenge'', String DEFAULT_SIGNET_CHALLENGE)]) of
        Some (Inr got) \<Rightarrow>
          magic got = 0x40CF030A \<and> wire T (magic got) = ''0a03cf40'' \<and> default_peer_port got = 38333
      | _ \<Rightarrow> False)"

definition a_custom_signet_gets_a_different_magic :: "bitcoin_lib \<Rightarrow> text_lib \<Rightarrow> bool" where
  "a_custom_signet_gets_a_different_magic B T \<longleftrightarrow>
     (case params_of B T (Object [(''chain'', String ''signet''), (''signet_challenge'', String ''51'')]) of
        Some (Inr got) \<Rightarrow> magic got \<noteq> 0x40CF030A \<and> default_peer_port got = 38333
      | _ \<Rightarrow> False)"

definition signet_without_a_challenge_is_an_error :: "bitcoin_lib \<Rightarrow> text_lib \<Rightarrow> bool" where
  "signet_without_a_challenge_is_an_error B T \<longleftrightarrow>
     params_of B T (Object [(''chain'', String ''signet'')]) = Some (Inl MissingSignetChallenge)"

definition an_unrecognized_chain_is_an_error :: "bitcoin_lib \<Rightarrow> text_lib \<Rightarrow> bool" where
  "an_unrecognized_chain_is_an_error B T \<longleftrightarrow>
     params_of B T (Object [(''chain'', String ''bitcoin'')]) = Some (Inl (UnknownChain ''bitcoin''))"

lemmas params_eval = params_of_def de_blockchain_info_def fields_eval from_blockchain_info_def

lemma every_chain_gets_its_own_magic_and_port_holds: "every_chain_gets_its_own_magic_and_port B hex_text"
  by (simp add: every_chain_gets_its_own_magic_and_port_def params_eval wire_def to_le_bytes_def hex_eval)

text \<open>What bitcoind's own hash of the challenge, with its length before it, begins with.\<close>

lemma the_default_signet_challenge_hashes_to_the_known_signet_magic_holds:
  assumes "take 4 (sha256d B (varint B 71 @ the (of_hex DEFAULT_SIGNET_CHALLENGE))) = [0x0a, 0x03, 0xcf, 0x40]"
  shows "the_default_signet_challenge_hashes_to_the_known_signet_magic B hex_text"
proof -
  have "of_hex DEFAULT_SIGNET_CHALLENGE \<noteq> None" by (simp add: DEFAULT_SIGNET_CHALLENGE_def hex_eval)
  then obtain c where c: "of_hex DEFAULT_SIGNET_CHALLENGE = Some c" by blast
  moreover have "length c = 71" using length_of_hex [OF c] by (simp add: DEFAULT_SIGNET_CHALLENGE_def)
  ultimately have "params_of B hex_text (Object [(''chain'', String ''signet''),
      (''signet_challenge'', String DEFAULT_SIGNET_CHALLENGE)]) = Some (Inr \<lparr>magic = 0x40CF030A, default_peer_port = 38333\<rparr>)"
    using assms by (simp add: params_eval signet_magic_def de_hex_def hex_text_def)
  moreover have "wire hex_text 0x40CF030A = ''0a03cf40''"
    by (simp add: wire_def to_le_bytes_def hex_eval)
  ultimately show ?thesis
    by (simp add: the_default_signet_challenge_hashes_to_the_known_signet_magic_def)
qed

lemma a_custom_signet_gets_a_different_magic_holds:
  assumes "from_le_bytes (take 4 (sha256d B (varint B 1 @ [0x51]))) \<noteq> 0x40CF030A"
  shows "a_custom_signet_gets_a_different_magic B hex_text"
  using assms
  by (simp add: a_custom_signet_gets_a_different_magic_def params_eval signet_magic_def de_hex_def hex_eval)

lemma signet_without_a_challenge_is_an_error_holds: "signet_without_a_challenge_is_an_error B T"
  by (simp add: signet_without_a_challenge_is_an_error_def params_eval)

lemma an_unrecognized_chain_is_an_error_holds: "an_unrecognized_chain_is_an_error B T"
  by (simp add: an_unrecognized_chain_is_an_error_def params_eval)

end
