(* ===== verification/Access_Tests.thy ===== *)
theory Access_Tests
  imports Intercept Hex_Text
begin

text \<open>
  The unit tests of \<open>src/users.rs\<close> and \<open>src/fetch_blocks.rs\<close> (but for the one of a salted
  password, whose point is the value of an HMAC), each a predicate on the model with the test's
  inputs and assertions, and the lemma that it holds. In the test of the cookie file the file
  is written between comparisons, so each comparison sees a file that stands still.
\<close>

section \<open>\<open>src/users.rs\<close>\<close>

subsection \<open>Passwords\<close>

definition cookie_written :: "time \<Rightarrow> string \<Rightarrow> nat fs" where
  "cookie_written t contents = trace_fs (\<lambda>_. Some (t, contents))"

definition cookie_removed :: "nat fs" where
  "cookie_removed = trace_fs (\<lambda>_. None)"

definition a_cookie_password_follows_the_file ::
  "(bytes \<Rightarrow> bytes \<Rightarrow> bytes option) \<Rightarrow> path \<Rightarrow> time \<Rightarrow> bool" where
  "a_cookie_password_follows_the_file hm p t0 \<longleftrightarrow>
     (let fs1 = cookie_written t0 (''__cookie__:first'' @ [CHR 0x0A]);
          fs2 = cookie_written (t0 + 5) (''__cookie__:second'' @ [CHR 0x0A]);
          (a1, pw, w) = password_eq hm fs1 (CookieFile p None) ''first'' 0;
          (a2, pw, w) = password_eq hm fs1 pw ''second'' w;
          (a3, pw, w) = password_eq hm fs1 pw ''__cookie__:first'' w;
          (a4, pw, w) = password_eq hm fs2 pw ''second'' w;
          (a5, pw, w) = password_eq hm fs2 pw ''first'' w;
          (a6, pw, w) = password_eq hm cookie_removed pw ''second'' w
      in [a1, a2, a3, a4, a5, a6] = map Inr [True, False, False, True, False, False])"

text \<open>Every comparison of the test gives what a fresh reading of the file gives.\<close>

lemma cookie_first: "password_half (''__cookie__:first'' @ [CHR 0x0A]) = Some ''first''"
  and cookie_second: "password_half (''__cookie__:second'' @ [CHR 0x0A]) = Some ''second''"
  by code_simp+

lemma same_contents_literals:
  "same_contents ''first'' ''first'' = Inr True" "same_contents ''first'' ''second'' = Inr False"
  "same_contents ''first'' ''__cookie__:first'' = Inr False" "same_contents ''second'' ''second'' = Inr True"
  "same_contents ''second'' ''first'' = Inr False"
  by code_simp+

lemma a_cookie_password_follows_the_file_holds: "a_cookie_password_follows_the_file hm p t0"
  unfolding a_cookie_password_follows_the_file_def cookie_written_def cookie_removed_def
  by (simp add: cookie_password_def stat_ok_def read_and_restat_def cookie_first [simplified] cookie_second [simplified]
      same_contents_literals)

subsection \<open>\<open>getrawtransaction\<close>\<close>

definition TXID :: json where
  "TXID = String ''780124042ee6e11fc3eeceec7d3b27379d71c4901e18d516ed1491eba025ba85''"

definition HASH :: json where
  "HASH = String ''60facf42231c33113d9bd67062d2ec290604458937db0fa0d0c13f2c074e9344''"

definition verbose_with_a_blockhash_is_intercepted :: "text_lib \<Rightarrow> bool" where
  "verbose_with_a_blockhash_is_intercepted T \<longleftrightarrow>
     (case interceptable T [TXID, Bool True, HASH] of
        None \<Rightarrow> False
      | Some (t, verbose, h) \<Rightarrow> ser_hash T t = TXID \<and> ser_hash T h = HASH \<and> verbose)"

definition non_verbose_with_a_blockhash_is_intercepted :: "text_lib \<Rightarrow> bool" where
  "non_verbose_with_a_blockhash_is_intercepted T \<longleftrightarrow>
     (case interceptable T [TXID, Bool False, HASH] of None \<Rightarrow> False | Some (t, verbose, h) \<Rightarrow> \<not> verbose)"

definition numeric_verbosity_zero_and_one_are_intercepted :: "text_lib \<Rightarrow> bool" where
  "numeric_verbosity_zero_and_one_are_intercepted T \<longleftrightarrow>
     (case interceptable T [TXID, json_u64 0, HASH] of None \<Rightarrow> False | Some (t, verbose, h) \<Rightarrow> \<not> verbose) \<and>
     (case interceptable T [TXID, json_u64 1, HASH] of None \<Rightarrow> False | Some (t, verbose, h) \<Rightarrow> verbose)"

definition no_blockhash_passes_through :: "text_lib \<Rightarrow> bool" where
  "no_blockhash_passes_through T \<longleftrightarrow>
     interceptable T [TXID, Bool True] = None \<and> interceptable T [TXID] = None"

definition verbosity_two_passes_through :: "text_lib \<Rightarrow> bool" where
  "verbosity_two_passes_through T \<longleftrightarrow> interceptable T [TXID, json_u64 2, HASH] = None"

definition malformed_arguments_pass_through :: "text_lib \<Rightarrow> bool" where
  "malformed_arguments_pass_through T \<longleftrightarrow>
     interceptable T [TXID, String ''yes'', HASH] = None \<and>
     interceptable T [TXID, Bool True, String ''not a hash''] = None \<and>
     interceptable T [String ''not a txid'', Bool True, HASH] = None \<and>
     interceptable T [] = None"

lemma TXID_reads: "\<exists>t. de_hash hex_text TXID = Inr t \<and> ser_hash hex_text t = TXID"
  by (simp add: TXID_def de_hash_def ser_hash_def hex_eval)

lemma HASH_reads: "\<exists>h. de_hash hex_text HASH = Inr h \<and> ser_hash hex_text h = HASH"
  by (simp add: HASH_def de_hash_def ser_hash_def hex_eval)

lemma no_hash_reads: "\<exists>e. de_hash hex_text (String ''not a hash'') = Inl e" "\<exists>e. de_hash hex_text (String ''not a txid'') = Inl e"
  by (simp_all add: de_hash_def hex_text_def)

lemmas reads = TXID_reads HASH_reads no_hash_reads

lemma verbose_with_a_blockhash_is_intercepted_holds: "verbose_with_a_blockhash_is_intercepted hex_text"
  using reads by (auto simp: verbose_with_a_blockhash_is_intercepted_def interceptable_def get_at_def)

lemma non_verbose_with_a_blockhash_is_intercepted_holds: "non_verbose_with_a_blockhash_is_intercepted hex_text"
  using reads by (auto simp: non_verbose_with_a_blockhash_is_intercepted_def interceptable_def get_at_def)

lemma numeric_verbosity_zero_and_one_are_intercepted_holds: "numeric_verbosity_zero_and_one_are_intercepted hex_text"
  using reads by (auto simp: numeric_verbosity_zero_and_one_are_intercepted_def interceptable_def get_at_def json_u64_def)

lemma no_blockhash_passes_through_holds: "no_blockhash_passes_through T"
  by (simp add: no_blockhash_passes_through_def interceptable_def get_at_def)

lemma verbosity_two_passes_through_holds: "verbosity_two_passes_through T"
  by (auto simp: verbosity_two_passes_through_def interceptable_def get_at_def json_u64_def split: sum.splits)

lemma malformed_arguments_pass_through_holds: "malformed_arguments_pass_through hex_text"
  using reads by (auto simp: malformed_arguments_pass_through_def interceptable_def get_at_def)

subsection \<open>Defaults\<close>

definition check :: "bool option \<Rightarrow> bool \<Rightarrow> bool \<Rightarrow> bool" where
  "check input default_fetch expected \<longleftrightarrow>
     (case password_try_from ''secret'' of
        Inl e \<Rightarrow> False
      | Inr pw \<Rightarrow>
          (let us = fmupd ''satoshi'' \<lparr>in_password = pw, in_allowed_calls = Some {||},
                 in_fetch_blocks = input, in_override_wallet = None\<rparr> fmempty
           in map_option fetch_blocks (fmlookup (map_default us default_fetch) ''satoshi'') = Some expected))"

definition default_fetch_blocks_none_false :: bool where
  "default_fetch_blocks_none_false \<longleftrightarrow> check None False False"

definition default_fetch_blocks_none_true :: bool where
  "default_fetch_blocks_none_true \<longleftrightarrow> check None True True"

definition default_fetch_blocks_some_false_false :: bool where
  "default_fetch_blocks_some_false_false \<longleftrightarrow> check (Some False) False False"

definition default_fetch_blocks_some_false_true :: bool where
  "default_fetch_blocks_some_false_true \<longleftrightarrow> check (Some False) True False"

definition default_fetch_blocks_some_true_false :: bool where
  "default_fetch_blocks_some_true_false \<longleftrightarrow> check (Some True) False True"

definition default_fetch_blocks_some_true_true :: bool where
  "default_fetch_blocks_some_true_true \<longleftrightarrow> check (Some True) True True"

lemma check_iff: "check input default_fetch expected \<longleftrightarrow>
    (case input of Some b \<Rightarrow> b | None \<Rightarrow> default_fetch) = expected"
proof -
  have "password_try_from ''secret'' = Inr (Cleartext ''secret'')" by code_simp
  then show ?thesis by (simp add: check_def map_default_def user_map_default_def)
qed

lemma default_fetch_blocks_hold:
  default_fetch_blocks_none_false default_fetch_blocks_none_true default_fetch_blocks_some_false_false
  default_fetch_blocks_some_false_true default_fetch_blocks_some_true_false default_fetch_blocks_some_true_true
  by (simp_all add: default_fetch_blocks_none_false_def default_fetch_blocks_none_true_def
      default_fetch_blocks_some_false_false_def default_fetch_blocks_some_false_true_def
      default_fetch_blocks_some_true_false_def default_fetch_blocks_some_true_true_def check_iff)

section \<open>\<open>src/fetch_blocks.rs\<close>\<close>

definition null_outpoint :: "txid \<times> u32" where
  "null_outpoint = (replicate 32 0, 0xFFFFFFFF)"

definition empty_header :: block_header where
  "empty_header = \<lparr>hdr_version = 1, hdr_prev_blockhash = replicate 32 0, hdr_merkle_root = replicate 32 0,
     hdr_time = 0, hdr_bits = 0, hdr_nonce = 0\<rparr>"

definition block_with :: "bool \<Rightarrow> bool \<Rightarrow> block" where
  "block_with commitment has_wit = \<lparr>blk_header = empty_header,
     txdata = [\<lparr>tx_version = 1, lock_time = 0,
       tx_input = [\<lparr>previous_output = null_outpoint, script_sig = [0x51, 0x51], sequence = 0xFFFFFFFF,
         witness = (if has_wit then [replicate 32 0] else [])\<rparr>],
       tx_output = [\<lparr>tx_value = 0,
         script_pubkey = (if commitment then [0x6a, 0x24, 0xaa, 0x21, 0xa9, 0xed] @ replicate 32 0x11 else [0x51])\<rparr>]\<rparr>]\<rparr>"

definition spending_tx :: "bool \<Rightarrow> transaction" where
  "spending_tx has_wit = \<lparr>tx_version = 1, lock_time = 0,
     tx_input = [\<lparr>previous_output = (replicate 32 0, 0), script_sig = [], sequence = 0xFFFFFFFF,
       witness = (if has_wit then [replicate 71 0xab, replicate 33 0xcd] else [])\<rparr>],
     tx_output = [\<lparr>tx_value = 1, script_pubkey = [0x51]\<rparr>]\<rparr>"

definition committing_block :: "bitcoin_lib \<Rightarrow> transaction list \<Rightarrow> bytes option \<Rightarrow> block option" where
  "committing_block B txs reserved =
     (let salt = (case reserved of None \<Rightarrow> replicate 32 0 | Some v \<Rightarrow> v) in
      map_option (\<lambda>root.
        let commitment = commitment_hash B (root @ salt);
            spk = [0x6a, 0x24, 0xaa, 0x21, 0xa9, 0xed] @ commitment;
            coinbase = \<lparr>tx_version = 1, lock_time = 0,
              tx_input = [\<lparr>previous_output = null_outpoint, script_sig = [0x51, 0x51], sequence = 0xFFFFFFFF,
                witness = (case reserved of Some v \<Rightarrow> [v] | None \<Rightarrow> [])\<rparr>],
              tx_output = [\<lparr>tx_value = 0, script_pubkey = [0x51]\<rparr>, \<lparr>tx_value = 0, script_pubkey = spk\<rparr>]\<rparr>
        in \<lparr>blk_header = empty_header, txdata = coinbase # txs\<rparr>)
        (bitcoin_merkle_root B (replicate 32 0 # map (wtxid_of B) txs)))"

definition a_commitment_that_does_not_describe_the_block_is_refused :: "bitcoin_lib \<Rightarrow> bool" where
  "a_commitment_that_does_not_describe_the_block_is_refused B \<longleftrightarrow> \<not> check_witnesses B (block_with True False)"

definition a_block_with_no_commitment_needs_no_witnesses :: "bitcoin_lib \<Rightarrow> bool" where
  "a_block_with_no_commitment_needs_no_witnesses B \<longleftrightarrow> check_witnesses B (block_with False False)"

definition witnesses_with_no_commitment_are_refused :: "bitcoin_lib \<Rightarrow> bool" where
  "witnesses_with_no_commitment_are_refused B \<longleftrightarrow> \<not> check_witnesses B (block_with False True)"

definition a_signalling_era_block_that_commits_but_carries_nothing_is_accepted :: "bitcoin_lib \<Rightarrow> bool" where
  "a_signalling_era_block_that_commits_but_carries_nothing_is_accepted B \<longleftrightarrow>
     (case committing_block B [spending_tx False] None of None \<Rightarrow> False | Some b \<Rightarrow> check_witnesses B b)"

text \<open>The argument \<open>satisfied\<close> is the crate's own \<open>Block::check_witness_commitment\<close>.\<close>

definition a_peer_that_strips_committed_witnesses_is_still_caught :: "bitcoin_lib \<Rightarrow> (block \<Rightarrow> bool) \<Rightarrow> bool" where
  "a_peer_that_strips_committed_witnesses_is_still_caught B satisfied \<longleftrightarrow>
     (case committing_block B [spending_tx True] (Some (replicate 32 0)) of
        None \<Rightarrow> False
      | Some honest \<Rightarrow>
          (let stripped = honest\<lparr>txdata := map (\<lambda>tx. tx\<lparr>tx_input := map (\<lambda>i. i\<lparr>witness := []\<rparr>) (tx_input tx)\<rparr>) (txdata honest)\<rparr>
           in check_witnesses B honest \<and> satisfied stripped \<and> \<not> check_witnesses B stripped))"

lemma a_commitment_that_does_not_describe_the_block_is_refused_holds:
  assumes "\<And>x. commitment_hash B x \<noteq> replicate 32 0x11"
  shows "a_commitment_that_does_not_describe_the_block_is_refused B"
proof -
  have "c = replicate 32 0x11" if "committed_value (block_with True False) c" for c
    using that by (auto simp: block_with_def committed_value_def Cons_eq_append_conv)
  then have "\<not> check_witness_commitment B (block_with True False)"
    using assms unfolding commitment_iff by blast
  moreover have "commits (block_with True False)"
    by (simp add: block_with_def commits_def is_commitment_def COMMITMENT_MAGIC_def)
  ultimately show ?thesis
    by (simp add: a_commitment_that_does_not_describe_the_block_is_refused_def check_witnesses_def)
qed

lemma a_block_with_no_commitment_needs_no_witnesses_holds: "a_block_with_no_commitment_needs_no_witnesses B"
  by (simp add: a_block_with_no_commitment_needs_no_witnesses_def check_witnesses_def block_with_def commits_def
      is_commitment_def has_witness_def)

lemma witnesses_with_no_commitment_are_refused_holds: "witnesses_with_no_commitment_are_refused B"
  by (simp add: witnesses_with_no_commitment_are_refused_def check_witnesses_def block_with_def commits_def
      is_commitment_def has_witness_def)

text \<open>
  What the crate documents: a transaction whose only input spends the null outpoint is a
  coinbase, a tree with a leaf has a root, and a commitment is a hash of 32 bytes.
\<close>

definition committing_lib :: "bitcoin_lib \<Rightarrow> bool" where
  "committing_lib B \<longleftrightarrow> (\<forall>t i. tx_input t = [i] \<longrightarrow> previous_output i = null_outpoint \<longrightarrow> is_coin_base B t) \<and>
     (\<forall>x xs. bitcoin_merkle_root B (x # xs) \<noteq> None) \<and> (\<forall>x. length (commitment_hash B x) = 32)"

lemma committing_block_accepted:
  assumes B: "committing_lib B" and v: "\<And>v. reserved = Some v \<Longrightarrow> length v = 32"
  obtains b where "committing_block B txs reserved = Some b" and "check_witness_commitment B b" and "commits b"
    and "tl (txdata b) = txs"
proof -
  define salt where "salt = (case reserved of None \<Rightarrow> replicate 32 0 | Some v \<Rightarrow> v)"
  obtain root where root: "bitcoin_merkle_root B (replicate 32 0 # map (wtxid_of B) txs) = Some root"
    using B unfolding committing_lib_def by blast
  obtain b where b: "committing_block B txs reserved = Some b"
    using root by (simp add: committing_block_def)
  obtain cb where cb: "txdata b = cb # txs" "is_coin_base B cb"
    "tx_output cb = [\<lparr>tx_value = 0, script_pubkey = [0x51]\<rparr>,
       \<lparr>tx_value = 0, script_pubkey = COMMITMENT_MAGIC @ commitment_hash B (root @ salt)\<rparr>]"
    "first_witness cb = (case reserved of Some v \<Rightarrow> [v] | None \<Rightarrow> [])"
    using b root B unfolding committing_block_def Let_def salt_def committing_lib_def
    by (fastforce simp: COMMITMENT_MAGIC_def first_witness_def)
  have len: "length (commitment_hash B (root @ salt)) = 32" using B by (simp add: committing_lib_def)
  have com: "committed_value b (commitment_hash B (root @ salt))"
    unfolding committed_value_def
    using cb(1,3) len
    by (intro exI [of _ cb] exI [of _ txs] exI [of _ "[\<lparr>tx_value = 0, script_pubkey = [0x51]\<rparr>]"]
        exI [of _ "\<lparr>tx_value = 0, script_pubkey = COMMITMENT_MAGIC @ commitment_hash B (root @ salt)\<rparr>"]
        exI [of _ "[]"])
      (simp add: is_commitment_def COMMITMENT_MAGIC_def)
  moreover have "reserved_of (first_witness cb) = Some salt"
    using v cb(4) by (auto simp: reserved_of_def salt_def ZERO_RESERVED_def split: option.splits)
  then have "salted_root B b = Some (root @ salt)"
    using root witness_leaves_Cons [OF cb(1), of B] cb(1) by (simp add: salted_root_def)
  ultimately have "check_witness_commitment B b" using cb(1,2) by (auto simp: commitment_iff)
  moreover have "commits b" using com commits_iff by blast
  ultimately show thesis using that [OF b] cb(1) by simp
qed

lemma a_signalling_era_block_that_commits_but_carries_nothing_is_accepted_holds:
  assumes "committing_lib B"
  shows "a_signalling_era_block_that_commits_but_carries_nothing_is_accepted B"
proof -
  obtain b where "committing_block B [spending_tx False] None = Some b" "check_witness_commitment B b" "commits b"
    by (rule committing_block_accepted [OF assms, of None "[spending_tx False]"]) simp_all
  then show ?thesis
    by (simp add: a_signalling_era_block_that_commits_but_carries_nothing_is_accepted_def check_witnesses_def)
qed

lemma a_peer_that_strips_committed_witnesses_is_still_caught_holds:
  assumes B: "committing_lib B" and sat: "\<And>b. satisfied (strip_block b)"
    and nc: "\<And>b. committing_block B [spending_tx True] (Some (replicate 32 0)) = Some b \<Longrightarrow> no_collision B b (strip_block b)"
  shows "a_peer_that_strips_committed_witnesses_is_still_caught B satisfied"
proof -
  obtain b where b: "committing_block B [spending_tx True] (Some (replicate 32 0)) = Some b"
    "check_witness_commitment B b" "commits b" "tl (txdata b) = [spending_tx True]"
    by (rule committing_block_accepted [OF B, of "Some (replicate 32 0)" "[spending_tx True]"]) auto
  have "txdata (strip_block b) = map strip_tx (txdata b)" by (simp add: strip_block_def)
  then have "tl (txdata (strip_block b)) = [strip_tx (spending_tx True)]"
    using b(4) by (simp add: map_tl [symmetric])
  moreover have "strip_tx (spending_tx True) \<noteq> spending_tx True" by (simp add: strip_tx_def spending_tx_def)
  moreover have "strip_block (strip_block b) = strip_block b"
    by (simp add: strip_block_def strip_tx_def comp_def)
  ultimately have "\<not> check_witness_commitment B (strip_block b)"
    using accepted_same_witnesses [OF b(2) _ _ nc [OF b(1)]] b(4) by auto
  moreover have "commits (strip_block b)"
    using b(3) by (simp add: commits_def strip_block_def strip_tx_def split: list.splits)
  ultimately have "\<not> check_witnesses B (strip_block b)" by (simp add: check_witnesses_def)
  then show ?thesis
    using b sat [of b]
    by (simp add: a_peer_that_strips_committed_witnesses_is_still_caught_def check_witnesses_def
        strip_block_def strip_tx_def [abs_def])
qed

end
