(* ===== verification/Spec2Isabelle.thy ===== *)
theory Spec2Isabelle
  imports Server Cookie_Reads Overlap Fetch_Liveness Cache_Tests Source_Tests Access_Tests
begin

text \<open>
  \<^bold>\<open>A verification of the Bitcoin RPC proxy.\<close>

  The program stands between clients and a bitcoind. It authenticates each HTTP request as
  one of its own users, lets through the JSON-RPC calls the user may make, at the user's
  wallet, and answers \<open>getblock\<close> and \<open>getrawtransaction\<close> itself for users that may fetch
  blocks: a block that bitcoind has pruned is asked of bitcoind's own peers, checked, served
  and kept in a bounded cache.

  \<^bold>\<open>Parts and theories.\<close> Each theory models a part of \<open>src/src/\<close> in the order of the code,
  proves the lemmas its clients use, and ends with the properties of the part. A struct is a
  record, an enum a datatype, an integer a word of its width, a \<open>str\<close> its UTF-8 bytes as
  characters, \<open>Result<T, E>\<close> the sum \<open>E + T\<close>; a function that changes state or the outside
  world takes it and returns it; a panic that can be reached is a value (\<open>panic\<close>).

  \<^item> \<open>Proxy_Prelude\<close>: machine integers, the functions of the Rust standard library the
    sources call, the operator \<open>?\<close> with a threaded state, and \<open>stays_in\<close>, the closure of a
    preorder on states under sequencing that every frame argument uses.
  \<^item> \<open>Block_Cache\<close> (\<open>block_cache.rs\<close>): \<open>get\<close>, \<open>insert\<close> with its eviction loop, \<open>stats\<close>. The
    map, the queue and the running total refine a least-recently-used list, the total is
    exact and within the bound, the loop ends. The locale \<open>block_store\<close> states what clients
    rely on and is interpreted on the cache.
  \<^item> \<open>Json_Value\<close>, \<open>Rpc_Types\<close> (\<open>client.rs\<close>, up to \<open>RpcResponse\<close>): JSON values, requests single
    and batched with the hand-written and the derived deserializers, errors, replies by
    version. An object of \<open>serde_json\<close> is a list of members in the order of their keys, without
    repetition, as its map is a \<open>BTreeMap\<close>. What is accepted is well typed, what is forwarded
    reads back as what was understood, and replies have the shape of their version.
  \<^item> \<open>File_World\<close>, \<open>Auth_Source\<close> (\<open>AuthSource\<close> of \<open>client.rs\<close>): bitcoind's cookie file through
    any history of rewrites, and the header made from it.
  \<^item> \<open>Rpc_Client\<close> (\<open>RpcClient\<close> of \<open>client.rs\<close>): \<open>send\<close>, single and batched, and \<open>call\<close>. A batch
    is intercepted concurrently, so the order in which its calls finish is an argument, a
    permutation of the batch, and how far forwarding has come when a refusal drops it
    (\<open>forwarding\<close>) is a second one.
    The locale \<open>client_effect\<close> carries a preorder on states through every path of the client.
  \<^item> \<open>Password\<close>, \<open>Users\<close> (\<open>users.rs\<close>, up to \<open>Users::get\<close>): clear, hashed and cookie passwords,
    the timing-safe comparison, who a header authenticates as.
  \<^item> \<open>Rpc_Methods\<close> (\<open>rpc_methods.rs\<close>, \<open>util.rs\<close>): the methods the proxy calls itself, with their
    parameters and results.
  \<^item> \<open>Witness_Check\<close>, \<open>Network\<close> (\<open>fetch_blocks.rs\<close> and \<open>state.rs\<close>): blocks and the check of their
    witness data against its specification; the magic and port of each chain, the messages,
    and where a peer is dialled.
  \<^item> \<open>Proxy_State\<close> (\<open>State\<close>, \<open>Peers\<close>, \<open>Peer\<close>, \<open>PeerHandle\<close>, \<open>RecyclableConnection\<close>): the shared
    state \<open>pstate\<close>, what does not change in \<open>env\<close>, the peer list and the channel of one idle
    connection per peer, with the invariant \<open>pool_inv\<close>.
  \<^item> \<open>Peer_Fetch\<close> (\<open>fetch_blocks.rs\<close>): connecting, the exchange with a peer, the walk over the
    peers, \<open>fetch_block_raw\<close> and \<open>fetch_block\<close>; the invariant \<open>proxy_inv\<close> of pool and cache.
  \<^item> \<open>Fetch_Liveness\<close>: when a block is found. Operations that work once the chain is known
    compose, an honest peer's exchange works, and one honest peer in the list is enough.
  \<^item> \<open>Intercept\<close> (\<open>User::intercept\<close> of \<open>users.rs\<close>): refuse, answer or leave a call.
  \<^item> \<open>Effects\<close>: locales that carry a preorder through the operations of the proxy: \<open>own_effect\<close>
    through its own calls to bitcoind, \<open>serve_effect\<close> through the interception of a call, given
    that fetching a block stays within it, and \<open>world_effect\<close>, a preorder on the outside world,
    which gives both; its instance is a log of the requests sent to bitcoind.
  \<^item> \<open>Proxy_Request\<close> (\<open>proxy.rs\<close>): the request handler, what of a request reaches bitcoind, the
    locale \<open>request_effect\<close> that extends \<open>serve_effect\<close> to the handler, and the states the proxy
    \<open>serves\<close> a sequence of requests through, with background refreshes ending between them.
  \<^item> \<open>Cookie_Reads\<close>: where the password of a cookie user comes from. The environment keeps what
    was read of every file beside the log, another instance of \<open>world_effect\<close>, and an instance of
    \<open>request_effect\<close> shows that every cached cookie was read in that user's file.
  \<^item> \<open>Interleaving\<close>: the shared state changed by atomic steps of any number of requests and
    refreshes in any order (\<open>atomic\<close>), the invariant of that machine, and, by interpreting
    \<open>request_effect\<close> on its runs, that every request is such a run.
  \<^item> \<open>Overlap\<close>: a block fetched while other requests run, with any steps of theirs wherever the
    fetch waits (\<open>fetching\<close>). The fetch on its own is a case of it, each is a run of the machine,
    and the block it answers with is as sound as when nobody comes in between.
  \<^item> \<open>Std_Text\<close>, \<open>Create_State\<close> (\<open>create_state.rs\<close>): lines, white space and addresses as text;
    start-up from a configuration to the state the machine starts in.
  \<^item> \<open>Server\<close> (\<open>main.rs\<close>, \<open>lib.rs\<close>): the program around the handler: the state from the
    configuration, the listening socket, the stream of connections and the service of a connection,
    which are given to hyper's server.
  \<^item> \<open>Cache_Tests\<close>, \<open>Source_Tests\<close>, \<open>Access_Tests\<close>: the repository's unit tests, each a predicate
    on the model under the name of the test, and the lemma that the model passes it.
    \<open>Hex_Text\<close> has hexadecimal and the text of a hash as an instance in which they evaluate.
  \<^item> This theory: from the configuration to bitcoind. Start-up, the sequences of requests it then
    serves, the log of what bitcoind sees and what was read of the cookie files are put together in
    \<open>configuration_bounds_what_bitcoind_sees\<close>, and \<open>admission_follows_the_configuration\<close> says who is
    let in for as long as the proxy serves.

  \<^bold>\<open>Parameters.\<close> Code of other crates is a field of a record that the definitions take:
  \<open>lib\<close> (JSON text, header and path parsers, the merge of \<open>itertools\<close>), \<open>text_lib\<close> (hexadecimal
  and hash text), \<open>auth_lib\<close> (base64, HMAC), \<open>bitcoin_lib\<close> (hashes, merkle root, serialization),
  \<open>net\<close> and \<open>fs\<close> (HTTP and files), \<open>p2p\<close> (clock, sockets, SOCKS, messages), \<open>start_lib\<close>,
  \<open>server_lib\<close> (binding the socket, polling it, and hyper's server as a whole). What a
  theorem needs of them is a named hypothesis (\<open>text_lib_ok\<close>, \<open>hash_text\<close>, \<open>merge_by_spec\<close>,
  \<open>honest_history\<close>, \<open>no_collision\<close>, \<open>node_replies\<close>), met by the concrete instance of its witness. The outside
  world is of any type, and its operations may do anything to it; theorems that do not say
  otherwise hold whatever bitcoind, peers, files and clock do.

  \<^bold>\<open>Bounds and concurrency.\<close> The loop that reads a peer's messages runs until a deadline; it
  reads at most \<open>env_patience\<close> messages, for any such number, and a read may report the
  deadline itself (\<open>Elapsed\<close>), so no theorem depends on the number chosen.
  \<open>one_honest_peer_is_enough\<close> says when they suffice: one more than the messages a peer sends
  before the block. Every other loop is a terminating function.
  \<open>proxy_request\<close> serves one request from start to end; within it the order of a batch and the
  winner of a \<open>try_join!\<close> are free. Requests that overlap are the runs of \<open>Interleaving\<close>, whose
  steps are what the code does between two points where a task may wait: each operation on the
  cache, each take or return of a connection, each installation of a peer list (with the
  creation of its channels) is atomic, and what other tasks do may come between any two. Its
  invariant covers all of them, and \<open>overlapping_fetches_are_sound\<close> says what a fetch among
  them answers; what else a request answers is stated for a request on its own.
  Within a request on its own, the half that a failed \<open>try_join!\<close> of an interception drops is
  taken as not begun or as over, and a peer list that another task installs between a request's
  reading the list and taking its handles as installed afterwards; the machine has the steps in
  between.
  Peers are tried one after the other, as \<open>StreamExt::then\<close> does; an exchange with the next
  peer that is started and dropped when a block has arrived is a run of the machine, and no
  part of \<open>fetch_block_from_peers\<close>. The cost of a lock is not modelled.

  \<^bold>\<open>Not modelled.\<close> Logging; the loop of the HTTP server and the HTTP client, the sockets below
  them (what is stated of requests is stated of every sequence of them, and of their overlaps);
  the text form of JSON, and with it the rejection of escaped keys where the source borrows a
  \<open>str\<close>; \<open>build.rs\<close>, which calls a generator, and the reading of configuration files by the
  generated code; what no part calls (\<open>Apply\<close>, \<open>ApplyRef\<close>, \<open>ApplyMut\<close>, \<open>deserialize_parse\<close>,
  \<open>PeerAddressError\<close>, \<open>GetRawTransactionParams\<close>, \<open>State::leak\<close>); the test whose point is the value
  of an HMAC.
  \<open>max_peer_concurrency\<close> is read by start-up and has no effect on the sequence in which peers
  are tried.
\<close>

section \<open>From the configuration to bitcoind\<close>

text \<open>
  A request to bitcoind that is sent for a request of a client, given who each name stands
  for and what was read of the cookie files: the client's request is let in under a name and
  with a password that admits it, and what is sent is made of its calls within what that user
  may do.
\<close>

definition sent_for :: "'w env \<Rightarrow> (string \<Rightarrow> user option) \<Rightarrow> reads \<Rightarrow> http_request \<Rightarrow> out_request \<Rightarrow> bool" where
  "sent_for E who seen rq q \<longleftrightarrow> served_path (rq_path rq) \<and> rq_method rq = ''POST'' \<and>
     (\<exists>header name pass u. rq_authorization rq = Some header \<and>
        credentials (env_auth E) header = Some (name, pass) \<and> who name = Some u \<and>
        admits (env_auth E) seen u pass \<and> client_out E u rq q)"

text \<open>
  A configuration as it is read: the password of each of its users comes from a string, as
  \<open>#[serde(try_from = "String")]\<close> has it (\<open>users.rs\<close>), so no configured user follows a cookie.
\<close>

definition passwords_read :: "config \<Rightarrow> bool" where
  "passwords_read cfg \<longleftrightarrow>
     (\<forall>name i. fmlookup (cfg_user cfg) name = Some i \<longrightarrow> (\<exists>written. password_try_from written = Inr (in_password i)))"

lemma expected_vouched:
  assumes "passwords_read cfg" and "fmlookup us = expected_user T cfg al cl"
  shows "vouched seen us"
proof -
  have "in_password i \<noteq> CookieFile p c" if "fmlookup (cfg_user cfg) name = Some i" for name i p c
  proof -
    obtain written where "password_try_from written = Inr (in_password i)"
      using assms(1) \<open>fmlookup (cfg_user cfg) name = Some i\<close> by (auto simp: passwords_read_def)
    then show ?thesis by (auto simp: password_try_from_def map_sum_def split: sum.splits)
  qed
  then show ?thesis
    unfolding vouched_def assms(2) expected_user_def
    by (auto simp: unrestricted_def entry_user_def split: if_splits option.splits)
qed

lemma client_out_same:
  assumes "same_permissions u v"
  shows "client_out E u = client_out E v"
proof -
  have eqs: "may_call u = may_call v" "answers_itself (env_text E) u = answers_itself (env_text E) v"
    "override_wallet u = override_wallet v"
    using assms by (simp_all add: fun_eq_iff may_call_def answers_itself_def same_permissions_def)
  show ?thesis unfolding fun_eq_iff client_out_def eqs by simp
qed

lemma client_out_logged: "client_out (logged_env E) = client_out E"
  unfolding fun_eq_iff client_out_def logged_env_sel by simp

text \<open>Whoever is let in is a user of the start with a password that admits it.\<close>

lemma authenticated:
  assumes "authenticate E rq s = (Inr (Some (name, u)), s1)"
  obtains header pass u0 pw1 where "rq_authorization rq = Some header"
    and "credentials (env_auth E) header = Some (name, pass)" and "fmlookup (users_map s) name = Some u0"
    and "password_eq (hmac (env_auth E)) (net_fs (env_net E)) (user_password u0) pass (world s) = (Inr True, pw1, world s1)"
    and "same_permissions u u0"
  using assms
  by (auto simp: authenticate_def users_get_def Let_def map_sum_def same_permissions_def
      split: option.splits prod.splits sum.splits if_splits)

lemma let_in_sent_for:
  assumes "let_in (logged_env (watched_env E)) rq s name u" and "same_users us (users_map s)"
    and "vouched (reads_of (world s)) (users_map s)" and "client_out (logged_env (watched_env E)) u rq q"
  shows "sent_for (logged_env (watched_env E)) (fmlookup us)
    (reads_of (world (snd (authenticate (logged_env (watched_env E)) rq s)))) rq q"
proof -
  let ?E = "logged_env (watched_env E)"
  obtain s1 where a: "authenticate ?E rq s = (Inr (Some (name, u)), s1)"
    using assms(1) unfolding let_in_def by (metis prod.collapse)
  obtain header pass u0 pw1 where h: "rq_authorization rq = Some header"
    and c: "credentials (env_auth ?E) header = Some (name, pass)" and u0: "fmlookup (users_map s) name = Some u0"
    and eq: "password_eq (hmac (env_auth ?E)) (net_fs (env_net ?E)) (user_password u0) pass (world s) =
      (Inr True, pw1, world s1)"
    and same: "same_permissions u u0"
    using a by (rule authenticated)
  obtain v where v: "fmlookup us name = Some v" and uv: "same_user u0 v"
    using assms(2) u0 unfolding same_users_def by blast
  have "read_in (reads_of (world s)) p pw" if "user_password u0 = CookieFile p (Some (m, pw))" for p m pw
    using assms(3) u0 that unfolding vouched_def by blast
  then have "admits (env_auth ?E) (reads_of (world s1)) v pass"
    using password_admits [OF eq [unfolded logged_env_sel watched_env_sel] _ uv] by simp
  moreover have "same_permissions u v" using same uv by (simp add: same_user_def same_permissions_def)
  then have "client_out ?E v rq q" using assms(4) client_out_same by metis
  ultimately show ?thesis using assms(1) a h c v unfolding sent_for_def let_in_def by auto
qed

lemma serves_users:
  assumes "serves E s0 rqs s"
  shows "same_users (users_map s0) (users_map s)"
  using assms
proof (induction rule: serves.induct)
  case (served rqs s sched rq stage r s1)
  have "steps E (s, {#}) (s1, {#})"
    using stays_inD [OF run.R_proxy_request served(3)] by (simp add: runs_def)
  then show ?case using served(4) progress_steps same_users_preorder(2) by (fastforce simp: progress_def)
next
  case (refreshed rqs s)
  have "steps E (s, {#}) (finish_refresh E s, {#})" using runs_refresh [of E s] by (simp add: runs_def)
  then show ?case using refreshed(2) progress_steps same_users_preorder(2) by (fastforce simp: progress_def)
qed (rule same_users_preorder)

text \<open>What the log holds after a sequence of requests.\<close>

lemma log_refresh: "log_grows (own_out E) (world s) (world (finish_refresh (logged_env E) s))"
proof -
  have "log_grows (own_out E) (world t) (world (snd (refresh_peers (logged_env E) t)))" for t
    using logging.R_refresh_peers [of E "\<lambda>q. False", unfolded stays_in_def logging.R_def, rule_format, of t] by simp
  from this [of "s\<lparr>refreshes := refreshes s - 1\<rparr>"] show ?thesis
    by (simp add: finish_refresh_def log_grows_preorder)
qed

lemma serves_log:
  assumes "serves (logged_env (watched_env E)) s0 rqs s"
    and "vouched (reads_of (world s0)) (users_map s0)" and "proxy_inv (logged_env (watched_env E)) s0"
  shows "\<forall>q\<in>set (snd (world s)). q \<in> set (snd (world s0)) \<or> own_out (logged_env (watched_env E)) q \<or>
    (\<exists>before rq after t. rqs = before @ rq # after \<and> serves (logged_env (watched_env E)) s0 before t \<and>
       sent_for (logged_env (watched_env E)) (fmlookup (users_map s0))
         (reads_of (world (snd (authenticate (logged_env (watched_env E)) rq t)))) rq q)"
  using assms(1)
proof (induction rule: serves.induct)
  case (served rqs s sched rq stage r s1)
  let ?E = "logged_env (watched_env E)"
  have users: "same_users (users_map s0) (users_map s)" using served(1) by (rule serves_users)
  have vouch: "vouched (reads_of (world s)) (users_map s)"
    using vouched_serves [OF served(1)] assms(2,3) unfolding keeps_vouched_def by blast
  have new: "own_out ?E q \<or> sent_for ?E (fmlookup (users_map s0)) (reads_of (world (snd (authenticate ?E rq s)))) rq q"
    if "q \<in> set (snd (world s1))" "q \<notin> set (snd (world s))" for q
  proof (cases "\<exists>name u. let_in ?E rq s name u")
    case True
    then obtain name u where u: "let_in ?E rq s name u" by blast
    have "own_out (watched_env E) q \<or> client_out (watched_env E) u rq q"
      using log_let_in [OF served(2,3) u] that by (auto simp: log_grows_def)
    then show ?thesis
      using let_in_sent_for [OF u users vouch] by (auto simp: client_out_logged own_out_logged)
  next
    case False
    then show ?thesis using log_refused [OF served(3)] that by simp
  qed
  show ?case
  proof
    fix q
    assume q: "q \<in> set (snd (world s1))"
    show "q \<in> set (snd (world s0)) \<or> own_out ?E q \<or>
      (\<exists>before rq' after t. rqs @ [rq] = before @ rq' # after \<and> serves ?E s0 before t \<and>
         sent_for ?E (fmlookup (users_map s0)) (reads_of (world (snd (authenticate ?E rq' t)))) rq' q)"
    proof (cases "q \<in> set (snd (world s))")
      case True
      then show ?thesis using served(4) by fastforce
    next
      case False
      then show ?thesis using new [OF q] served(1) by blast
    qed
  qed
next
  case (refreshed rqs s)
  then show ?case
    using log_refresh [of "watched_env E" s] by (auto simp: log_grows_def own_out_logged)
qed simp

text \<open>Start-up with a log beside the world: it sends nothing, and the proxy it starts has the log.\<close>

lemma log_lines_at: "lines_at (net_fs (logged_net N)) conf wl = (r, wl1) \<Longrightarrow> snd wl1 = snd wl"
  by (auto simp: lines_at_def read_lines_def return_ok_def split: option.splits prod.splits sum.splits dest: log_read)

lemma watched_start:
  assumes "create_state S (logged_env (watched_env E)) cfg w = (Inr (st, b), w1)"
  obtains E0 where "st_env st = logged_env (watched_env E0)"
proof -
  obtain uri where "st_env st = (logged_env (watched_env E))\<lparr>env_uri := uri, env_tor := tor_of cfg,
      env_i2p_proxy := cfg_i2p_proxy cfg, env_max_peer_age := from_secs (cfg_max_peer_age cfg)\<rparr>"
    using assms by (auto simp: create_state_def split: sum.splits prod.splits)
  then have "st_env st = logged_env (watched_env (E\<lparr>env_uri := uri, env_tor := tor_of cfg,
      env_i2p_proxy := cfg_i2p_proxy cfg, env_max_peer_age := from_secs (cfg_max_peer_age cfg)\<rparr>))"
    by (simp add: logged_env_def watched_env_def)
  then show thesis by (rule that)
qed

lemma log_read_lines: "read_lines (net_fs (logged_net N)) p wl = (r, wl1) \<Longrightarrow> snd wl1 = snd wl"
  by (auto simp: read_lines_def split: prod.splits sum.splits dest: log_read)

lemma log_create_state:
  assumes "create_state S (logged_env E) cfg wl = (r, wl1)"
  shows "snd wl1 = snd wl"
proof -
  have "stays_in (\<lambda>v v1. snd v1 = snd v) (configured_users (net_fs (logged_net (env_net E))) T cfg)" for T
    unfolding configured_users_def passthrough_rpcauth_def passthrough_rpccookie_def
    by (intro stays_in_bind_res)
      (auto simp: transp_def stays_in_def return_ok_def bind_res_def split: option.splits prod.splits sum.splits
        dest: log_read_lines)
  then show ?thesis
    using assms
    by (auto simp: create_state_def split: sum.splits prod.splits dest: stays_inD)
qed

text \<open>For the witness: a configuration with alice as its one user.\<close>

definition alice_cfg :: config where
  "alice_cfg = start_cfg\<lparr>cfg_bitcoind_user := Some ''u'', cfg_bitcoind_password := Some ''p'', cfg_cookie_file := None,
     cfg_user := fmap_of_list [(''alice'', \<lparr>in_password = Cleartext ''public'',
       in_allowed_calls = Some {|''getblock''|}, in_fetch_blocks = Some True, in_override_wallet = Some ''w''\<rparr>)],
     cfg_passthrough_rpcauth := None, cfg_passthrough_rpccookie := None, cfg_block_cache_size_mib := 1\<rparr>"

lemma alice_starts:
  fixes E :: "'w env"
  assumes lib: "env_lib E = env_lib demo_proxy"
    and same: "E\<lparr>env_uri := ''http://127.0.0.1:8332/'', env_tor := None, env_i2p_proxy := None,
      env_max_peer_age := 300000000000\<rparr> = E"
  shows "\<exists>st. create_state start_libs E alice_cfg wl = (Inr (st, BindIp (V4 127 0 0 1) 8331), wl) \<and>
     st_env st = E \<and> st_state st = demo_start wl"
proof -
  have "map (\<lambda>b. char_of (unat b)) (as_bytes t) = t" for t by (simp add: as_bytes_def comp_def)
  then have a: "from_config (lib_codecs (env_lib E)) (cfg_bitcoind_user alice_cfg) (cfg_bitcoind_password alice_cfg)
      (cfg_cookie_file alice_cfg) = Inr (AuthConst ''u'' ''p'' ''Basic u:p'')"
    by (simp add: lib from_config_def alice_cfg_def demo_env_def demo_node_lib_def demo_lib_def demo_codecs_def)
  have digits: "char_of (48 :: nat) = CHR ''0''" "char_of (49 :: nat) = CHR ''1''" "char_of (50 :: nat) = CHR ''2''"
    "char_of (51 :: nat) = CHR ''3''" "char_of (55 :: nat) = CHR ''7''" "char_of (56 :: nat) = CHR ''8''"
    by (simp_all add: char_of_def bit_0)
  have u: "parse_uri start_libs (bitcoin_uri (cfg_bitcoind_address alice_cfg) (cfg_bitcoind_port alice_cfg)) =
      Inr ''http://127.0.0.1:8332/''"
    by (simp add: start_libs_def alice_cfg_def start_cfg_def bitcoin_uri_def show_v4_def show_nat.simps digits)
  have b: "bind_addr_of start_libs alice_cfg = Inr (BindIp (V4 127 0 0 1) 8331)"
    by (simp add: bind_addr_of_def alice_cfg_def start_cfg_def default_bind_address_def default_bind_port_def)
  have us: "configured_users (net_fs (env_net E)) (env_text E) alice_cfg wl = (Inr demo_users, wl)"
    by (simp add: configured_users_def passthrough_rpcauth_def passthrough_rpccookie_def bind_res_def return_ok_def
        alice_cfg_def map_default_def demo_users_def)
      (auto intro: fmap_ext simp: user_map_default_def demo_user_def)
  have m: "cache_bytes alice_cfg = 1048576" by (simp add: cache_bytes_def alice_cfg_def saturating_mul_def)
  have e: "tor_of alice_cfg = None" "cfg_i2p_proxy alice_cfg = None" "from_secs (cfg_max_peer_age alice_cfg) = 300000000000"
    by (simp_all add: tor_of_def alice_cfg_def start_cfg_def from_secs_def)
  show ?thesis using a u b us m e same by (simp add: create_state_def demo_start_def)
qed

lemma alice_logged:
  "\<exists>st. create_state start_libs (logged_env demo_proxy) alice_cfg wl = (Inr (st, BindIp (V4 127 0 0 1) 8331), wl) \<and>
     st_env st = logged_env demo_proxy \<and> st_state st = demo_start wl"
  by (rule alice_starts) (simp_all add: logged_env_def demo_env_def)

lemma alice_watched:
  "\<exists>st. create_state start_libs (logged_env (watched_env demo_proxy)) alice_cfg wl =
       (Inr (st, BindIp (V4 127 0 0 1) 8331), wl) \<and>
     st_env st = logged_env (watched_env demo_proxy) \<and> st_state st = demo_start wl"
  by (rule alice_starts) (simp_all add: logged_env_def watched_env_def demo_env_def)

lemma demo_forwarded_watched:
  "\<exists>r. proxy_request (logged_env (watched_env demo_proxy)) demo_http (enumerate 0) NotBegun (demo_start ((w, seen), l)) =
     (r, demo_start ((w, seen), l @ [demo_out]))"
proof -
  have "intercept (logged_env (watched_env demo_proxy)) demo_user demo_call s = (Inr (Inr None), s)" for s
    by (simp add: intercept_forward_iff allowed_def answers_itself_def demo_call_def demo_user_def json_u64_def)
  moreover have "demo_method (ser_request demo_call) = ''getblock''"
    by (simp add: demo_method_def demo_call_def ser_request_def ser_request_with_def)
  ultimately show ?thesis
    using demo_authenticates [of "logged_env (watched_env demo_proxy)" "demo_start ((w, seen), l)"] demo_parses [of "[]"]
    by (simp add: proxy_request_def serve_user_def demo_start_def fresh_state_def served_path_def demo_http_def
        send_single_def forward_single_def load_auth_def http_send_def logged_net_def logged_def watched_net_def
        watched_def demo_out_def demo_env_def demo_node_lib_def demo_lib_def demo_node_net_def forward_path_def
        demo_user_def)
qed

text \<open>Passwords whose comparison is decided by the configuration alone, without a panic.\<close>

definition comparable :: "user \<Rightarrow> string \<Rightarrow> bool" where
  "comparable u pass \<longleftrightarrow> pass \<noteq> [] \<and> length pass < 2 ^ 64 \<and>
     (case user_password u of Cleartext pw \<Rightarrow> length pw < 2 ^ 64 | Hash _ _ \<Rightarrow> True | CookieFile _ _ \<Rightarrow> False)"

lemma comparable_decides:
  assumes "comparable u pass" and "same_user u0 u"
  shows "password_eq (hmac A) fs (user_password u0) pass w = (Inr (proves A u pass), user_password u0, w)"
proof -
  have "user_password u0 = user_password u"
    using assms by (cases "user_password u0"; cases "user_password u") (auto simp: same_user_def comparable_def)
  then show ?thesis
    using assms(1) by (cases "user_password u") (auto simp: comparable_def proves_def same_contents_iff)
qed

lemma admission:
  assumes "same_users us (users_map s)" and "served_path (rq_path rq)" and "rq_method rq = ''POST''"
    and "rq_authorization rq = Some header" and "credentials (env_auth E) header = Some (name, pass)"
  shows "case fmlookup us name of
      None \<Rightarrow> proxy_request E rq sched stage s = (Inr (Inr unauthorized), s)
    | Some u \<Rightarrow> comparable u pass \<longrightarrow> (\<exists>v. same_user v u \<and> proxy_request E rq sched stage s =
        (if proves (env_auth E) u pass then serve_user E rq sched stage v s else (Inr (Inr unauthorized), s)))"
proof (cases "fmlookup us name")
  case None
  then have "fmlookup (users_map s) name = None"
    using assms(1) unfolding same_users_def by (metis fmdom_notD fmdom_notI)
  then show ?thesis
    using None assms(2-5) by (simp add: proxy_request_def authenticate_def users_get_def)
next
  case (Some u)
  then obtain u0 where u0: "fmlookup (users_map s) name = Some u0"
    using assms(1) unfolding same_users_def by (metis fmdomI fmlookup_dom_iff)
  then have same: "same_user u0 u" using Some assms(1) unfolding same_users_def by fastforce
  have "\<exists>v. same_user v u \<and> proxy_request E rq sched stage s =
        (if proves (env_auth E) u pass then serve_user E rq sched stage v s else (Inr (Inr unauthorized), s))"
    if "comparable u pass"
  proof (intro exI conjI)
    show "same_user u0 u" by (rule same)
    show "proxy_request E rq sched stage s =
        (if proves (env_auth E) u pass then serve_user E rq sched stage u0 s else (Inr (Inr unauthorized), s))"
      using assms(2-5) u0 comparable_decides [OF that same, of "env_auth E" "net_fs (env_net E)" "world s"]
      by (simp add: proxy_request_def authenticate_def users_get_def fmupd_same)
  qed
  then show ?thesis using Some by simp
qed

section \<open>Properties\<close>

text \<open>
  C2: what is configured is what reaches bitcoind. For any configuration as read, whatever requests are
  then served one after the other, with refreshes of the peer list ending at any time between
  them, and whatever bitcoind, peers, files and clock do: start-up sends bitcoind nothing, and
  when it fails the program ends with its error and serves nobody. After a start that succeeds,
  every HTTP request that bitcoind ever sees is one the proxy builds for itself, or is made, for
  a \<open>POST\<close> among the requests to a served path with credentials of a configured name, of calls
  of that request that the name may make according to the configuration, the \<open>rpcauth\<close> lines
  and the cookie read at start, and is sent to the wallet the user is bound to, if any. The
  password presented is the clear one configured, or hashes to the configured hash, or, for the
  user of a cookie, is the password half of contents read from that very file since the start and
  no later than the request was let in: a file that cannot be read lets nobody in.
\<close>

theorem configuration_bounds_what_bitcoind_sees:
  assumes "create_state S (logged_env (watched_env E)) cfg ((w, []), []) = (r, w2)" and "passwords_read cfg"
  shows "snd w2 = [] \<and>
    (case r of
       Inl e \<Rightarrow> main S V (logged_env (watched_env E)) cfg ((w, []), []) = (Some (Inl (NotCreated e)), [], w2)
     | Inr (st, bind) \<Rightarrow>
        \<exists>al cl w1. lines_at (net_fs (env_net (logged_env (watched_env E)))) (cfg_passthrough_rpcauth cfg) ((w, []), []) = (Inr al, w1) \<and>
          lines_at (net_fs (env_net (logged_env (watched_env E)))) (cfg_passthrough_rpccookie cfg) w1 = (Inr cl, w2) \<and>
          (\<forall>v rqs s. serves (st_env st) ((st_state st)\<lparr>world := ((v, []), [])\<rparr>) rqs s \<longrightarrow>
             (\<forall>q\<in>set (snd (world s)). own_out (st_env st) q \<or>
                (\<exists>before rq after t. rqs = before @ rq # after \<and>
                   serves (st_env st) ((st_state st)\<lparr>world := ((v, []), [])\<rparr>) before t \<and>
                   sent_for (st_env st) (expected_user (env_text E) cfg al cl)
                     (reads_of (world (snd (authenticate (st_env st) rq t)))) rq q))))"
proof -
  have sent: "snd w2 = []" using log_create_state [OF assms(1)] by simp
  show ?thesis
  proof (cases r)
    case (Inl e)
    then show ?thesis using sent assms(1) by (simp add: main_not_created)
  next
    case (Inr sb)
    obtain st bind where sb: "sb = (st, bind)" by fastforce
    note started = assms(1) [unfolded Inr sb]
    obtain E0 where E0: "st_env st = logged_env (watched_env E0)" using started by (rule watched_start)
    obtain al cl w1 where lines: "lines_at (net_fs (env_net (logged_env (watched_env E)))) (cfg_passthrough_rpcauth cfg) ((w, []), []) = (Inr al, w1)"
        "lines_at (net_fs (env_net (logged_env (watched_env E)))) (cfg_passthrough_rpccookie cfg) w1 = (Inr cl, w2)"
      and who: "fmlookup (users_map (st_state st)) = expected_user (env_text E) cfg al cl"
      using started by (rule started_users) simp
    obtain a us m where fresh: "st_state st = fresh_state a us m w2"
      using started by (rule create_state_Inr)
    have inv: "proxy_inv (st_env st) ((st_state st)\<lparr>world := u\<rparr>)" for u
      using proxy_inv_fresh [of "st_env st" a us m u] by (simp add: fresh fresh_state_def)
    have log: "\<forall>q\<in>set (snd (world s)). own_out (st_env st) q \<or>
        (\<exists>before rq after t. rqs = before @ rq # after \<and>
           serves (st_env st) ((st_state st)\<lparr>world := ((v, []), [])\<rparr>) before t \<and>
           sent_for (st_env st) (expected_user (env_text E) cfg al cl)
             (reads_of (world (snd (authenticate (st_env st) rq t)))) rq q)"
      if "serves (st_env st) ((st_state st)\<lparr>world := ((v, []), [])\<rparr>) rqs s" for v rqs s
      using serves_log [OF that [unfolded E0]] expected_vouched [OF assms(2) who] inv [unfolded E0]
      by (simp add: who E0)
    show ?thesis using sent lines log unfolding Inr sb by auto
  qed
qed

theorem configuration_bounds_what_bitcoind_sees_witness:
  "\<exists>st s. create_state start_libs (logged_env (watched_env demo_proxy)) alice_cfg (([], []), []) =
       (Inr (st, BindIp (V4 127 0 0 1) 8331), (([], []), [])) \<and>
     serves (st_env st) (st_state st) [demo_http] s \<and> snd (world s) = [demo_out] \<and>
     (own_out (st_env st) demo_out \<or>
      (\<exists>seen. sent_for (st_env st) (expected_user demo_text alice_cfg [] []) seen demo_http demo_out))"
proof -
  let ?E = "logged_env (watched_env demo_proxy)"
  obtain st where st: "create_state start_libs ?E alice_cfg (([], []), []) =
      (Inr (st, BindIp (V4 127 0 0 1) 8331), (([], []), []))"
    and e: "st_env st = ?E" "st_state st = demo_start (([], []), [])"
    using alice_watched [of "(([], []), [])"] by blast
  obtain reply where p: "proxy_request ?E demo_http (enumerate 0) NotBegun (demo_start (([], []), [])) =
      (reply, demo_start (([], []), [demo_out]))"
    using demo_forwarded_watched [of "[]" "[]" "[]"] by auto
  have "serves ?E (demo_start (([], []), [])) ([] @ [demo_http]) (demo_start (([], []), [demo_out]))"
    using serves.start _ p by (rule serves.served) (simp add: schedule_ok_def)
  then have run: "serves (st_env st) (st_state st) [demo_http] (demo_start (([], []), [demo_out]))"
    by (simp add: e)
  have w: "world (demo_start wl) = wl" "(demo_start wl)\<lparr>world := wl\<rparr> = demo_start wl"
    for wl :: "(raw_message list \<times> reads) \<times> out_request list"
    by (simp_all add: demo_start_def fresh_state_def)
  have "password_try_from ''public'' = Inr (Cleartext ''public'')"
    by (simp add: password_try_from_def validate_str_def as_bytes_def of_char_def)
  then have "passwords_read alice_cfg" by (auto simp: passwords_read_def alice_cfg_def)
  note configuration_bounds_what_bitcoind_sees [OF st this, THEN conjunct2]
  moreover have "cfg_passthrough_rpcauth alice_cfg = None" "cfg_passthrough_rpccookie alice_cfg = None" "env_text demo_proxy = demo_text"
    by (simp_all add: alice_cfg_def demo_env_def)
  ultimately have "\<forall>v rqs s. serves (st_env st) ((st_state st)\<lparr>world := ((v, []), [])\<rparr>) rqs s \<longrightarrow>
      (\<forall>q\<in>set (snd (world s)). own_out (st_env st) q \<or>
         (\<exists>before rq after t. rqs = before @ rq # after \<and>
            serves (st_env st) ((st_state st)\<lparr>world := ((v, []), [])\<rparr>) before t \<and>
            sent_for (st_env st) (expected_user demo_text alice_cfg [] [])
              (reads_of (world (snd (authenticate (st_env st) rq t)))) rq q))"
    by (simp add: lines_at_def return_ok_def)
  from this [rule_format, of "[]" "[demo_http]" "demo_start (([], []), [demo_out])" demo_out]
  have "own_out (st_env st) demo_out \<or>
      (\<exists>seen. sent_for (st_env st) (expected_user demo_text alice_cfg [] []) seen demo_http demo_out)"
    using run by (auto simp: e w Cons_eq_append_conv)
  then show ?thesis
    using st run w(1) by (intro exI [of _ st] exI [of _ "demo_start (([], []), [demo_out])"]) simp
qed

text \<open>
  C23: the configuration decides who is let in, for as long as the proxy runs. Whatever has been
  served since a successful start, a \<open>POST\<close> to a served path with credentials is answered 401
  if the name is neither configured nor in the \<open>rpcauth\<close> lines or the cookie read at start. If
  it is, with a clear or hashed password, and the one presented is not empty, it is served, as
  the user that was configured, exactly if the password is right, and answered 401 otherwise,
  without any other effect.
\<close>

theorem admission_follows_the_configuration:
  assumes "create_state S E cfg w = (Inr (st, bind), w2)" and "serves (st_env st) (st_state st) rqs s"
    and "served_path (rq_path rq)" and "rq_method rq = ''POST''"
    and "rq_authorization rq = Some header" and "credentials (env_auth E) header = Some (name, pass)"
  shows "\<exists>al cl w1. lines_at (net_fs (env_net E)) (cfg_passthrough_rpcauth cfg) w = (Inr al, w1) \<and>
    lines_at (net_fs (env_net E)) (cfg_passthrough_rpccookie cfg) w1 = (Inr cl, w2) \<and>
    (case expected_user (env_text E) cfg al cl name of
       None \<Rightarrow> proxy_request (st_env st) rq sched stage s = (Inr (Inr unauthorized), s)
     | Some u \<Rightarrow> comparable u pass \<longrightarrow> (\<exists>v. same_user v u \<and> proxy_request (st_env st) rq sched stage s =
         (if proves (env_auth E) u pass then serve_user (st_env st) rq sched stage v s
          else (Inr (Inr unauthorized), s))))"
proof -
  obtain al cl w1 where lines: "lines_at (net_fs (env_net E)) (cfg_passthrough_rpcauth cfg) w = (Inr al, w1)"
      "lines_at (net_fs (env_net E)) (cfg_passthrough_rpccookie cfg) w1 = (Inr cl, w2)"
    and who: "fmlookup (users_map (st_state st)) = expected_user (env_text E) cfg al cl"
    using assms(1) by (rule started_users) simp
  have auth: "env_auth (st_env st) = env_auth E"
    using assms(1) by (auto simp: create_state_def split: sum.splits prod.splits)
  note admission [OF serves_users [OF assms(2)] assms(3-5), of "st_env st" name pass sched stage, unfolded auth who, OF assms(6)]
  then show ?thesis using lines by blast
qed

theorem admission_follows_the_configuration_witness:
  "\<exists>st v. create_state start_libs (logged_env demo_proxy) alice_cfg ([], []) =
       (Inr (st, BindIp (V4 127 0 0 1) 8331), ([], [])) \<and>
     proxy_request (st_env st) demo_http (enumerate 0) NotBegun (st_state st) =
       serve_user (st_env st) demo_http (enumerate 0) NotBegun v (st_state st) \<and>
     allowed_calls v = Some {|''getblock''|}"
proof -
  obtain st where st: "create_state start_libs (logged_env demo_proxy) alice_cfg ([], []) =
      (Inr (st, BindIp (V4 127 0 0 1) 8331), ([], []))"
    and e: "st_env st = logged_env demo_proxy" "st_state st = demo_start ([], [])"
    using alice_logged [of "([], [])"] by blast
  have cfg: "cfg_passthrough_rpcauth alice_cfg = None" "cfg_passthrough_rpccookie alice_cfg = None"
    by (simp_all add: alice_cfg_def)
  have "expected_user T alice_cfg [] [] ''alice'' = Some demo_user" for T
    by (simp add: expected_user_def cookie_names_def alice_cfg_def entry_user_def demo_user_def)
  moreover have "comparable demo_user ''public''" "proves A demo_user ''public''" for A
    by (simp_all add: comparable_def proves_def demo_user_def)
  moreover have "served_path (rq_path demo_http)" "rq_method demo_http = ''POST''"
    "rq_authorization demo_http = Some (as_bytes ''Basic alice:public'')"
    by (simp_all add: demo_http_def served_path_def)
  moreover have "credentials (env_auth (logged_env demo_proxy)) (as_bytes ''Basic alice:public'') = Some (''alice'', ''public'')"
    using demo_alice by (simp add: demo_env_def)
  ultimately obtain v where "same_user v demo_user" "proxy_request (st_env st) demo_http (enumerate 0) NotBegun (st_state st) =
      serve_user (st_env st) demo_http (enumerate 0) NotBegun v (st_state st)"
    using admission_follows_the_configuration [OF st serves.start, of demo_http _ "''alice''" "''public''" "enumerate 0" NotBegun]
    by (simp add: cfg lines_at_def return_ok_def) blast
  then show ?thesis using st by (auto simp: same_user_def same_permissions_def demo_user_def)
qed

end
